theory Spec2Isabelle
  imports Complex_Main
begin

section \<open>Failures\<close>

text \<open>
  The point-cloud code of \<^verbatim>\<open>drake/perception/point_cloud.cc\<close> fails in four ways:
  it throws \<^verbatim>\<open>std::runtime_error\<close>, \<^verbatim>\<open>DRAKE_THROW_UNLESS\<close> throws, \<^verbatim>\<open>DRAKE_DEMAND\<close>
  aborts, and Eigen rejects a size or an index outside a matrix (a negative column
  count given to \<^verbatim>\<open>conservativeResize\<close>, a block or column outside the matrix, an
  assignment through an \<^verbatim>\<open>Eigen::Ref\<close> of another shape).
\<close>

datatype error = RuntimeError | ThrowUnlessFailed | DemandFailed | EigenAssert

definition and_then :: "error + 'a \<Rightarrow> ('a \<Rightarrow> error + 'b) \<Rightarrow> error + 'b" where
  "and_then m f = (case m of Inl err \<Rightarrow> Inl err | Inr x \<Rightarrow> f x)"

section \<open>Machine integers\<close>

text \<open>
  Sizes and counts are C++ \<^verbatim>\<open>int\<close>s of 32 bits. The model keeps them as integers and
  writes out the wrap-around of the sums the code computes on them,
  \<^verbatim>\<open>size() + add_size\<close> in \<^verbatim>\<open>Expand\<close>, \<^verbatim>\<open>count += clouds[i].size()\<close> and
  \<^verbatim>\<open>index += s\<close> in \<^verbatim>\<open>Concatenate\<close>; the counters of the other loops stay below a size.
  C++ leaves a signed overflow undefined; two's-complement hardware wraps.
\<close>

definition INT_MAX :: int where
  "INT_MAX = 2 ^ 31 - 1"

definition int32 :: "int \<Rightarrow> int" where
  "int32 x = (x + 2 ^ 31) mod 2 ^ 32 - 2 ^ 31"

section \<open>Field sets\<close>

text \<open>
  Modelled from the spec: the header \<^verbatim>\<open>point_cloud_flags.h\<close> (\<^verbatim>\<open>pc_flags::Fields\<close>,
  \<^verbatim>\<open>pc_flags::DescriptorType\<close> and the constants \<^verbatim>\<open>kNone\<close>, \<^verbatim>\<open>kInherit\<close>, \<^verbatim>\<open>kXYZs\<close>,
  \<^verbatim>\<open>kNormals\<close>, \<^verbatim>\<open>kRGBs\<close>) is not among the sources. The spec describes a field set as
  a tagged set: the built-in kinds, the reserved marker Inherit, and a named descriptor
  kind of fixed dimensionality; it supports a containment test and exact equality.
  The source reads one descriptor kind per field set (\<^verbatim>\<open>fields_.descriptor_type().size()\<close>)
  and tests for the marker with \<^verbatim>\<open>contains(pc_flags::kInherit)\<close>, so the marker is a
  member of the set of flags. Equality of field sets (\<^verbatim>\<open>==\<close>) is equality of records.
\<close>

datatype BaseField = Inherit | XYZs | Normals | RGBs

record DescriptorType =
  dsize :: nat
  dname :: string

record Fields =
  base_fields :: "BaseField set"
  descriptor_type :: DescriptorType

definition kDescriptorNone :: DescriptorType where
  "kDescriptorNone = \<lparr>dsize = 0, dname = ''None''\<rparr>"

definition base :: "BaseField set \<Rightarrow> Fields" where
  "base b = \<lparr>base_fields = b, descriptor_type = kDescriptorNone\<rparr>"

definition kNone :: Fields where "kNone = base {}"
definition kInherit :: Fields where "kInherit = base {Inherit}"
definition kXYZs :: Fields where "kXYZs = base {XYZs}"
definition kNormals :: Fields where "kNormals = base {Normals}"
definition kRGBs :: Fields where "kRGBs = base {RGBs}"

definition has_descriptor :: "Fields \<Rightarrow> bool" where
  "has_descriptor f = (descriptor_type f \<noteq> kDescriptorNone)"

definition contains :: "Fields \<Rightarrow> Fields \<Rightarrow> bool" where
  "contains f rhs =
     (base_fields rhs \<subseteq> base_fields f \<and>
      (descriptor_type rhs = kDescriptorNone \<or> descriptor_type f = descriptor_type rhs))"

section \<open>Constants of the header and uninitialised memory\<close>

text \<open>
  The element types \<^verbatim>\<open>T\<close> (positions, normals, descriptors) and \<^verbatim>\<open>C\<close> (colours) and the
  constants \<^verbatim>\<open>kDefaultValue\<close> and \<^verbatim>\<open>kDefaultColor\<close> are declared in \<^verbatim>\<open>point_cloud.h\<close>,
  which is not among the sources: the types are the type variables \<open>'t\<close> and \<open>'c\<close>,
  the constants are fields of the environment every operation takes.

  Eigen's \<^verbatim>\<open>conservativeResize\<close> leaves the columns it adds uninitialised. What such a
  column holds is not decided by the program, so the environment supplies it: the
  content of the uninitialised column \<open>i\<close> of each buffer.
\<close>

type_synonym 'a vec3 = "'a \<times> 'a \<times> 'a"

record ('t, 'c) env =
  kDefaultValue :: 't
  kDefaultColor :: 'c
  uninit_xyzs :: "nat \<Rightarrow> 't vec3"
  uninit_normals :: "nat \<Rightarrow> 't vec3"
  uninit_rgbs :: "nat \<Rightarrow> 'c vec3"
  uninit_descriptors :: "nat \<Rightarrow> nat \<Rightarrow> 't"

section \<open>Eigen matrices as lists of columns\<close>

text \<open>
  A \<^verbatim>\<open>Matrix3X\<close> is the list of its columns, each a triple; the dynamic descriptor
  matrix is the list of its columns, each a list of \<^verbatim>\<open>rows()\<close> entries.
\<close>

definition resized :: "(nat \<Rightarrow> 'a) \<Rightarrow> nat \<Rightarrow> 'a list \<Rightarrow> 'a list" where
  "resized u new_cols m = take new_cols m @ map u [length m ..< new_cols]"

definition conservativeResize :: "(nat \<Rightarrow> 'a) \<Rightarrow> int \<Rightarrow> 'a list \<Rightarrow> error + 'a list" where
  "conservativeResize u new_cols m =
     (if new_cols < 0 then Inl EigenAssert else Inr (resized u (nat new_cols) m))"

definition assign_middleCols :: "int \<Rightarrow> int \<Rightarrow> 'a list \<Rightarrow> 'a list \<Rightarrow> error + 'a list" where
  "assign_middleCols start num src m =
     (if 0 \<le> start \<and> 0 \<le> num \<and> start + num \<le> int (length m) \<and> int (length src) = num
      then Inr (take (nat start) m @ src @ drop (nat (start + num)) m)
      else Inl EigenAssert)"

definition setConstant_middleCols :: "int \<Rightarrow> int \<Rightarrow> 'a \<Rightarrow> 'a list \<Rightarrow> error + 'a list" where
  "setConstant_middleCols start num v m = assign_middleCols start num (replicate (nat num) v) m"

definition assign_ref :: "'a list \<Rightarrow> 'a list \<Rightarrow> error + 'a list" where
  "assign_ref src m = (if length src = length m then Inr src else Inl EigenAssert)"

definition col :: "'a list \<Rightarrow> int \<Rightarrow> error + 'a" where
  "col m i = (if 0 \<le> i \<and> i < int (length m) then Inr (m ! nat i) else Inl EigenAssert)"

definition assign_col :: "int \<Rightarrow> 'a \<Rightarrow> 'a list \<Rightarrow> error + 'a list" where
  "assign_col i v m =
     (if 0 \<le> i \<and> i < int (length m) then Inr (m[nat i := v]) else Inl EigenAssert)"

definition constant3 :: "'a \<Rightarrow> 'a vec3" where
  "constant3 v = (v, v, v)"

section \<open>Storage\<close>

record ('t, 'c) Storage =
  st_fields :: Fields
  st_size :: int
  st_xyzs :: "'t vec3 list"
  st_normals :: "'t vec3 list"
  st_rgbs :: "'c vec3 list"
  st_descriptors :: "'t list list"

text \<open>
  \<^verbatim>\<open>descriptors_.rows()\<close>: the Storage constructor sets it to the descriptor kind's size
  and every later resize keeps it (\<^verbatim>\<open>NoChange\<close>).
\<close>

definition descriptor_rows :: "('t, 'c) Storage \<Rightarrow> nat" where
  "descriptor_rows s = dsize (descriptor_type (st_fields s))"

definition CheckInvariants :: "('t, 'c) Storage \<Rightarrow> error + ('t, 'c) Storage" where
  "CheckInvariants s =
     (if contains (st_fields s) kXYZs \<and> int (length (st_xyzs s)) \<noteq> st_size s then Inl DemandFailed
      else if contains (st_fields s) kNormals \<and> int (length (st_normals s)) \<noteq> st_size s
        then Inl DemandFailed
      else if contains (st_fields s) kRGBs \<and> int (length (st_rgbs s)) \<noteq> st_size s
        then Inl DemandFailed
      else if has_descriptor (st_fields s) \<and> int (length (st_descriptors s)) \<noteq> st_size s
        then Inl DemandFailed
      else Inr s)"

definition Storage_resize ::
  "('t, 'c) env \<Rightarrow> int \<Rightarrow> ('t, 'c) Storage \<Rightarrow> error + ('t, 'c) Storage" where
  "Storage_resize e new_size s =
     and_then (if contains (st_fields s) kXYZs
               then conservativeResize (uninit_xyzs e) new_size (st_xyzs s)
               else Inr (st_xyzs s)) (\<lambda>x.
     and_then (if contains (st_fields s) kNormals
               then conservativeResize (uninit_normals e) new_size (st_normals s)
               else Inr (st_normals s)) (\<lambda>n.
     and_then (if contains (st_fields s) kRGBs
               then conservativeResize (uninit_rgbs e) new_size (st_rgbs s)
               else Inr (st_rgbs s)) (\<lambda>r.
     and_then (if has_descriptor (st_fields s)
               then conservativeResize
                      (\<lambda>i. map (uninit_descriptors e i) [0 ..< descriptor_rows s])
                      new_size (st_descriptors s)
               else Inr (st_descriptors s)) (\<lambda>d.
     CheckInvariants
       (s\<lparr>st_size := new_size, st_xyzs := x, st_normals := n, st_rgbs := r, st_descriptors := d\<rparr>)))))"

definition Storage_new :: "('t, 'c) env \<Rightarrow> int \<Rightarrow> Fields \<Rightarrow> error + ('t, 'c) Storage" where
  "Storage_new e new_size flds =
     Storage_resize e new_size
       \<lparr>st_fields = flds, st_size = 0, st_xyzs = [], st_normals = [], st_rgbs = [],
        st_descriptors = []\<rparr>"

section \<open>PointCloud\<close>

record ('t, 'c) PointCloud =
  pc_size :: int
  pc_fields :: Fields
  pc_storage :: "('t, 'c) Storage"

definition has_xyzs :: "('t, 'c) PointCloud \<Rightarrow> bool" where
  "has_xyzs c = contains (pc_fields c) kXYZs"

definition has_normals :: "('t, 'c) PointCloud \<Rightarrow> bool" where
  "has_normals c = contains (pc_fields c) kNormals"

definition has_rgbs :: "('t, 'c) PointCloud \<Rightarrow> bool" where
  "has_rgbs c = contains (pc_fields c) kRGBs"

definition has_descriptors :: "('t, 'c) PointCloud \<Rightarrow> bool" where
  "has_descriptors c = has_descriptor (pc_fields c)"

text \<open>The read accessors: each demands that the field is present.\<close>

definition xyzs :: "('t, 'c) PointCloud \<Rightarrow> error + 't vec3 list" where
  "xyzs c = (if has_xyzs c then Inr (st_xyzs (pc_storage c)) else Inl DemandFailed)"

definition normals :: "('t, 'c) PointCloud \<Rightarrow> error + 't vec3 list" where
  "normals c = (if has_normals c then Inr (st_normals (pc_storage c)) else Inl DemandFailed)"

definition rgbs :: "('t, 'c) PointCloud \<Rightarrow> error + 'c vec3 list" where
  "rgbs c = (if has_rgbs c then Inr (st_rgbs (pc_storage c)) else Inl DemandFailed)"

definition descriptors :: "('t, 'c) PointCloud \<Rightarrow> error + 't list list" where
  "descriptors c =
     (if has_descriptors c then Inr (st_descriptors (pc_storage c)) else Inl DemandFailed)"

text \<open>
  The mutable accessors return an \<^verbatim>\<open>Eigen::Ref\<close> into the storage; the model takes the
  write done through the reference as a function on the buffer.
\<close>

definition mutable_xyzs ::
  "('t vec3 list \<Rightarrow> error + 't vec3 list) \<Rightarrow> ('t, 'c) PointCloud \<Rightarrow> error + ('t, 'c) PointCloud"
  where
  "mutable_xyzs w c =
     (if has_xyzs c
      then and_then (w (st_xyzs (pc_storage c))) (\<lambda>m. Inr (c\<lparr>pc_storage := (pc_storage c)\<lparr>st_xyzs := m\<rparr>\<rparr>))
      else Inl DemandFailed)"

definition mutable_normals ::
  "('t vec3 list \<Rightarrow> error + 't vec3 list) \<Rightarrow> ('t, 'c) PointCloud \<Rightarrow> error + ('t, 'c) PointCloud"
  where
  "mutable_normals w c =
     (if has_normals c
      then and_then (w (st_normals (pc_storage c)))
             (\<lambda>m. Inr (c\<lparr>pc_storage := (pc_storage c)\<lparr>st_normals := m\<rparr>\<rparr>))
      else Inl DemandFailed)"

definition mutable_rgbs ::
  "('c vec3 list \<Rightarrow> error + 'c vec3 list) \<Rightarrow> ('t, 'c) PointCloud \<Rightarrow> error + ('t, 'c) PointCloud"
  where
  "mutable_rgbs w c =
     (if has_rgbs c
      then and_then (w (st_rgbs (pc_storage c))) (\<lambda>m. Inr (c\<lparr>pc_storage := (pc_storage c)\<lparr>st_rgbs := m\<rparr>\<rparr>))
      else Inl DemandFailed)"

definition mutable_descriptors ::
  "('t list list \<Rightarrow> error + 't list list) \<Rightarrow> ('t, 'c) PointCloud \<Rightarrow> error + ('t, 'c) PointCloud"
  where
  "mutable_descriptors w c =
     (if has_descriptors c
      then and_then (w (st_descriptors (pc_storage c)))
             (\<lambda>m. Inr (c\<lparr>pc_storage := (pc_storage c)\<lparr>st_descriptors := m\<rparr>\<rparr>))
      else Inl DemandFailed)"

definition SetDefault ::
  "('t, 'c) env \<Rightarrow> int \<Rightarrow> int \<Rightarrow> ('t, 'c) PointCloud \<Rightarrow> error + ('t, 'c) PointCloud" where
  "SetDefault e start num c =
     and_then (if has_xyzs c
               then mutable_xyzs
                      (setConstant_middleCols start num (constant3 (kDefaultValue e))) c
               else Inr c) (\<lambda>c1.
     and_then (if has_normals c1
               then mutable_normals
                      (setConstant_middleCols start num (constant3 (kDefaultValue e))) c1
               else Inr c1) (\<lambda>c2.
     and_then (if has_rgbs c2
               then mutable_rgbs
                      (setConstant_middleCols start num (constant3 (kDefaultColor e))) c2
               else Inr c2) (\<lambda>c3.
     if has_descriptors c3
     then mutable_descriptors
            (setConstant_middleCols start num
               (replicate (descriptor_rows (pc_storage c3)) (kDefaultValue e))) c3
     else Inr c3)))"

text \<open>
  The constructor \<^verbatim>\<open>PointCloud(int new_size, pc_flags::Fields fields, bool skip_initialize)\<close>.
  It has no test of its own for a negative size: Eigen rejects the negative column count
  when the storage is resized.
\<close>

definition PointCloud_new ::
  "('t, 'c) env \<Rightarrow> int \<Rightarrow> Fields \<Rightarrow> bool \<Rightarrow> error + ('t, 'c) PointCloud" where
  "PointCloud_new e new_size flds skip_initialize =
     (if flds = kNone then Inl RuntimeError
      else if contains flds kInherit then Inl RuntimeError
      else and_then (Storage_new e new_size flds) (\<lambda>st.
        let c = \<lparr>pc_size = new_size, pc_fields = flds, pc_storage = st\<rparr> in
        if \<not> skip_initialize then SetDefault e 0 new_size c else Inr c))"

definition resize ::
  "('t, 'c) env \<Rightarrow> int \<Rightarrow> bool \<Rightarrow> ('t, 'c) PointCloud \<Rightarrow> error + ('t, 'c) PointCloud" where
  "resize e new_size skip_initialization c =
     (if \<not> new_size \<ge> 0 then Inl DemandFailed
      else
        let old_size = pc_size c in
        and_then (Storage_resize e new_size (pc_storage c)) (\<lambda>st.
          let c1 = c\<lparr>pc_size := new_size, pc_storage := st\<rparr> in
          if \<not> st_size st = new_size then Inl DemandFailed
          else if new_size > old_size \<and> \<not> skip_initialization
            then SetDefault e old_size (new_size - old_size) c1
          else Inr c1))"

definition Expand ::
  "('t, 'c) env \<Rightarrow> int \<Rightarrow> bool \<Rightarrow> ('t, 'c) PointCloud \<Rightarrow> error + ('t, 'c) PointCloud" where
  "Expand e add_size skip_initialization c =
     (if \<not> add_size \<ge> 0 then Inl DemandFailed
      else
        let new_size = int32 (pc_size c + add_size) in
        resize e new_size skip_initialization c)"

subsection \<open>Field queries\<close>

definition ResolveFields :: "('t, 'c) PointCloud \<Rightarrow> Fields \<Rightarrow> Fields" where
  "ResolveFields other flds = (if flds = kInherit then pc_fields other else flds)"

definition HasFields :: "Fields \<Rightarrow> ('t, 'c) PointCloud \<Rightarrow> error + bool" where
  "HasFields fields_in c =
     (if \<not> \<not> contains fields_in kInherit then Inl DemandFailed
      else Inr (contains (pc_fields c) fields_in))"

definition RequireFields :: "Fields \<Rightarrow> ('t, 'c) PointCloud \<Rightarrow> error + unit" where
  "RequireFields fields_in c =
     and_then (HasFields fields_in c) (\<lambda>has. if \<not> has then Inl RuntimeError else Inr ())"

definition HasExactFields :: "Fields \<Rightarrow> ('t, 'c) PointCloud \<Rightarrow> bool" where
  "HasExactFields fields_in c = (pc_fields c = fields_in)"

definition RequireExactFields :: "Fields \<Rightarrow> ('t, 'c) PointCloud \<Rightarrow> error + unit" where
  "RequireExactFields fields_in c =
     (if \<not> HasExactFields fields_in c then Inl RuntimeError else Inr ())"

definition ResolvePairFields ::
  "('t, 'c) PointCloud \<Rightarrow> ('t, 'c) PointCloud \<Rightarrow> Fields \<Rightarrow> error + Fields" where
  "ResolvePairFields a b flds =
     (if flds = kInherit
      then and_then (RequireExactFields (pc_fields b) a) (\<lambda>_. Inr (pc_fields a))
      else and_then (RequireFields flds a) (\<lambda>_.
           and_then (RequireFields flds b) (\<lambda>_. Inr flds)))"

subsection \<open>SetFrom, copies and moves\<close>

text \<open>
  \<^verbatim>\<open>SetFrom\<close> changes the receiver and may then throw, so its failure carries the
  receiver as it stood when the error was raised: \<open>Inl (err, this')\<close>. (After an abort,
  \<open>DemandFailed\<close> or \<open>EigenAssert\<close>, no state is observed; the model reports the receiver
  of the last completed step.) The default arguments of the declaration are in the
  missing header; the spec gives \<^verbatim>\<open>SetFrom(other, fields = Inherit, allow_resize = true)\<close>,
  \<^verbatim>\<open>resize(new_size, skip_initialize = false)\<close> and a constructor that initialises by
  default.
\<close>

definition SetFrom ::
  "('t, 'c) env \<Rightarrow> ('t, 'c) PointCloud \<Rightarrow> Fields \<Rightarrow> bool \<Rightarrow> ('t, 'c) PointCloud \<Rightarrow>
   (error \<times> ('t, 'c) PointCloud) + ('t, 'c) PointCloud" where
  "SetFrom e other fields_in allow_resize this =
     (let old_size = pc_size this; new_size = pc_size other in
      case (if allow_resize then resize e new_size False this
            else if new_size \<noteq> old_size then Inl RuntimeError
            else Inr this) of
        Inl err \<Rightarrow> Inl (err, this)
      | Inr this1 \<Rightarrow>
          (case ResolvePairFields this1 other fields_in of
             Inl err \<Rightarrow> Inl (err, this1)
           | Inr fields_resolved \<Rightarrow>
               (case
                  and_then (if contains fields_resolved kXYZs
                            then and_then (xyzs other)
                                   (\<lambda>src. mutable_xyzs (assign_ref src) this1)
                            else Inr this1) (\<lambda>c1.
                  and_then (if contains fields_resolved kNormals
                            then and_then (normals other)
                                   (\<lambda>src. mutable_normals (assign_ref src) c1)
                            else Inr c1) (\<lambda>c2.
                  and_then (if contains fields_resolved kRGBs
                            then and_then (rgbs other)
                                   (\<lambda>src. mutable_rgbs (assign_ref src) c2)
                            else Inr c2) (\<lambda>c3.
                  if has_descriptor fields_resolved
                  then and_then (descriptors other)
                         (\<lambda>src. mutable_descriptors (assign_ref src) c3)
                  else Inr c3)))
                of Inl err \<Rightarrow> Inl (err, this1)
                 | Inr this2 \<Rightarrow> Inr this2)))"

text \<open>The copy constructor \<^verbatim>\<open>PointCloud(const PointCloud& other, Fields copy_fields)\<close>.\<close>

definition PointCloud_copy ::
  "('t, 'c) env \<Rightarrow> ('t, 'c) PointCloud \<Rightarrow> Fields \<Rightarrow> error + ('t, 'c) PointCloud" where
  "PointCloud_copy e other copy_fields =
     and_then (PointCloud_new e (pc_size other) (ResolveFields other copy_fields) False) (\<lambda>c.
       case SetFrom e other kInherit True c of
         Inl (err, _) \<Rightarrow> Inl err
       | Inr c' \<Rightarrow> Inr c')"

text \<open>
  The move constructor \<^verbatim>\<open>PointCloud(PointCloud&& other)\<close>: the new cloud and what is
  left of \<open>other\<close>.
\<close>

definition PointCloud_move ::
  "('t, 'c) env \<Rightarrow> ('t, 'c) PointCloud \<Rightarrow> error + (('t, 'c) PointCloud \<times> ('t, 'c) PointCloud)"
  where
  "PointCloud_move e other =
     and_then (PointCloud_new e 0 (pc_fields other) True) (\<lambda>c.
       let this1 = c\<lparr>pc_storage := pc_storage other, pc_size := pc_size other\<rparr>;
           other1 = other\<lparr>pc_storage := pc_storage c, pc_size := pc_size c\<rparr>
       in if \<not> st_size (pc_storage this1) = pc_size this1 then Inl DemandFailed
          else Inr (this1, other1))"

text \<open>Copy assignment \<^verbatim>\<open>operator=(const PointCloud& other)\<close>.\<close>

definition copy_assign ::
  "('t, 'c) env \<Rightarrow> ('t, 'c) PointCloud \<Rightarrow> ('t, 'c) PointCloud \<Rightarrow>
   (error \<times> ('t, 'c) PointCloud) + ('t, 'c) PointCloud" where
  "copy_assign e other this = SetFrom e other kInherit True this"

text \<open>
  Move assignment \<^verbatim>\<open>operator=(PointCloud&& other)\<close>. The receiver and \<open>other\<close> are
  objects in memory, and the operator does not test whether they are the same object
  (\<^verbatim>\<open>A = std::move(A)\<close>). So the model works on a store of clouds: \<open>this\<close> and \<open>other\<close>
  are addresses, and every statement reads and writes the store. The exception is
  thrown before anything is changed.
\<close>

type_synonym ('t, 'c) store = "nat \<Rightarrow> ('t, 'c) PointCloud"

definition move_assign ::
  "('t, 'c) env \<Rightarrow> nat \<Rightarrow> nat \<Rightarrow> ('t, 'c) store \<Rightarrow> error + ('t, 'c) store" where
  "move_assign e other this s =
     and_then (RequireExactFields (pc_fields (s other)) (s this)) (\<lambda>_.
       let s1 = s(this := (s this)\<lparr>pc_size := pc_size (s other)\<rparr>);
           mine = pc_storage (s1 this);
           theirs = pc_storage (s1 other);
           s2 = s1(this := (s1 this)\<lparr>pc_storage := theirs\<rparr>);
           s3 = s2(other := (s2 other)\<lparr>pc_storage := mine\<rparr>)
       in if \<not> st_size (pc_storage (s3 this)) = pc_size (s3 this) then Inl DemandFailed
          else and_then (resize e 0 False (s3 other)) (\<lambda>other1. Inr (s3(other := other1))))"

subsection \<open>Crop\<close>

text \<open>
  The component-wise comparison \<^verbatim>\<open>(a.array() <= b.array()).all()\<close>. The element type is
  only assumed to have an order relation: no law of it is used, as for floating-point
  numbers.
\<close>

fun le3 :: "'a::ord vec3 \<Rightarrow> 'a vec3 \<Rightarrow> bool" where
  "le3 (a1, a2, a3) (b1, b2, b3) = (a1 \<le> b1 \<and> a2 \<le> b2 \<and> a3 \<le> b3)"

definition Crop_body ::
  "'t::ord vec3 \<Rightarrow> 't vec3 \<Rightarrow> ('t, 'c) PointCloud \<Rightarrow> int \<Rightarrow> int \<times> ('t, 'c) PointCloud \<Rightarrow>
   error + (int \<times> ('t, 'c) PointCloud)" where
  "Crop_body lower_xyz upper_xyz this i st =
     (case st of (index, crop) \<Rightarrow>
      and_then (xyzs this) (\<lambda>X.
      and_then (col X i) (\<lambda>p.
      if le3 lower_xyz p \<and> le3 p upper_xyz then
        and_then (mutable_xyzs (assign_col index p) crop) (\<lambda>c1.
        and_then (if has_normals this
                  then and_then (normals this) (\<lambda>N.
                       and_then (col N i) (\<lambda>v. mutable_normals (assign_col index v) c1))
                  else Inr c1) (\<lambda>c2.
        and_then (if has_rgbs this
                  then and_then (rgbs this) (\<lambda>R.
                       and_then (col R i) (\<lambda>v. mutable_rgbs (assign_col index v) c2))
                  else Inr c2) (\<lambda>c3.
        and_then (if has_descriptors this
                  then and_then (descriptors this) (\<lambda>D.
                       and_then (col D i) (\<lambda>v. mutable_descriptors (assign_col index v) c3))
                  else Inr c3) (\<lambda>c4.
        Inr (index + 1, c4)))))
      else Inr (index, crop))))"

function Crop_loop ::
  "'t::ord vec3 \<Rightarrow> 't vec3 \<Rightarrow> ('t, 'c) PointCloud \<Rightarrow> int \<Rightarrow> int \<times> ('t, 'c) PointCloud \<Rightarrow>
   error + (int \<times> ('t, 'c) PointCloud)" where
  "Crop_loop lower_xyz upper_xyz this i st =
     (if i < pc_size this
      then (case Crop_body lower_xyz upper_xyz this i st of
              Inl err \<Rightarrow> Inl err
            | Inr st' \<Rightarrow> Crop_loop lower_xyz upper_xyz this (i + 1) st')
      else Inr st)"
  by pat_completeness auto
termination
  by (relation "measure (\<lambda>(lower_xyz, upper_xyz, this, i, st). nat (pc_size this - i))") auto

declare Crop_loop.simps [simp del]

definition Crop ::
  "('t::ord, 'c) env \<Rightarrow> 't vec3 \<Rightarrow> 't vec3 \<Rightarrow> ('t, 'c) PointCloud \<Rightarrow> error + ('t, 'c) PointCloud"
  where
  "Crop e lower_xyz upper_xyz this =
     (if \<not> le3 lower_xyz upper_xyz then Inl DemandFailed
      else if \<not> has_xyzs this then Inl RuntimeError
      else and_then (PointCloud_new e (pc_size this) (pc_fields this) True) (\<lambda>crop.
           and_then (Crop_loop lower_xyz upper_xyz this 0 (0, crop)) (\<lambda>(index, crop1).
           resize e index False crop1)))"

subsection \<open>Concatenate\<close>

text \<open>The first loop: the field sets are compared with the first cloud's, the sizes summed.\<close>

fun Concatenate_count :: "Fields \<Rightarrow> ('t, 'c) PointCloud list \<Rightarrow> int \<Rightarrow> error + int" where
  "Concatenate_count f0 [] count = Inr count"
| "Concatenate_count f0 (c # cs) count =
     (if \<not> pc_fields c = f0 then Inl ThrowUnlessFailed
      else Concatenate_count f0 cs (int32 (count + pc_size c)))"

text \<open>
  The second loop. The positions are copied under the test \<^verbatim>\<open>new_cloud.has_normals()\<close>,
  as the source has it.
\<close>

fun Concatenate_copy ::
  "('t, 'c) PointCloud list \<Rightarrow> int \<Rightarrow> ('t, 'c) PointCloud \<Rightarrow> error + ('t, 'c) PointCloud" where
  "Concatenate_copy [] index new_cloud = Inr new_cloud"
| "Concatenate_copy (c # cs) index new_cloud =
     (let s = pc_size c in
      and_then (if has_normals new_cloud
                then and_then (xyzs c)
                       (\<lambda>src. mutable_xyzs (assign_middleCols index s src) new_cloud)
                else Inr new_cloud) (\<lambda>c1.
      and_then (if has_normals c1
                then and_then (normals c)
                       (\<lambda>src. mutable_normals (assign_middleCols index s src) c1)
                else Inr c1) (\<lambda>c2.
      and_then (if has_rgbs c2
                then and_then (rgbs c)
                       (\<lambda>src. mutable_rgbs (assign_middleCols index s src) c2)
                else Inr c2) (\<lambda>c3.
      and_then (if has_descriptors c3
                then and_then (descriptors c)
                       (\<lambda>src. mutable_descriptors (assign_middleCols index s src) c3)
                else Inr c3) (\<lambda>c4.
      Concatenate_copy cs (int32 (index + s)) c4)))))"

definition Concatenate ::
  "('t, 'c) env \<Rightarrow> ('t, 'c) PointCloud list \<Rightarrow> error + ('t, 'c) PointCloud" where
  "Concatenate e clouds =
     (case clouds of
        [] \<Rightarrow> Inl DemandFailed
      | c0 # rest \<Rightarrow>
          and_then (Concatenate_count (pc_fields c0) rest (pc_size c0)) (\<lambda>count.
          and_then (PointCloud_new e count (pc_fields c0) True) (\<lambda>new_cloud.
          Concatenate_copy clouds 0 new_cloud)))"

subsection \<open>VoxelizedDownSample\<close>

text \<open>
  \<^verbatim>\<open>VoxelizedDownSample\<close> takes its floating-point operations as a record (the
  arithmetic of \<^verbatim>\<open>float\<close> and \<^verbatim>\<open>double\<close> that gives them their meaning follows the
  operation), over the types \<open>'t\<close> of the stored elements
  (\<^verbatim>\<open>float\<close>), \<open>'c\<close> of the colours and \<open>'d\<close> of the accumulators (\<^verbatim>\<open>double\<close>).
  \<open>voxel_of voxel_size x lower\<close> is one component of
  \<^verbatim>\<open>((xyz(i) - lower_xyz) / voxel_size).cast<int>()\<close>; \<open>over s n\<close> divides an accumulator
  by a count (\<^verbatim>\<open>xyz / indices_in_this.size()\<close>, \<^verbatim>\<open>normal / num_normals\<close>). The order in
  which \<^verbatim>\<open>absl::flat_hash_map\<close> hands out its entries is not specified: \<open>hash_order\<close>
  rearranges the entries, kept here in the order of their first insertion.
\<close>

record ('t, 'c, 'd) arith =
  isFinite :: "'t \<Rightarrow> bool"
  infinity :: 't
  fmin :: "'t \<Rightarrow> 't \<Rightarrow> 't"
  voxel_of :: "'d \<Rightarrow> 't \<Rightarrow> 't \<Rightarrow> int"
  positive :: "'d \<Rightarrow> bool"
  cast_t_d :: "'t \<Rightarrow> 'd"
  cast_c_d :: "'c \<Rightarrow> 'd"
  cast_d_t :: "'d \<Rightarrow> 't"
  cast_d_c :: "'d \<Rightarrow> 'c"
  zero_d :: 'd
  plus_d :: "'d \<Rightarrow> 'd \<Rightarrow> 'd"
  over :: "'d \<Rightarrow> int \<Rightarrow> 'd"
  hash_order :: "(int vec3 \<times> int list) list \<Rightarrow> (int vec3 \<times> int list) list"

fun map3 :: "('a \<Rightarrow> 'b) \<Rightarrow> 'a vec3 \<Rightarrow> 'b vec3" where
  "map3 f (a, b, c) = (f a, f b, f c)"

fun zip3 :: "('a \<Rightarrow> 'b \<Rightarrow> 'c) \<Rightarrow> 'a vec3 \<Rightarrow> 'b vec3 \<Rightarrow> 'c vec3" where
  "zip3 f (a, b, c) (a', b', c') = (f a a', f b b', f c c')"

fun finite3 :: "('t, 'c, 'd) arith \<Rightarrow> 't vec3 \<Rightarrow> bool" where
  "finite3 ar (a, b, c) = (isFinite ar a \<and> isFinite ar b \<and> isFinite ar c)"

text \<open>A loop over a sequence, stopped by the first failure.\<close>

primrec for_each :: "'i list \<Rightarrow> ('i \<Rightarrow> 's \<Rightarrow> error + 's) \<Rightarrow> 's \<Rightarrow> error + 's" where
  "for_each [] body s = Inr s"
| "for_each (i # rest) body s = and_then (body i s) (for_each rest body)"

text \<open>The indices of \<^verbatim>\<open>for (int i = 0; i < n; ++i)\<close>.\<close>

definition indices :: "int \<Rightarrow> int list" where
  "indices n = map int [0 ..< nat n]"

text \<open>
  Modelled from the spec: the per-point accessor \<^verbatim>\<open>xyz(i)\<close> is defined in the missing
  header; the spec has it return the position of one point.
\<close>

definition xyz :: "('t, 'c) PointCloud \<Rightarrow> int \<Rightarrow> error + 't vec3" where
  "xyz c i = and_then (xyzs c) (\<lambda>X. col X i)"

definition lower_step ::
  "('t, 'c, 'd) arith \<Rightarrow> ('t, 'c) PointCloud \<Rightarrow> int \<Rightarrow> 't vec3 \<Rightarrow> error + 't vec3" where
  "lower_step ar this i lower_xyz =
     and_then (xyz this i) (\<lambda>p.
       if finite3 ar p then Inr (zip3 (fmin ar) p lower_xyz) else Inr lower_xyz)"

text \<open>\<^verbatim>\<open>voxel_map[key].emplace_back(i)\<close>.\<close>

fun emplace_back_at ::
  "int vec3 \<Rightarrow> int \<Rightarrow> (int vec3 \<times> int list) list \<Rightarrow> (int vec3 \<times> int list) list" where
  "emplace_back_at key i [] = [(key, [i])]"
| "emplace_back_at key i ((k, b) # m) =
     (if k = key then (k, b @ [i]) # m else (k, b) # emplace_back_at key i m)"

definition voxel_step ::
  "('t, 'c, 'd) arith \<Rightarrow> 'd \<Rightarrow> 't vec3 \<Rightarrow> ('t, 'c) PointCloud \<Rightarrow> int \<Rightarrow>
   (int vec3 \<times> int list) list \<Rightarrow> error + (int vec3 \<times> int list) list" where
  "voxel_step ar voxel_size lower_xyz this i voxel_map =
     and_then (xyz this i) (\<lambda>p.
       if finite3 ar p
       then Inr (emplace_back_at (zip3 (voxel_of ar voxel_size) p lower_xyz) i voxel_map)
       else Inr voxel_map)"

record ('d) accumulators =
  sum_xyz :: "'d vec3"
  sum_normal :: "'d vec3"
  sum_rgb :: "'d vec3"
  sum_descriptor :: "'d list"
  num_normals :: int
  num_descriptors :: int

definition accumulate_step ::
  "('t, 'c, 'd) arith \<Rightarrow> ('t, 'c) PointCloud \<Rightarrow> int \<Rightarrow> 'd accumulators \<Rightarrow> error + 'd accumulators" where
  "accumulate_step ar this index_in_this s =
     and_then (xyzs this) (\<lambda>X.
     and_then (col X index_in_this) (\<lambda>p.
     let s0 = s\<lparr>sum_xyz := zip3 (plus_d ar) (sum_xyz s) (map3 (cast_t_d ar) p)\<rparr> in
     and_then (if has_normals this
               then and_then (normals this) (\<lambda>N.
                    and_then (col N index_in_this) (\<lambda>v.
                      if finite3 ar v
                      then Inr (s0\<lparr>sum_normal :=
                                    zip3 (plus_d ar) (sum_normal s0) (map3 (cast_t_d ar) v),
                                  num_normals := num_normals s0 + 1\<rparr>)
                      else Inr s0))
               else Inr s0) (\<lambda>s1.
     and_then (if has_rgbs this
               then and_then (rgbs this) (\<lambda>R.
                    and_then (col R index_in_this) (\<lambda>v.
                      Inr (s1\<lparr>sum_rgb := zip3 (plus_d ar) (sum_rgb s1) (map3 (cast_c_d ar) v)\<rparr>)))
               else Inr s1) (\<lambda>s2.
     and_then (if has_descriptors this
               then and_then (descriptors this) (\<lambda>D.
                    and_then (col D index_in_this) (\<lambda>v.
                      if list_all (isFinite ar) v
                      then Inr (s2\<lparr>sum_descriptor :=
                                    map2 (plus_d ar) (sum_descriptor s2) (map (cast_t_d ar) v),
                                  num_descriptors := num_descriptors s2 + 1\<rparr>)
                      else Inr s2))
               else Inr s2) (\<lambda>s3.
     Inr s3)))))"

definition sample_step ::
  "('t, 'c, 'd) arith \<Rightarrow> ('t, 'c) PointCloud \<Rightarrow> int vec3 \<times> int list \<Rightarrow>
   int \<times> ('t, 'c) PointCloud \<Rightarrow> error + (int \<times> ('t, 'c) PointCloud)" where
  "sample_step ar this entry st =
     (case entry of (coordinates, indices_in_this) \<Rightarrow>
      case st of (index_in_down_sampled, down_sampled) \<Rightarrow>
      and_then (for_each indices_in_this (accumulate_step ar this)
                  \<lparr>sum_xyz = constant3 (zero_d ar), sum_normal = constant3 (zero_d ar),
                   sum_rgb = constant3 (zero_d ar),
                   sum_descriptor =
                     replicate (if has_descriptors this then descriptor_rows (pc_storage this)
                                else 0) (zero_d ar),
                   num_normals = 0, num_descriptors = 0\<rparr>) (\<lambda>s.
      and_then (mutable_xyzs
                  (assign_col index_in_down_sampled
                     (map3 (cast_d_t ar)
                        (map3 (\<lambda>x. over ar x (int (length indices_in_this))) (sum_xyz s))))
                  down_sampled) (\<lambda>d1.
      and_then (if has_normals this
                then mutable_normals
                       (assign_col index_in_down_sampled
                          (map3 (cast_d_t ar)
                             (map3 (\<lambda>x. over ar x (num_normals s)) (sum_normal s)))) d1
                else Inr d1) (\<lambda>d2.
      and_then (if has_rgbs this
                then mutable_rgbs
                       (assign_col index_in_down_sampled
                          (map3 (cast_d_c ar)
                             (map3 (\<lambda>x. over ar x (int (length indices_in_this))) (sum_rgb s)))) d2
                else Inr d2) (\<lambda>d3.
      and_then (if has_descriptors this
                then mutable_descriptors
                       (assign_col index_in_down_sampled
                          (map (cast_d_t ar)
                             (map (\<lambda>x. over ar x (num_descriptors s)) (sum_descriptor s)))) d3
                else Inr d3) (\<lambda>d4.
      Inr (index_in_down_sampled + 1, d4)))))))"

definition VoxelizedDownSample ::
  "('t, 'c) env \<Rightarrow> ('t, 'c, 'd) arith \<Rightarrow> 'd \<Rightarrow> ('t, 'c) PointCloud \<Rightarrow>
   error + ('t, 'c) PointCloud" where
  "VoxelizedDownSample e ar voxel_size this =
     (if \<not> has_xyzs this then Inl ThrowUnlessFailed
      else if \<not> positive ar voxel_size then Inl ThrowUnlessFailed
      else
        and_then (for_each (indices (pc_size this)) (lower_step ar this)
                    (constant3 (infinity ar))) (\<lambda>lower_xyz.
        and_then (for_each (indices (pc_size this)) (voxel_step ar voxel_size lower_xyz this) [])
          (\<lambda>voxel_map.
        and_then (PointCloud_new e (int (length voxel_map)) (pc_fields this) False)
          (\<lambda>down_sampled.
        and_then (for_each (hash_order ar voxel_map) (sample_step ar this) (0, down_sampled))
          (\<lambda>(index_in_down_sampled, down_sampled1). Inr down_sampled1)))))"

subsection \<open>The arithmetic of \<^verbatim>\<open>float\<close> and \<^verbatim>\<open>double\<close>\<close>

text \<open>
  The arithmetic \<^verbatim>\<open>VoxelizedDownSample\<close> runs on. A value of a floating-point type is a
  real number, an infinity or not a number. Zero has no sign here: the code divides
  only by \<^verbatim>\<open>voxel_size\<close>, which it has tested to be greater than zero, and by counts.
  Every operation computes the exact result and rounds it to its format; the rounding
  functions are parameters, and a rounding may give an infinity.
\<close>

datatype fp = Fin real | PInf | NInf | NaN

fun is_finite :: "fp \<Rightarrow> bool" where
  "is_finite (Fin x) = True"
| "is_finite a = False"

text \<open>The comparison \<^verbatim>\<open>a < b\<close>, false when either side is not a number.\<close>

fun fless :: "fp \<Rightarrow> fp \<Rightarrow> bool" where
  "fless (Fin x) (Fin y) = (x < y)"
| "fless NaN b = False"
| "fless a NaN = False"
| "fless a NInf = False"
| "fless PInf b = False"
| "fless a b = True"

text \<open>\<^verbatim>\<open>std::min(a, b)\<close> is \<^verbatim>\<open>(b < a) ? b : a\<close>.\<close>

definition std_min :: "fp \<Rightarrow> fp \<Rightarrow> fp" where
  "std_min a b = (if fless b a then b else a)"

fun fneg :: "fp \<Rightarrow> fp" where
  "fneg (Fin x) = Fin (- x)"
| "fneg PInf = NInf"
| "fneg NInf = PInf"
| "fneg NaN = NaN"

fun fadd :: "(real \<Rightarrow> fp) \<Rightarrow> fp \<Rightarrow> fp \<Rightarrow> fp" where
  "fadd r (Fin x) (Fin y) = r (x + y)"
| "fadd r NaN b = NaN"
| "fadd r a NaN = NaN"
| "fadd r PInf NInf = NaN"
| "fadd r NInf PInf = NaN"
| "fadd r PInf b = PInf"
| "fadd r a PInf = PInf"
| "fadd r NInf b = NInf"
| "fadd r a NInf = NInf"

definition fsub :: "(real \<Rightarrow> fp) \<Rightarrow> fp \<Rightarrow> fp \<Rightarrow> fp" where
  "fsub r a b = fadd r a (fneg b)"

fun fdiv :: "(real \<Rightarrow> fp) \<Rightarrow> fp \<Rightarrow> fp \<Rightarrow> fp" where
  "fdiv r (Fin x) (Fin y) =
     (if y = 0 then (if x = 0 then NaN else if 0 < x then PInf else NInf) else r (x / y))"
| "fdiv r NaN b = NaN"
| "fdiv r a NaN = NaN"
| "fdiv r (Fin x) b = Fin 0"
| "fdiv r PInf (Fin y) = (if 0 \<le> y then PInf else NInf)"
| "fdiv r NInf (Fin y) = (if 0 \<le> y then NInf else PInf)"
| "fdiv r a b = NaN"

text \<open>The conversion to another format, \<^verbatim>\<open>cast<T>()\<close>.\<close>

fun fround :: "(real \<Rightarrow> fp) \<Rightarrow> fp \<Rightarrow> fp" where
  "fround r (Fin x) = r x"
| "fround r a = a"

text \<open>
  The conversion \<^verbatim>\<open>cast<int>()\<close> truncates towards zero. C++ leaves it undefined when the
  truncated value is not an \<^verbatim>\<open>int\<close>; what the platform then gives is a parameter (the
  conversion instructions of x86 give the smallest \<^verbatim>\<open>int\<close>, whatever the operand).
\<close>

fun cast_int :: "(fp \<Rightarrow> int) \<Rightarrow> fp \<Rightarrow> int" where
  "cast_int u (Fin y) =
     (if - (2 ^ 31) - 1 < y \<and> y < 2 ^ 31 then (if 0 \<le> y then \<lfloor>y\<rfloor> else \<lceil>y\<rceil>)
      else u (Fin y))"
| "cast_int u a = u a"

text \<open>
  What the code leaves to its platform and to Eigen: the rounding to \<^verbatim>\<open>float\<close> and to
  \<^verbatim>\<open>double\<close>; the \<^verbatim>\<open>int\<close> of a value that has none; the precision in which Eigen divides a \<^verbatim>\<open>float\<close> vector by the \<^verbatim>\<open>double\<close>
  scalar \<^verbatim>\<open>voxel_size\<close> (the conversion of the scalar and the rounding of the quotient);
  the conversions between the colour type of the missing header and \<^verbatim>\<open>double\<close>; the
  iteration order of the hash map.
\<close>

record 'c fpu =
  to_float :: "real \<Rightarrow> fp"
  to_double :: "real \<Rightarrow> fp"
  to_scalar :: "real \<Rightarrow> fp"
  to_quotient :: "real \<Rightarrow> fp"
  unrepresentable :: "fp \<Rightarrow> int"
  of_color :: "'c \<Rightarrow> fp"
  to_color :: "fp \<Rightarrow> 'c"
  iteration :: "(int vec3 \<times> int list) list \<Rightarrow> (int vec3 \<times> int list) list"

text \<open>
  The operations of \<^verbatim>\<open>VoxelizedDownSample\<close> in this arithmetic: \<^verbatim>\<open>isFinite\<close>,
  \<^verbatim>\<open>std::numeric_limits<float>::infinity()\<close>, \<^verbatim>\<open>std::min\<close>, the key of one axis
  \<^verbatim>\<open>((xyz(i) - lower_xyz) / voxel_size).cast<int>()\<close>, the test \<^verbatim>\<open>voxel_size > 0\<close>, the
  conversions \<^verbatim>\<open>cast<double>()\<close> (exact from \<^verbatim>\<open>float\<close>) and \<^verbatim>\<open>cast<T>()\<close>, \<^verbatim>\<open>Zero()\<close>,
  \<^verbatim>\<open>+=\<close> on the accumulators and the division of an accumulator by a count.
\<close>

definition ieee :: "'c fpu \<Rightarrow> (fp, 'c, fp) arith" where
  "ieee m =
     \<lparr>isFinite = is_finite, infinity = PInf, fmin = std_min,
      voxel_of = (\<lambda>voxel_size x lower.
        cast_int (unrepresentable m) (fdiv (to_quotient m) (fsub (to_float m) x lower)
                    (fround (to_scalar m) voxel_size))),
      positive = (\<lambda>voxel_size. fless (Fin 0) voxel_size),
      cast_t_d = (\<lambda>x. x), cast_c_d = of_color m,
      cast_d_t = fround (to_float m), cast_d_c = to_color m,
      zero_d = Fin 0, plus_d = fadd (to_double m),
      over = (\<lambda>x n. fdiv (to_double m) x (Fin (of_int n))),
      hash_order = iteration m\<rparr>"

section \<open>The class invariant\<close>

text \<open>
  The class invariant of a constructed cloud: a real field set, a non-negative size,
  a storage of the same field set and size, and every present buffer of that many
  columns; the buffer of an absent field has no column.
\<close>

definition cols_ok :: "bool \<Rightarrow> int \<Rightarrow> 'a list \<Rightarrow> bool" where
  "cols_ok present n m = (int (length m) = (if present then n else 0))"

definition wf :: "('t, 'c) PointCloud \<Rightarrow> bool" where
  "wf c =
     (pc_fields c \<noteq> kNone \<and> \<not> contains (pc_fields c) kInherit \<and> 0 \<le> pc_size c \<and>
      st_fields (pc_storage c) = pc_fields c \<and> st_size (pc_storage c) = pc_size c \<and>
      cols_ok (has_xyzs c) (pc_size c) (st_xyzs (pc_storage c)) \<and>
      cols_ok (has_normals c) (pc_size c) (st_normals (pc_storage c)) \<and>
      cols_ok (has_rgbs c) (pc_size c) (st_rgbs (pc_storage c)) \<and>
      cols_ok (has_descriptors c) (pc_size c) (st_descriptors (pc_storage c)) \<and>
      list_all (\<lambda>d. length d = descriptor_rows (pc_storage c)) (st_descriptors (pc_storage c)))"

section \<open>Auxiliary definitions\<close>

definition storage ::
  "int \<Rightarrow> Fields \<Rightarrow> 't vec3 list \<Rightarrow> 't vec3 list \<Rightarrow> 'c vec3 list \<Rightarrow> 't list list \<Rightarrow> ('t, 'c) Storage"
  where
  "storage n f x nm r d =
     \<lparr>st_fields = f, st_size = n, st_xyzs = x, st_normals = nm, st_rgbs = r, st_descriptors = d\<rparr>"

definition cloud ::
  "int \<Rightarrow> Fields \<Rightarrow> 't vec3 list \<Rightarrow> 't vec3 list \<Rightarrow> 'c vec3 list \<Rightarrow> 't list list \<Rightarrow> ('t, 'c) PointCloud"
  where
  "cloud n f x nm r d = \<lparr>pc_size = n, pc_fields = f, pc_storage = storage n f x nm r d\<rparr>"

definition kept :: "bool \<Rightarrow> (nat \<Rightarrow> 'a) \<Rightarrow> int \<Rightarrow> 'a list \<Rightarrow> 'a list" where
  "kept p u n m = (if p then resized u (nat n) m else m)"

definition filled :: "bool \<Rightarrow> int \<Rightarrow> int \<Rightarrow> 'a \<Rightarrow> 'a list \<Rightarrow> 'a list" where
  "filled p start num v m =
     (if p then take (nat start) m @ replicate (nat num) v @ drop (nat (start + num)) m else m)"

definition new_xyzs :: "('t, 'c) env \<Rightarrow> bool \<Rightarrow> nat \<Rightarrow> 't vec3" where
  "new_xyzs e skip = (if skip then uninit_xyzs e else (\<lambda>_. constant3 (kDefaultValue e)))"

definition new_normals :: "('t, 'c) env \<Rightarrow> bool \<Rightarrow> nat \<Rightarrow> 't vec3" where
  "new_normals e skip = (if skip then uninit_normals e else (\<lambda>_. constant3 (kDefaultValue e)))"

definition new_rgbs :: "('t, 'c) env \<Rightarrow> bool \<Rightarrow> nat \<Rightarrow> 'c vec3" where
  "new_rgbs e skip = (if skip then uninit_rgbs e else (\<lambda>_. constant3 (kDefaultColor e)))"

definition new_descriptors :: "('t, 'c) env \<Rightarrow> Fields \<Rightarrow> bool \<Rightarrow> nat \<Rightarrow> 't list" where
  "new_descriptors e f skip =
     (if skip then (\<lambda>i. map (uninit_descriptors e i) [0 ..< dsize (descriptor_type f)])
      else (\<lambda>_. replicate (dsize (descriptor_type f)) (kDefaultValue e)))"

definition env0 :: "(int, nat) env" where
  "env0 = \<lparr>kDefaultValue = 0, kDefaultColor = 255,
            uninit_xyzs = (\<lambda>i. (7, 7, 7)), uninit_normals = (\<lambda>i. (8, 8, 8)),
            uninit_rgbs = (\<lambda>i. (9, 9, 9)), uninit_descriptors = (\<lambda>i j. 5)\<rparr>"

text \<open>
  What a buffer holds after a growth that initialises: the first \<open>n\<close> columns of the
  old buffer, then columns of the default \<open>v\<close> up to \<open>n\<close> columns; nothing for an absent
  field.
\<close>

definition grown_with :: "bool \<Rightarrow> 'a \<Rightarrow> int \<Rightarrow> 'a list \<Rightarrow> 'a list" where
  "grown_with present v n m =
     (if present then take (nat n) m @ replicate (nat n - length m) v else [])"

definition grown_by ::
  "'t \<Rightarrow> 'c \<Rightarrow> int \<Rightarrow> ('t, 'c) PointCloud \<Rightarrow> ('t, 'c) PointCloud \<Rightarrow> bool" where
  "grown_by dv dc n c c' =
     (pc_size c' = n \<and> pc_fields c' = pc_fields c \<and> wf c' \<and>
      st_xyzs (pc_storage c') =
        grown_with (has_xyzs c) (constant3 dv) n (st_xyzs (pc_storage c)) \<and>
      st_normals (pc_storage c') =
        grown_with (has_normals c) (constant3 dv) n (st_normals (pc_storage c)) \<and>
      st_rgbs (pc_storage c') =
        grown_with (has_rgbs c) (constant3 dc) n (st_rgbs (pc_storage c)) \<and>
      st_descriptors (pc_storage c') =
        grown_with (has_descriptors c)
          (replicate (dsize (descriptor_type (pc_fields c))) dv) n
          (st_descriptors (pc_storage c)))"

definition all_default :: "'t \<Rightarrow> 'c \<Rightarrow> ('t, 'c) PointCloud \<Rightarrow> bool" where
  "all_default dv dc c =
     (st_xyzs (pc_storage c) =
        (if has_xyzs c then replicate (nat (pc_size c)) (constant3 dv) else []) \<and>
      st_normals (pc_storage c) =
        (if has_normals c then replicate (nat (pc_size c)) (constant3 dv) else []) \<and>
      st_rgbs (pc_storage c) =
        (if has_rgbs c then replicate (nat (pc_size c)) (constant3 dc) else []) \<and>
      st_descriptors (pc_storage c) =
        (if has_descriptors c
         then replicate (nat (pc_size c)) (replicate (dsize (descriptor_type (pc_fields c))) dv)
         else []))"

text \<open>Two concrete clouds of positions only, of three and of two points.\<close>

definition cloudA :: "(int, nat) PointCloud" where
  "cloudA = cloud 3 kXYZs [(1, 1, 1), (2, 2, 2), (3, 3, 3)] [] [] []"

definition cloudB :: "(int, nat) PointCloud" where
  "cloudB = cloud 2 kXYZs [(4, 4, 4), (5, 5, 5)] [] [] []"

definition chosen :: "bool \<Rightarrow> 'a list \<Rightarrow> 'a list \<Rightarrow> 'a list" where
  "chosen p src m = (if p then src else m)"

text \<open>A cloud of one point with positions and normals.\<close>

definition cloudC :: "(int, nat) PointCloud" where
  "cloudC = cloud 1 (base {XYZs, Normals}) [(4, 4, 4)] [(0, 0, 1)] [] []"

text \<open>A cloud of one point with normals only.\<close>

definition cloudN :: "(int, nat) PointCloud" where
  "cloudN = cloud 1 kNormals [] [(0, 0, 1)] [] []"

text \<open>
  Crop, as a specification: a point is kept when its position lies in the closed box;
  \<open>kept_indices\<close> are the indices of the kept points, in order; a buffer of the result
  holds the columns of the kept indices.
\<close>

definition in_box :: "'a::ord vec3 \<Rightarrow> 'a vec3 \<Rightarrow> 'a vec3 \<Rightarrow> bool" where
  "in_box lower_xyz upper_xyz p = (le3 lower_xyz p \<and> le3 p upper_xyz)"

definition kept_indices :: "'a::ord vec3 \<Rightarrow> 'a vec3 \<Rightarrow> 'a vec3 list \<Rightarrow> nat list" where
  "kept_indices lower_xyz upper_xyz X =
     filter (\<lambda>i. in_box lower_xyz upper_xyz (X ! i)) [0 ..< length X]"

definition pick :: "bool \<Rightarrow> nat list \<Rightarrow> 'a list \<Rightarrow> 'a list" where
  "pick present idx m = (if present then map (\<lambda>i. m ! i) idx else [])"

definition sel :: "'a::ord vec3 \<Rightarrow> 'a vec3 \<Rightarrow> 'a vec3 list \<Rightarrow> nat \<Rightarrow> nat list" where
  "sel lower_xyz upper_xyz X k =
     filter (\<lambda>i. in_box lower_xyz upper_xyz (X ! i)) [k ..< length X]"

definition upd :: "bool \<Rightarrow> nat \<Rightarrow> 'a \<Rightarrow> 'a list \<Rightarrow> 'a list" where
  "upd p i v m = (if p then m[i := v] else m)"

definition placed :: "bool \<Rightarrow> nat \<Rightarrow> 'a list \<Rightarrow> 'a list \<Rightarrow> 'a list" where
  "placed p i vals m = (if p then take i m @ vals @ drop (i + length vals) m else m)"

definition Crop_spec ::
  "'t::ord vec3 \<Rightarrow> 't vec3 \<Rightarrow> ('t, 'c) PointCloud \<Rightarrow> ('t, 'c) PointCloud" where
  "Crop_spec lower_xyz upper_xyz this =
     (let idx = kept_indices lower_xyz upper_xyz (st_xyzs (pc_storage this)) in
      cloud (int (length idx)) (pc_fields this)
        (pick (has_xyzs this) idx (st_xyzs (pc_storage this)))
        (pick (has_normals this) idx (st_normals (pc_storage this)))
        (pick (has_rgbs this) idx (st_rgbs (pc_storage this)))
        (pick (has_descriptors this) idx (st_descriptors (pc_storage this))))"

text \<open>A cloud of four points with positions and normals.\<close>

definition cloudD :: "(int, nat) PointCloud" where
  "cloudD = cloud 4 (base {XYZs, Normals})
     [(1, 1, 1), (4, 4, 4), (0, 0, 0), (2, 2, 2)]
     [(1, 0, 0), (0, 1, 0), (0, 0, 1), (1, 1, 0)] [] []"

definition in_range :: "int \<Rightarrow> (int vec3 \<times> int list) list \<Rightarrow> bool" where
  "in_range n m = list_all (\<lambda>entry. snd entry \<noteq> [] \<and> list_all (\<lambda>i. 0 \<le> i \<and> i < n) (snd entry)) m"

definition add_normal :: "('t, 'c, 'd) arith \<Rightarrow> bool \<Rightarrow> 't vec3 \<Rightarrow> 'd accumulators \<Rightarrow> 'd accumulators" where
  "add_normal ar p v s =
     (if p \<and> finite3 ar v
      then s\<lparr>sum_normal := zip3 (plus_d ar) (sum_normal s) (map3 (cast_t_d ar) v),
             num_normals := num_normals s + 1\<rparr>
      else s)"

definition add_rgb :: "('t, 'c, 'd) arith \<Rightarrow> bool \<Rightarrow> 'c vec3 \<Rightarrow> 'd accumulators \<Rightarrow> 'd accumulators" where
  "add_rgb ar p v s =
     (if p then s\<lparr>sum_rgb := zip3 (plus_d ar) (sum_rgb s) (map3 (cast_c_d ar) v)\<rparr> else s)"

definition add_descriptor :: "('t, 'c, 'd) arith \<Rightarrow> bool \<Rightarrow> 't list \<Rightarrow> 'd accumulators \<Rightarrow> 'd accumulators" where
  "add_descriptor ar p v s =
     (if p \<and> list_all (isFinite ar) v
      then s\<lparr>sum_descriptor := map2 (plus_d ar) (sum_descriptor s) (map (cast_t_d ar) v),
             num_descriptors := num_descriptors s + 1\<rparr>
      else s)"

definition add_point ::
  "('t, 'c, 'd) arith \<Rightarrow> ('t, 'c) PointCloud \<Rightarrow> int \<Rightarrow> 'd accumulators \<Rightarrow> 'd accumulators" where
  "add_point ar this i s =
     add_descriptor ar (has_descriptors this) (st_descriptors (pc_storage this) ! nat i)
       (add_rgb ar (has_rgbs this) (st_rgbs (pc_storage this) ! nat i)
          (add_normal ar (has_normals this) (st_normals (pc_storage this) ! nat i)
             (s\<lparr>sum_xyz := zip3 (plus_d ar) (sum_xyz s)
                               (map3 (cast_t_d ar) (st_xyzs (pc_storage this) ! nat i))\<rparr>)))"

definition zero_sums :: "('t, 'c, 'd) arith \<Rightarrow> ('t, 'c) PointCloud \<Rightarrow> 'd accumulators" where
  "zero_sums ar this =
     \<lparr>sum_xyz = constant3 (zero_d ar), sum_normal = constant3 (zero_d ar),
      sum_rgb = constant3 (zero_d ar),
      sum_descriptor =
        replicate (if has_descriptors this then descriptor_rows (pc_storage this) else 0)
          (zero_d ar),
      num_normals = 0, num_descriptors = 0\<rparr>"

definition bucket_sums ::
  "('t, 'c, 'd) arith \<Rightarrow> ('t, 'c) PointCloud \<Rightarrow> int list \<Rightarrow> 'd accumulators" where
  "bucket_sums ar this b = fold (add_point ar this) b (zero_sums ar this)"

definition out_xyz :: "('t, 'c, 'd) arith \<Rightarrow> int list \<Rightarrow> 'd accumulators \<Rightarrow> 't vec3" where
  "out_xyz ar b s = map3 (cast_d_t ar) (map3 (\<lambda>x. over ar x (int (length b))) (sum_xyz s))"

definition out_normal :: "('t, 'c, 'd) arith \<Rightarrow> 'd accumulators \<Rightarrow> 't vec3" where
  "out_normal ar s = map3 (cast_d_t ar) (map3 (\<lambda>x. over ar x (num_normals s)) (sum_normal s))"

definition out_rgb :: "('t, 'c, 'd) arith \<Rightarrow> int list \<Rightarrow> 'd accumulators \<Rightarrow> 'c vec3" where
  "out_rgb ar b s = map3 (cast_d_c ar) (map3 (\<lambda>x. over ar x (int (length b))) (sum_rgb s))"

definition out_descriptor :: "('t, 'c, 'd) arith \<Rightarrow> 'd accumulators \<Rightarrow> 't list" where
  "out_descriptor ar s =
     map (cast_d_t ar) (map (\<lambda>x. over ar x (num_descriptors s)) (sum_descriptor s))"

definition voxel_xyz ::
  "('t, 'c, 'd) arith \<Rightarrow> ('t, 'c) PointCloud \<Rightarrow> int vec3 \<times> int list \<Rightarrow> 't vec3" where
  "voxel_xyz ar this entry = out_xyz ar (snd entry) (bucket_sums ar this (snd entry))"

definition voxel_normal ::
  "('t, 'c, 'd) arith \<Rightarrow> ('t, 'c) PointCloud \<Rightarrow> int vec3 \<times> int list \<Rightarrow> 't vec3" where
  "voxel_normal ar this entry = out_normal ar (bucket_sums ar this (snd entry))"

definition voxel_rgb ::
  "('t, 'c, 'd) arith \<Rightarrow> ('t, 'c) PointCloud \<Rightarrow> int vec3 \<times> int list \<Rightarrow> 'c vec3" where
  "voxel_rgb ar this entry = out_rgb ar (snd entry) (bucket_sums ar this (snd entry))"

definition voxel_descriptor ::
  "('t, 'c, 'd) arith \<Rightarrow> ('t, 'c) PointCloud \<Rightarrow> int vec3 \<times> int list \<Rightarrow> 't list" where
  "voxel_descriptor ar this entry = out_descriptor ar (bucket_sums ar this (snd entry))"

text \<open>
  The values the first two loops of \<^verbatim>\<open>VoxelizedDownSample\<close> compute, and the entries of
  the voxel map in the order of the last loop.
\<close>

definition lower_of :: "('t, 'c, 'd) arith \<Rightarrow> ('t, 'c) PointCloud \<Rightarrow> 't vec3" where
  "lower_of ar this =
     (case for_each (indices (pc_size this)) (lower_step ar this) (constant3 (infinity ar)) of
        Inr lower_xyz \<Rightarrow> lower_xyz
      | Inl err \<Rightarrow> constant3 (infinity ar))"

definition voxel_map_of ::
  "('t, 'c, 'd) arith \<Rightarrow> 'd \<Rightarrow> ('t, 'c) PointCloud \<Rightarrow> (int vec3 \<times> int list) list" where
  "voxel_map_of ar voxel_size this =
     (case for_each (indices (pc_size this)) (voxel_step ar voxel_size (lower_of ar this) this) [] of
        Inr voxel_map \<Rightarrow> voxel_map
      | Inl err \<Rightarrow> [])"

definition voxels ::
  "('t, 'c, 'd) arith \<Rightarrow> 'd \<Rightarrow> ('t, 'c) PointCloud \<Rightarrow> (int vec3 \<times> int list) list" where
  "voxels ar voxel_size this = hash_order ar (voxel_map_of ar voxel_size this)"

definition rearranges :: "('t, 'c, 'd) arith \<Rightarrow> bool" where
  "rearranges ar = (\<forall>m. length (hash_order ar m) = length m \<and> set (hash_order ar m) = set m)"

text \<open>
  A toy arithmetic for concrete instances: \<open>None\<close> stands for every non-finite value,
  and a sum divided by the count zero is \<open>None\<close>. The hash map is iterated backwards.
\<close>

definition ar0 :: "(int option, nat, int option) arith" where
  "ar0 = \<lparr>isFinite = (\<lambda>x. x \<noteq> None), infinity = None,
          fmin = (\<lambda>a b. case a of None \<Rightarrow> b
                         | Some x \<Rightarrow> (case b of None \<Rightarrow> Some x | Some y \<Rightarrow> Some (min x y))),
          voxel_of = (\<lambda>s a b. case s of None \<Rightarrow> 0
                         | Some v \<Rightarrow> (case a of None \<Rightarrow> 0
                         | Some x \<Rightarrow> (case b of None \<Rightarrow> 0 | Some y \<Rightarrow> (x - y) div v))),
          positive = (\<lambda>s. case s of None \<Rightarrow> False | Some v \<Rightarrow> 0 < v),
          cast_t_d = (\<lambda>x. x), cast_c_d = (\<lambda>c. Some (int c)),
          cast_d_t = (\<lambda>x. x), cast_d_c = (\<lambda>d. case d of None \<Rightarrow> 0 | Some x \<Rightarrow> nat x),
          zero_d = Some 0,
          plus_d = (\<lambda>a b. case a of None \<Rightarrow> None
                         | Some x \<Rightarrow> (case b of None \<Rightarrow> None | Some y \<Rightarrow> Some (x + y))),
          over = (\<lambda>a n. case a of None \<Rightarrow> None
                         | Some x \<Rightarrow> if n = 0 then None else Some (x div n)),
          hash_order = rev\<rparr>"

definition env1 :: "(int option, nat) env" where
  "env1 = \<lparr>kDefaultValue = Some 0, kDefaultColor = 0,
            uninit_xyzs = (\<lambda>i. (Some 7, Some 7, Some 7)),
            uninit_normals = (\<lambda>i. (Some 8, Some 8, Some 8)),
            uninit_rgbs = (\<lambda>i. (9, 9, 9)), uninit_descriptors = (\<lambda>i j. Some 5)\<rparr>"

text \<open>Two points in different voxels; the normal of the first is not finite.\<close>

definition cloudV :: "(int option, nat) PointCloud" where
  "cloudV = cloud 2 (base {XYZs, Normals})
     [(Some 0, Some 0, Some 0), (Some 5, Some 5, Some 5)]
     [(None, Some 0, Some 1), (Some 1, Some 0, Some 0)] [] []"




definition first_occurrences :: "'a list \<Rightarrow> 'a list" where
  "first_occurrences xs = rev (remdups (rev xs))"

















definition quotient_spec :: "'c fpu \<Rightarrow> fp \<Rightarrow> fp \<Rightarrow> fp \<Rightarrow> fp" where
  "quotient_spec m voxel_size x minimum =
     fdiv (to_quotient m) (fsub (to_float m) x minimum) (fround (to_scalar m) voxel_size)"





definition sum3_spec :: "(real \<Rightarrow> fp) \<Rightarrow> fp vec3 list \<Rightarrow> fp vec3" where
  "sum3_spec r vs = fold (\<lambda>v s. zip3 (fadd r) s v) vs (Fin 0, Fin 0, Fin 0)"

definition mean3_spec :: "(real \<Rightarrow> fp) \<Rightarrow> fp vec3 list \<Rightarrow> fp vec3" where
  "mean3_spec r vs = map3 (\<lambda>x. fdiv r x (Fin (real (length vs)))) (sum3_spec r vs)"












text \<open>
  An arithmetic for concrete instances: nothing is rounded, a value that has no \<^verbatim>\<open>int\<close>
  is converted as x86 does, a colour channel is a natural number, and the hash map is
  iterated backwards. The values of the instances
  below and the differences and quotients computed from them are numbers of the
  \<^verbatim>\<open>float\<close> format, which IEEE arithmetic does not round either.
\<close>

definition exact :: "nat fpu" where
  "exact = \<lparr>to_float = Fin, to_double = Fin, to_scalar = Fin, to_quotient = Fin,
            unrepresentable = (\<lambda>q. - (2 ^ 31)),
            of_color = (\<lambda>c. Fin (real c)),
            to_color = (\<lambda>d. case d of Fin x \<Rightarrow> nat \<lfloor>x\<rfloor> | _ \<Rightarrow> 0),
            iteration = rev\<rparr>"




section \<open>Storage, initialisation and resizing\<close>

lemma and_then_Inl [simp]: "and_then (Inl err) f = Inl err"
  by (simp add: and_then_def)

lemma and_then_Inr [simp]: "and_then (Inr x) f = f x"
  by (simp add: and_then_def)

lemma length_resized [simp]: "length (resized u n m) = n"
  by (simp add: resized_def)

lemma length_kept: "0 \<le> n \<Longrightarrow> int (length (kept p u n m)) = (if p then n else int (length m))"
  by (simp add: kept_def)

lemma resize_if_kept:
  "0 \<le> n \<Longrightarrow> (if p then conservativeResize u n m else Inr m) = Inr (kept p u n m)"
  by (simp add: conservativeResize_def kept_def)

lemma CheckInvariants_storage:
  assumes "p1 \<Longrightarrow> int (length x) = n" "p2 \<Longrightarrow> int (length nm) = n"
    "p3 \<Longrightarrow> int (length r) = n" "p4 \<Longrightarrow> int (length d) = n"
    "p1 = contains f kXYZs" "p2 = contains f kNormals" "p3 = contains f kRGBs" "p4 = has_descriptor f"
  shows "CheckInvariants (storage n f x nm r d) = Inr (storage n f x nm r d)"
  using assms by (simp add: CheckInvariants_def storage_def)

lemma Storage_resize_storage:
  assumes "0 \<le> n'"
  shows "Storage_resize e n' (storage n f x nm r d) =
    Inr (storage n' f (kept (contains f kXYZs) (uninit_xyzs e) n' x)
          (kept (contains f kNormals) (uninit_normals e) n' nm)
          (kept (contains f kRGBs) (uninit_rgbs e) n' r)
          (kept (has_descriptor f) (\<lambda>i. map (uninit_descriptors e i) [0 ..< dsize (descriptor_type f)]) n' d))"
proof -
  have sel: "st_fields (storage n f x nm r d) = f" "st_xyzs (storage n f x nm r d) = x"
    "st_normals (storage n f x nm r d) = nm" "st_rgbs (storage n f x nm r d) = r"
    "st_descriptors (storage n f x nm r d) = d"
    "descriptor_rows (storage n f x nm r d) = dsize (descriptor_type f)"
    by (simp_all add: storage_def descriptor_rows_def)
  have upd: "\<And>a b c d'. (storage n f x nm r d)\<lparr>st_size := n', st_xyzs := a, st_normals := b, st_rgbs := c,
       st_descriptors := d'\<rparr> = storage n' f a b c d'"
    by (simp add: storage_def)
  show ?thesis
    unfolding Storage_resize_def sel
    by (simp only: resize_if_kept [OF assms] and_then_Inr upd)
       (rule CheckInvariants_storage [OF _ _ _ _ refl refl refl refl]; simp add: length_kept assms)
qed

lemma cloud_sel [simp]:
  "pc_size (cloud n f x nm r d) = n" "pc_fields (cloud n f x nm r d) = f"
  "pc_storage (cloud n f x nm r d) = storage n f x nm r d"
  by (simp_all add: cloud_def)

lemma storage_sel [simp]:
  "st_fields (storage n f x nm r d) = f" "st_size (storage n f x nm r d) = n"
  "st_xyzs (storage n f x nm r d) = x" "st_normals (storage n f x nm r d) = nm"
  "st_rgbs (storage n f x nm r d) = r" "st_descriptors (storage n f x nm r d) = d"
  "descriptor_rows (storage n f x nm r d) = dsize (descriptor_type f)"
  by (simp_all add: storage_def descriptor_rows_def)

lemma has_cloud [simp]:
  "has_xyzs (cloud n f x nm r d) = contains f kXYZs"
  "has_normals (cloud n f x nm r d) = contains f kNormals"
  "has_rgbs (cloud n f x nm r d) = contains f kRGBs"
  "has_descriptors (cloud n f x nm r d) = has_descriptor f"
  by (simp_all add: has_xyzs_def has_normals_def has_rgbs_def has_descriptors_def)

lemma cloud_upd:
  "(cloud n f x nm r d)\<lparr>pc_storage := (storage n f x nm r d)\<lparr>st_xyzs := x'\<rparr>\<rparr> = cloud n f x' nm r d"
  "(cloud n f x nm r d)\<lparr>pc_storage := (storage n f x nm r d)\<lparr>st_normals := nm'\<rparr>\<rparr> = cloud n f x nm' r d"
  "(cloud n f x nm r d)\<lparr>pc_storage := (storage n f x nm r d)\<lparr>st_rgbs := r'\<rparr>\<rparr> = cloud n f x nm r' d"
  "(cloud n f x nm r d)\<lparr>pc_storage := (storage n f x nm r d)\<lparr>st_descriptors := d'\<rparr>\<rparr> = cloud n f x nm r d'"
  "(cloud n f x nm r d)\<lparr>pc_size := n', pc_storage := storage n' f x' nm' r' d'\<rparr> = cloud n' f x' nm' r' d'"
  by (simp_all add: cloud_def storage_def)

lemma filled_ok:
  assumes "0 \<le> start" "0 \<le> num" "p \<Longrightarrow> start + num \<le> int (length m)"
  shows "(if p then setConstant_middleCols start num v m else Inr m) = Inr (filled p start num v m)"
  using assms by (simp add: setConstant_middleCols_def assign_middleCols_def filled_def)

lemma mutable_xyzs_cloud:
  "mutable_xyzs w (cloud n f x nm r d) =
     (if contains f kXYZs then and_then (w x) (\<lambda>m. Inr (cloud n f m nm r d)) else Inl DemandFailed)"
  by (simp add: mutable_xyzs_def cloud_upd)

lemma mutable_normals_cloud:
  "mutable_normals w (cloud n f x nm r d) =
     (if contains f kNormals then and_then (w nm) (\<lambda>m. Inr (cloud n f x m r d)) else Inl DemandFailed)"
  by (simp add: mutable_normals_def cloud_upd)

lemma mutable_rgbs_cloud:
  "mutable_rgbs w (cloud n f x nm r d) =
     (if contains f kRGBs then and_then (w r) (\<lambda>m. Inr (cloud n f x nm m d)) else Inl DemandFailed)"
  by (simp add: mutable_rgbs_def cloud_upd)

lemma mutable_descriptors_cloud:
  "mutable_descriptors w (cloud n f x nm r d) =
     (if has_descriptor f then and_then (w d) (\<lambda>m. Inr (cloud n f x nm r m)) else Inl DemandFailed)"
  by (simp add: mutable_descriptors_def cloud_upd)

lemma length_filled:
  "0 \<le> start \<Longrightarrow> 0 \<le> num \<Longrightarrow> (p \<Longrightarrow> start + num \<le> int (length m)) \<Longrightarrow>
   length (filled p start num v m) = length m"
  by (cases p) (auto simp: filled_def)

lemma step_xyzs:
  assumes "0 \<le> start" "0 \<le> num" "contains f kXYZs \<Longrightarrow> start + num \<le> int (length x)"
  shows "(if contains f kXYZs
          then mutable_xyzs (setConstant_middleCols start num v) (cloud n f x nm r d)
          else Inr (cloud n f x nm r d)) =
         Inr (cloud n f (filled (contains f kXYZs) start num v x) nm r d)"
  using assms
  by (cases "contains f kXYZs")
     (simp_all add: mutable_xyzs_cloud setConstant_middleCols_def assign_middleCols_def filled_def)

lemma step_normals:
  assumes "0 \<le> start" "0 \<le> num" "contains f kNormals \<Longrightarrow> start + num \<le> int (length nm)"
  shows "(if contains f kNormals
          then mutable_normals (setConstant_middleCols start num v) (cloud n f x nm r d)
          else Inr (cloud n f x nm r d)) =
         Inr (cloud n f x (filled (contains f kNormals) start num v nm) r d)"
  using assms
  by (cases "contains f kNormals")
     (simp_all add: mutable_normals_cloud setConstant_middleCols_def assign_middleCols_def filled_def)

lemma step_rgbs:
  assumes "0 \<le> start" "0 \<le> num" "contains f kRGBs \<Longrightarrow> start + num \<le> int (length r)"
  shows "(if contains f kRGBs
          then mutable_rgbs (setConstant_middleCols start num v) (cloud n f x nm r d)
          else Inr (cloud n f x nm r d)) =
         Inr (cloud n f x nm (filled (contains f kRGBs) start num v r) d)"
  using assms
  by (cases "contains f kRGBs")
     (simp_all add: mutable_rgbs_cloud setConstant_middleCols_def assign_middleCols_def filled_def)

lemma step_descriptors:
  assumes "0 \<le> start" "0 \<le> num" "has_descriptor f \<Longrightarrow> start + num \<le> int (length d)"
  shows "(if has_descriptor f
          then mutable_descriptors (setConstant_middleCols start num v) (cloud n f x nm r d)
          else Inr (cloud n f x nm r d)) =
         Inr (cloud n f x nm r (filled (has_descriptor f) start num v d))"
  using assms
  by (cases "has_descriptor f")
     (simp_all add: mutable_descriptors_cloud setConstant_middleCols_def assign_middleCols_def filled_def)

lemma SetDefault_cloud:
  assumes "0 \<le> start" "0 \<le> num"
    "contains f kXYZs \<Longrightarrow> start + num \<le> int (length x)"
    "contains f kNormals \<Longrightarrow> start + num \<le> int (length nm)"
    "contains f kRGBs \<Longrightarrow> start + num \<le> int (length r)"
    "has_descriptor f \<Longrightarrow> start + num \<le> int (length d)"
  shows "SetDefault e start num (cloud n f x nm r d) =
    Inr (cloud n f
      (filled (contains f kXYZs) start num (constant3 (kDefaultValue e)) x)
      (filled (contains f kNormals) start num (constant3 (kDefaultValue e)) nm)
      (filled (contains f kRGBs) start num (constant3 (kDefaultColor e)) r)
      (filled (has_descriptor f) start num (replicate (dsize (descriptor_type f)) (kDefaultValue e)) d))"
  unfolding SetDefault_def
  by (simp only: has_cloud step_xyzs [OF assms(1,2,3)] step_normals [OF assms(1,2,4)]
        step_rgbs [OF assms(1,2,5)] step_descriptors [OF assms(1,2,6)] and_then_Inr
        cloud_sel storage_sel)

lemma map_const_upt: "map (\<lambda>_. v) [a ..< b] = replicate (b - a) v"
  by (induction b) (auto simp: replicate_append_same Suc_diff_le)

lemma filled_kept:
  assumes "p \<Longrightarrow> int (length x) = n" "0 \<le> n" "n \<le> n'"
  shows "filled p n (n' - n) v (kept p u n' x) = kept p (\<lambda>_. v) n' x"
proof (cases p)
  case True
  then have len: "length x = nat n" using assms by simp
  have "nat n \<le> nat n'" using assms by simp
  then show ?thesis
    using True len assms(2,3)
    by (simp add: filled_def kept_def resized_def map_const_upt nat_diff_distrib)
next
  case False
  then show ?thesis by (simp add: filled_def kept_def)
qed

lemma kept_shrink:
  assumes "p \<Longrightarrow> int (length x) = n" "n' \<le> n"
  shows "kept p u n' x = kept p g n' x"
proof (cases p)
  case True
  then have "nat n' \<le> length x" using assms by simp
  then show ?thesis by (simp add: kept_def resized_def)
next
  case False
  then show ?thesis by (simp add: kept_def)
qed

lemma resize_cloud:
  assumes "0 \<le> n'"
    "contains f kXYZs \<Longrightarrow> int (length x) = n"
    "contains f kNormals \<Longrightarrow> int (length nm) = n"
    "contains f kRGBs \<Longrightarrow> int (length r) = n"
    "has_descriptor f \<Longrightarrow> int (length d) = n"
    "0 \<le> n"
  shows "resize e n' skip (cloud n f x nm r d) =
    Inr (cloud n' f
      (kept (contains f kXYZs) (new_xyzs e skip) n' x)
      (kept (contains f kNormals) (new_normals e skip) n' nm)
      (kept (contains f kRGBs) (new_rgbs e skip) n' r)
      (kept (has_descriptor f) (new_descriptors e f skip) n' d))"
proof (cases "n' > n \<and> \<not> skip")
  case True
  then have le: "n \<le> n'" and ns: "\<not> skip" by simp_all
  have d: "0 \<le> n' - n" using le by simp
  have b: "n + (n' - n) = n'" by simp
  show ?thesis
    unfolding resize_def using assms(1) True
    by (simp add: Storage_resize_storage Let_def cloud_upd
          SetDefault_cloud [OF assms(6) d] length_kept b
          filled_kept [OF assms(2) assms(6) le] filled_kept [OF assms(3) assms(6) le]
          filled_kept [OF assms(4) assms(6) le] filled_kept [OF assms(5) assms(6) le]
          new_xyzs_def new_normals_def new_rgbs_def new_descriptors_def)
next
  case False
  show ?thesis
  proof (cases skip)
    case True
    show ?thesis
      unfolding resize_def using assms(1) True
      by (simp add: Storage_resize_storage Let_def cloud_upd
          new_xyzs_def new_normals_def new_rgbs_def new_descriptors_def)
  next
    case skipF: False
    with False have le: "n' \<le> n" by simp
    show ?thesis
      unfolding resize_def using assms(1) le skipF
      by (simp add: Storage_resize_storage Let_def cloud_upd
            kept_shrink [OF assms(2) le, where u = "uninit_xyzs e" and g = "new_xyzs e skip"]
            kept_shrink [OF assms(3) le, where u = "uninit_normals e" and g = "new_normals e skip"]
            kept_shrink [OF assms(4) le, where u = "uninit_rgbs e" and g = "new_rgbs e skip"]
            kept_shrink [OF assms(5) le, where g = "new_descriptors e f skip"
              and u = "\<lambda>i. map (uninit_descriptors e i) [0 ..< dsize (descriptor_type f)]"])
  qed
qed

lemma kept_Nil: "0 \<le> n \<Longrightarrow> kept p g n [] = (if p then map g [0 ..< nat n] else [])"
  by (simp add: kept_def resized_def)

lemma Storage_new_ok:
  "0 \<le> n \<Longrightarrow> Storage_new e n f =
     Inr (storage n f (kept (contains f kXYZs) (uninit_xyzs e) n [])
           (kept (contains f kNormals) (uninit_normals e) n [])
           (kept (contains f kRGBs) (uninit_rgbs e) n [])
           (kept (has_descriptor f)
              (\<lambda>i. map (uninit_descriptors e i) [0 ..< dsize (descriptor_type f)]) n []))"
  using Storage_resize_storage [of n e 0 f "[]" "[]" "[]" "[]"]
  by (simp add: Storage_new_def storage_def)

lemma PointCloud_new_ok:
  assumes "f \<noteq> kNone" "\<not> contains f kInherit" "0 \<le> n"
  shows "PointCloud_new e n f skip =
    Inr (cloud n f
      (kept (contains f kXYZs) (new_xyzs e skip) n [])
      (kept (contains f kNormals) (new_normals e skip) n [])
      (kept (contains f kRGBs) (new_rgbs e skip) n [])
      (kept (has_descriptor f) (new_descriptors e f skip) n []))"
proof (cases skip)
  case True
  then show ?thesis
    using assms
    by (simp add: PointCloud_new_def Storage_new_ok cloud_def
          new_xyzs_def new_normals_def new_rgbs_def new_descriptors_def)
next
  case False
  have z: "(0::int) \<le> 0" by simp
  have e: "\<And>p (m :: 'z list). p \<Longrightarrow> int (length ([] :: 'z list)) = 0" by simp
  have c: "\<And>st. \<lparr>pc_size = n, pc_fields = f, pc_storage = storage n f x nm r d\<rparr> = cloud n f x nm r d"
    for x :: "'a vec3 list" and nm :: "'a vec3 list" and r :: "'b vec3 list" and d
    by (simp add: cloud_def)
  show ?thesis
    using assms False
    by (simp add: PointCloud_new_def Storage_new_ok c SetDefault_cloud length_kept
          filled_kept [where n = 0 and x = "[]", simplified, OF assms(3)]
          new_xyzs_def new_normals_def new_rgbs_def new_descriptors_def)
qed

lemma some_buffer:
  assumes "f \<noteq> kNone" "\<not> contains f kInherit"
  shows "contains f kXYZs \<or> contains f kNormals \<or> contains f kRGBs \<or> has_descriptor f"
proof (rule ccontr)
  assume a: "\<not> ?thesis"
  have "b \<notin> base_fields f" for b
    using a assms(2)
    by (cases b) (simp_all add: contains_def kXYZs_def kNormals_def kRGBs_def kInherit_def base_def)
  then have "base_fields f = {}" by auto
  moreover have "descriptor_type f = kDescriptorNone"
    using a by (simp add: has_descriptor_def)
  ultimately have "f = kNone"
    by (simp add: kNone_def base_def)
  with assms(1) show False by simp
qed

lemma Storage_resize_neg:
  assumes "n < 0"
    "contains (st_fields s) kXYZs \<or> contains (st_fields s) kNormals \<or>
     contains (st_fields s) kRGBs \<or> has_descriptor (st_fields s)"
  shows "Storage_resize e n s = Inl EigenAssert"
  using assms
  by (cases "contains (st_fields s) kXYZs"; cases "contains (st_fields s) kNormals";
      cases "contains (st_fields s) kRGBs"; cases "has_descriptor (st_fields s)")
     (simp_all add: Storage_resize_def conservativeResize_def)

lemma PointCloud_new_neg:
  assumes "f \<noteq> kNone" "\<not> contains f kInherit" "n < 0"
  shows "PointCloud_new e n f skip = Inl EigenAssert"
  using assms some_buffer [OF assms(1,2)]
  by (simp add: PointCloud_new_def Storage_new_def Storage_resize_neg)

lemma wf_cloud:
  "wf (cloud n f x nm r d) =
     (f \<noteq> kNone \<and> \<not> contains f kInherit \<and> 0 \<le> n \<and>
      cols_ok (contains f kXYZs) n x \<and> cols_ok (contains f kNormals) n nm \<and>
      cols_ok (contains f kRGBs) n r \<and> cols_ok (has_descriptor f) n d \<and>
      list_all (\<lambda>c. length c = dsize (descriptor_type f)) d)"
  by (simp add: wf_def)

lemma wf_is_cloud:
  "wf c \<Longrightarrow> c = cloud (pc_size c) (pc_fields c) (st_xyzs (pc_storage c))
     (st_normals (pc_storage c)) (st_rgbs (pc_storage c)) (st_descriptors (pc_storage c))"
  by (simp add: wf_def cloud_def storage_def)

lemma cols_ok_kept: "0 \<le> n' \<Longrightarrow> cols_ok p n x \<Longrightarrow> cols_ok p n' (kept p g n' x)"
  by (simp add: cols_ok_def kept_def)

lemma cols_ok_len: "cols_ok p n x \<Longrightarrow> p \<Longrightarrow> int (length x) = n"
  by (simp add: cols_ok_def)

lemma rows_new_descriptors: "length (new_descriptors e f skip i) = dsize (descriptor_type f)"
  by (simp add: new_descriptors_def)

lemma rows_kept:
  "list_all (\<lambda>c. length c = k) d \<Longrightarrow> (\<And>i. length (g i) = k) \<Longrightarrow>
   list_all (\<lambda>c. length c = k) (kept p g n' d)"
  by (auto simp: kept_def resized_def list_all_iff dest: in_set_takeD)

lemma PointCloud_new_wf:
  assumes "f \<noteq> kNone" "\<not> contains f kInherit" "0 \<le> n"
  shows "\<exists>c. PointCloud_new e n f skip = Inr c \<and> wf c \<and> pc_size c = n \<and> pc_fields c = f"
proof -
  have z: "cols_ok p 0 []" for p by (simp add: cols_ok_def)
  show ?thesis
    using assms
    by (simp add: PointCloud_new_ok wf_cloud cols_ok_kept [OF assms(3) z] rows_kept
          rows_new_descriptors)
qed

lemma contains_refl: "contains f f"
  by (simp add: contains_def)

lemma kXYZs_real: "kXYZs \<noteq> kNone" "\<not> contains kXYZs kInherit"
  by (simp_all add: kXYZs_def kNone_def kInherit_def base_def contains_def)

lemma kept_default: "cols_ok p n x \<Longrightarrow> kept p (\<lambda>_. v) n' x = grown_with p v n' x"
  by (auto simp: kept_def grown_with_def resized_def map_const_upt cols_ok_def)

lemma kept_Nil_default:
  "0 \<le> n \<Longrightarrow> kept p (\<lambda>_. v) n [] = (if p then replicate (nat n) v else [])"
  by (simp add: kept_Nil map_const_upt)

lemma resize_wf:
  assumes "wf c" "0 \<le> n'"
  shows "\<exists>c'. resize e n' skip c = Inr c' \<and> wf c' \<and> pc_size c' = n' \<and> pc_fields c' = pc_fields c"
proof -
  obtain n f x nm r d where c: "c = cloud n f x nm r d"
    using wf_is_cloud [OF assms(1)] by blast
  have w: "f \<noteq> kNone" "\<not> contains f kInherit" "0 \<le> n"
      "cols_ok (contains f kXYZs) n x" "cols_ok (contains f kNormals) n nm"
      "cols_ok (contains f kRGBs) n r" "cols_ok (has_descriptor f) n d"
      "list_all (\<lambda>c. length c = dsize (descriptor_type f)) d"
    using assms(1) unfolding c wf_cloud by simp_all
  have "resize e n' skip c = Inr (cloud n' f
      (kept (contains f kXYZs) (new_xyzs e skip) n' x)
      (kept (contains f kNormals) (new_normals e skip) n' nm)
      (kept (contains f kRGBs) (new_rgbs e skip) n' r)
      (kept (has_descriptor f) (new_descriptors e f skip) n' d))"
    unfolding c
    by (rule resize_cloud [OF assms(2) cols_ok_len [OF w(4)] cols_ok_len [OF w(5)]
          cols_ok_len [OF w(6)] cols_ok_len [OF w(7)] w(3)])
  moreover have "wf (cloud n' f
      (kept (contains f kXYZs) (new_xyzs e skip) n' x)
      (kept (contains f kNormals) (new_normals e skip) n' nm)
      (kept (contains f kRGBs) (new_rgbs e skip) n' r)
      (kept (has_descriptor f) (new_descriptors e f skip) n' d))"
    unfolding wf_cloud using w assms(2)
    by (simp add: cols_ok_kept rows_kept rows_new_descriptors)
  ultimately show ?thesis by (simp add: c)
qed

lemma resize_grown:
  assumes "wf c" "0 \<le> n'"
  shows "\<exists>c'. resize e n' False c = Inr c' \<and> grown_by (kDefaultValue e) (kDefaultColor e) n' c c'"
proof -
  obtain n f x nm r d where c: "c = cloud n f x nm r d"
    using wf_is_cloud [OF assms(1)] by blast
  have w: "f \<noteq> kNone" "\<not> contains f kInherit" "0 \<le> n"
      "cols_ok (contains f kXYZs) n x" "cols_ok (contains f kNormals) n nm"
      "cols_ok (contains f kRGBs) n r" "cols_ok (has_descriptor f) n d"
      "list_all (\<lambda>c. length c = dsize (descriptor_type f)) d"
    using assms(1) unfolding c wf_cloud by simp_all
  have r: "resize e n' False c = Inr (cloud n' f
      (kept (contains f kXYZs) (new_xyzs e False) n' x)
      (kept (contains f kNormals) (new_normals e False) n' nm)
      (kept (contains f kRGBs) (new_rgbs e False) n' r)
      (kept (has_descriptor f) (new_descriptors e f False) n' d))"
    unfolding c
    by (rule resize_cloud [OF assms(2) cols_ok_len [OF w(4)] cols_ok_len [OF w(5)]
          cols_ok_len [OF w(6)] cols_ok_len [OF w(7)] w(3)])
  obtain c' where c': "resize e n' False c = Inr c'" "wf c'"
    using resize_wf [OF assms] by blast
  show ?thesis
    using c' r w
    by (simp add: grown_by_def c new_xyzs_def new_normals_def new_rgbs_def new_descriptors_def
          kept_default [of _ n])
qed

lemma int32_id: "- (2 ^ 31) \<le> x \<Longrightarrow> x \<le> INT_MAX \<Longrightarrow> int32 x = x"
  by (simp add: int32_def INT_MAX_def)

lemma wrap_high:
  fixes x m :: int
  assumes "m \<le> x" "x < 3 * m"
  shows "(x + m) mod (2 * m) - m = x - 2 * m"
proof -
  have "(x + m) mod (2 * m) = (x - m + 2 * m) mod (2 * m)" by (simp add: algebra_simps)
  also have "\<dots> = (x - m) mod (2 * m)" by (rule mod_add_self2)
  also have "\<dots> = x - m" using assms by (intro mod_pos_pos_trivial) simp_all
  finally show ?thesis by simp
qed

lemma int32_overflow: "INT_MAX < x \<Longrightarrow> x \<le> 2 * INT_MAX \<Longrightarrow> int32 x < 0"
  using wrap_high [of "2 ^ 31" x] by (simp add: int32_def INT_MAX_def)

lemma Expand_resize:
  "0 \<le> add \<Longrightarrow> 0 \<le> pc_size c \<Longrightarrow> pc_size c + add \<le> INT_MAX \<Longrightarrow>
   Expand e add skip c = resize e (pc_size c + add) skip c"
  by (simp add: Expand_def int32_id)

lemma Expand_overflow:
  "0 \<le> add \<Longrightarrow> INT_MAX < pc_size c + add \<Longrightarrow> pc_size c + add \<le> 2 * INT_MAX \<Longrightarrow>
   Expand e add skip c = Inl DemandFailed"
  using int32_overflow [of "pc_size c + add"] by (simp add: Expand_def resize_def)

lemma Expand_grown:
  fixes e :: "('t::zero, 'c) env"
  assumes "wf c" "kDefaultValue e = 0" "Expand e add False c = Inr c'"
  shows "grown_by 0 (kDefaultColor e) (pc_size c') c c'"
proof -
  let ?n = "int32 (pc_size c + add)"
  have r: "resize e ?n False c = Inr c'"
    using assms(3) by (simp add: Expand_def split: if_splits)
  then have n: "0 \<le> ?n" by (auto simp add: resize_def split: if_splits)
  from resize_grown [of c ?n e] assms(1,2) n r
  have g: "grown_by 0 (kDefaultColor e) ?n c c'" by simp
  then have "pc_size c' = ?n" by (simp add: grown_by_def)
  then show ?thesis using g by simp
qed

lemma PointCloud_new_default:
  assumes "f \<noteq> kNone" "\<not> contains f kInherit" "0 \<le> n"
  shows "\<exists>c. PointCloud_new e n f False = Inr c \<and> pc_size c = n \<and> pc_fields c = f \<and> wf c \<and>
           all_default (kDefaultValue e) (kDefaultColor e) c"
proof -
  obtain c where c: "PointCloud_new e n f False = Inr c" "wf c" "pc_size c = n" "pc_fields c = f"
    using PointCloud_new_wf [OF assms] by blast
  show ?thesis
    using c assms(3) unfolding PointCloud_new_ok [OF assms]
    by (auto simp: all_default_def kept_Nil_default new_xyzs_def new_normals_def new_rgbs_def
          new_descriptors_def)
qed

lemma contains_kXYZs [simp]:
  "contains kXYZs kXYZs" "\<not> contains kXYZs kNormals" "\<not> contains kXYZs kRGBs"
  "\<not> has_descriptor kXYZs" "\<not> contains kXYZs kInherit" "kXYZs \<noteq> kNone"
  by (simp_all add: contains_def kXYZs_def kNormals_def kRGBs_def kInherit_def kNone_def base_def
        has_descriptor_def)

lemma wf_cloudA: "wf cloudA"
  by (simp add: cloudA_def wf_cloud cols_ok_def)

lemma wf_cloudB: "wf cloudB"
  by (simp add: cloudB_def wf_cloud cols_ok_def)

section \<open>Field sets and data through \<^verbatim>\<open>SetFrom\<close>, copies and moves\<close>

lemma and_then_InrD: "and_then m f = Inr y \<Longrightarrow> \<exists>x. m = Inr x \<and> f x = Inr y"
  by (cases m) simp_all

lemma mutable_fields:
  "mutable_xyzs w1 c = Inr c' \<Longrightarrow> pc_fields c' = pc_fields c \<and> pc_size c' = pc_size c"
  "mutable_normals w2 c = Inr c' \<Longrightarrow> pc_fields c' = pc_fields c \<and> pc_size c' = pc_size c"
  "mutable_rgbs w3 c = Inr c' \<Longrightarrow> pc_fields c' = pc_fields c \<and> pc_size c' = pc_size c"
  "mutable_descriptors w4 c = Inr c' \<Longrightarrow> pc_fields c' = pc_fields c \<and> pc_size c' = pc_size c"
  by (auto simp: mutable_xyzs_def mutable_normals_def mutable_rgbs_def mutable_descriptors_def
        split: if_splits dest!: and_then_InrD)

lemma SetDefault_fields:
  assumes "SetDefault e start num c = Inr c'"
  shows "pc_fields c' = pc_fields c"
proof -
  from assms obtain c1 c2 c3 where
    s1: "(if has_xyzs c then mutable_xyzs
            (setConstant_middleCols start num (constant3 (kDefaultValue e))) c else Inr c) = Inr c1"
    and s2: "(if has_normals c1 then mutable_normals
            (setConstant_middleCols start num (constant3 (kDefaultValue e))) c1 else Inr c1) = Inr c2"
    and s3: "(if has_rgbs c2 then mutable_rgbs
            (setConstant_middleCols start num (constant3 (kDefaultColor e))) c2 else Inr c2) = Inr c3"
    and s4: "(if has_descriptors c3 then mutable_descriptors
            (setConstant_middleCols start num
               (replicate (descriptor_rows (pc_storage c3)) (kDefaultValue e))) c3
          else Inr c3) = Inr c'"
    unfolding SetDefault_def by (blast dest!: and_then_InrD)
  have "pc_fields c1 = pc_fields c" using s1 by (auto split: if_splits dest: mutable_fields)
  moreover have "pc_fields c2 = pc_fields c1" using s2 by (auto split: if_splits dest: mutable_fields)
  moreover have "pc_fields c3 = pc_fields c2" using s3 by (auto split: if_splits dest: mutable_fields)
  moreover have "pc_fields c' = pc_fields c3" using s4 by (auto split: if_splits dest: mutable_fields)
  ultimately show ?thesis by simp
qed

lemma resize_fields:
  assumes "resize e n skip c = Inr c'"
  shows "pc_fields c' = pc_fields c"
  using assms unfolding resize_def
  by (auto simp: Let_def split: if_splits dest!: and_then_InrD SetDefault_fields)

lemma Expand_fields:
  assumes "Expand e n skip c = Inr c'"
  shows "pc_fields c' = pc_fields c"
  using assms unfolding Expand_def
  by (auto simp: Let_def split: if_splits dest: resize_fields)

lemma copy_step_fields:
  "(if p1 then and_then (xyzs other) (\<lambda>src. mutable_xyzs (w1 src) c) else Inr c) = Inr c' \<Longrightarrow>
     pc_fields c' = pc_fields c"
  "(if p2 then and_then (normals other) (\<lambda>src. mutable_normals (w2 src) c) else Inr c) = Inr c' \<Longrightarrow>
     pc_fields c' = pc_fields c"
  "(if p3 then and_then (rgbs other) (\<lambda>src. mutable_rgbs (w3 src) c) else Inr c) = Inr c' \<Longrightarrow>
     pc_fields c' = pc_fields c"
  "(if p4 then and_then (descriptors other) (\<lambda>src. mutable_descriptors (w4 src) c) else Inr c) = Inr c' \<Longrightarrow>
     pc_fields c' = pc_fields c"
  by (auto split: if_splits dest!: and_then_InrD dest: mutable_fields)

lemma copy_chain_fields:
  assumes "and_then (if p1 then and_then (xyzs other) (\<lambda>src. mutable_xyzs (w1 src) c)
                     else Inr c) (\<lambda>c1.
           and_then (if p2 then and_then (normals other) (\<lambda>src. mutable_normals (w2 src) c1)
                     else Inr c1) (\<lambda>c2.
           and_then (if p3 then and_then (rgbs other) (\<lambda>src. mutable_rgbs (w3 src) c2)
                     else Inr c2) (\<lambda>c3.
           if p4 then and_then (descriptors other) (\<lambda>src. mutable_descriptors (w4 src) c3)
           else Inr c3))) = Inr c'"
  shows "pc_fields c' = pc_fields c"
proof -
  from assms obtain c1 c2 c3 where
    "(if p1 then and_then (xyzs other) (\<lambda>src. mutable_xyzs (w1 src) c) else Inr c) = Inr c1"
    "(if p2 then and_then (normals other) (\<lambda>src. mutable_normals (w2 src) c1) else Inr c1) = Inr c2"
    "(if p3 then and_then (rgbs other) (\<lambda>src. mutable_rgbs (w3 src) c2) else Inr c2) = Inr c3"
    "(if p4 then and_then (descriptors other) (\<lambda>src. mutable_descriptors (w4 src) c3) else Inr c3)
       = Inr c'"
    by (blast dest!: and_then_InrD)
  then show ?thesis
    using copy_step_fields(1) [of p1 other w1 c c1] copy_step_fields(2) [of p2 other w2 c1 c2]
      copy_step_fields(3) [of p3 other w3 c2 c3] copy_step_fields(4) [of p4 other w4 c3 c']
    by simp
qed

lemma SetFrom_first_fields:
  "(if allow_resize then resize e new_size False this
    else if new_size \<noteq> old_size then Inl RuntimeError else Inr this) = Inr this1 \<Longrightarrow>
   pc_fields this1 = pc_fields this"
  by (auto split: if_splits dest: resize_fields)

lemma SetFrom_fields:
  "SetFrom e other fields_in allow_resize this = Inl (err, this') \<Longrightarrow> pc_fields this' = pc_fields this"
  "SetFrom e other fields_in allow_resize this = Inr this' \<Longrightarrow> pc_fields this' = pc_fields this"
  unfolding SetFrom_def Let_def
  by (auto split: sum.splits dest!: SetFrom_first_fields dest: copy_chain_fields)

lemma ResolvePairFields_eq:
  "ResolvePairFields a b flds =
     (if flds = kInherit
      then (if pc_fields a = pc_fields b then Inr (pc_fields a) else Inl RuntimeError)
      else if contains flds kInherit then Inl DemandFailed
      else if \<not> contains (pc_fields a) flds then Inl RuntimeError
      else if \<not> contains (pc_fields b) flds then Inl RuntimeError
      else Inr flds)"
  by (simp add: ResolvePairFields_def RequireExactFields_def HasExactFields_def RequireFields_def
        HasFields_def)

lemma ResolvePairFields_contains:
  assumes "ResolvePairFields a b flds = Inr fr"
  shows "contains (pc_fields a) fr \<and> contains (pc_fields b) fr"
  using assms by (auto simp: ResolvePairFields_eq contains_refl split: if_splits)

lemma contains_trans: "contains f g \<Longrightarrow> contains g h \<Longrightarrow> contains f h"
  by (auto simp: contains_def)

lemma contains_descriptor: "contains f g \<Longrightarrow> has_descriptor g \<Longrightarrow> has_descriptor f"
  by (auto simp: contains_def has_descriptor_def)

lemma accessors_cloud:
  "xyzs (cloud n f x nm r d) = (if contains f kXYZs then Inr x else Inl DemandFailed)"
  "normals (cloud n f x nm r d) = (if contains f kNormals then Inr nm else Inl DemandFailed)"
  "rgbs (cloud n f x nm r d) = (if contains f kRGBs then Inr r else Inl DemandFailed)"
  "descriptors (cloud n f x nm r d) = (if has_descriptor f then Inr d else Inl DemandFailed)"
  by (simp_all add: xyzs_def normals_def rgbs_def descriptors_def)

lemma copy_xyzs:
  assumes "p \<Longrightarrow> contains f kXYZs \<and> contains f2 kXYZs \<and> length x2 = length x"
  shows "(if p then and_then (xyzs (cloud n2 f2 x2 nm2 r2 d2))
                 (\<lambda>src. mutable_xyzs (assign_ref src) (cloud n f x nm r d))
          else Inr (cloud n f x nm r d)) = Inr (cloud n f (chosen p x2 x) nm r d)"
  using assms by (cases p) (simp_all add: accessors_cloud mutable_xyzs_cloud assign_ref_def chosen_def)

lemma copy_normals:
  assumes "p \<Longrightarrow> contains f kNormals \<and> contains f2 kNormals \<and> length nm2 = length nm"
  shows "(if p then and_then (normals (cloud n2 f2 x2 nm2 r2 d2))
                 (\<lambda>src. mutable_normals (assign_ref src) (cloud n f x nm r d))
          else Inr (cloud n f x nm r d)) = Inr (cloud n f x (chosen p nm2 nm) r d)"
  using assms
  by (cases p) (simp_all add: accessors_cloud mutable_normals_cloud assign_ref_def chosen_def)

lemma copy_rgbs:
  assumes "p \<Longrightarrow> contains f kRGBs \<and> contains f2 kRGBs \<and> length r2 = length r"
  shows "(if p then and_then (rgbs (cloud n2 f2 x2 nm2 r2 d2))
                 (\<lambda>src. mutable_rgbs (assign_ref src) (cloud n f x nm r d))
          else Inr (cloud n f x nm r d)) = Inr (cloud n f x nm (chosen p r2 r) d)"
  using assms by (cases p) (simp_all add: accessors_cloud mutable_rgbs_cloud assign_ref_def chosen_def)

lemma copy_descriptors:
  assumes "p \<Longrightarrow> has_descriptor f \<and> has_descriptor f2 \<and> length d2 = length d"
  shows "(if p then and_then (descriptors (cloud n2 f2 x2 nm2 r2 d2))
                 (\<lambda>src. mutable_descriptors (assign_ref src) (cloud n f x nm r d))
          else Inr (cloud n f x nm r d)) = Inr (cloud n f x nm r (chosen p d2 d))"
  using assms
  by (cases p) (simp_all add: accessors_cloud mutable_descriptors_cloud assign_ref_def chosen_def)

lemma cols_same: "cols_ok True n a \<Longrightarrow> cols_ok True n b \<Longrightarrow> length a = length b"
  by (simp add: cols_ok_def)

lemma copy_chain:
  assumes c1: "contains f fr" and c2: "contains f2 fr"
    and w1: "wf (cloud n f x nm r d)" and w2: "wf (cloud n f2 x2 nm2 r2 d2)"
  shows "and_then (if contains fr kXYZs
                   then and_then (xyzs (cloud n f2 x2 nm2 r2 d2))
                          (\<lambda>src. mutable_xyzs (assign_ref src) (cloud n f x nm r d))
                   else Inr (cloud n f x nm r d)) (\<lambda>c1.
         and_then (if contains fr kNormals
                   then and_then (normals (cloud n f2 x2 nm2 r2 d2))
                          (\<lambda>src. mutable_normals (assign_ref src) c1)
                   else Inr c1) (\<lambda>c2.
         and_then (if contains fr kRGBs
                   then and_then (rgbs (cloud n f2 x2 nm2 r2 d2))
                          (\<lambda>src. mutable_rgbs (assign_ref src) c2)
                   else Inr c2) (\<lambda>c3.
         if has_descriptor fr
         then and_then (descriptors (cloud n f2 x2 nm2 r2 d2))
                (\<lambda>src. mutable_descriptors (assign_ref src) c3)
         else Inr c3))) =
    Inr (cloud n f (chosen (contains fr kXYZs) x2 x) (chosen (contains fr kNormals) nm2 nm)
          (chosen (contains fr kRGBs) r2 r) (chosen (has_descriptor fr) d2 d))"
proof -
  have a: "contains fr kXYZs \<Longrightarrow> contains f kXYZs \<and> contains f2 kXYZs \<and> length x2 = length x"
    using contains_trans [OF c1] contains_trans [OF c2] w1 w2
    by (auto simp: wf_cloud intro: cols_same)
  have b: "contains fr kNormals \<Longrightarrow>
      contains f kNormals \<and> contains f2 kNormals \<and> length nm2 = length nm"
    using contains_trans [OF c1] contains_trans [OF c2] w1 w2
    by (auto simp: wf_cloud intro: cols_same)
  have c: "contains fr kRGBs \<Longrightarrow> contains f kRGBs \<and> contains f2 kRGBs \<and> length r2 = length r"
    using contains_trans [OF c1] contains_trans [OF c2] w1 w2
    by (auto simp: wf_cloud intro: cols_same)
  have d: "has_descriptor fr \<Longrightarrow> has_descriptor f \<and> has_descriptor f2 \<and> length d2 = length d"
    using contains_descriptor [OF c1] contains_descriptor [OF c2] w1 w2
    by (auto simp: wf_cloud intro: cols_same)
  show ?thesis
    by (simp only: copy_xyzs [OF a] copy_normals [OF b] copy_rgbs [OF c] copy_descriptors [OF d]
          and_then_Inr)
qed

lemma kept_same: "cols_ok p n x \<Longrightarrow> kept p g n x = x"
  by (auto simp: cols_ok_def kept_def resized_def)

lemma resize_same:
  assumes "wf c"
  shows "resize e (pc_size c) skip c = Inr c"
proof -
  obtain n f x nm r d where c: "c = cloud n f x nm r d"
    using wf_is_cloud [OF assms] by blast
  have w: "0 \<le> n"
      "cols_ok (contains f kXYZs) n x" "cols_ok (contains f kNormals) n nm"
      "cols_ok (contains f kRGBs) n r" "cols_ok (has_descriptor f) n d"
    using assms unfolding c wf_cloud by simp_all
  show ?thesis
    unfolding c cloud_sel
    by (simp add: resize_cloud [OF w(1) cols_ok_len [OF w(2)] cols_ok_len [OF w(3)]
          cols_ok_len [OF w(4)] cols_ok_len [OF w(5)] w(1)] kept_same w)
qed

lemma ResolvePairFields_fields:
  "pc_fields a = pc_fields a' \<Longrightarrow> ResolvePairFields a b flds = ResolvePairFields a' b flds"
  by (simp add: ResolvePairFields_eq)

lemma SetFrom_first:
  assumes "wf this" "wf other" "allow_resize \<or> pc_size other = pc_size this"
  shows "\<exists>this1. (if allow_resize then resize e (pc_size other) False this
            else if pc_size other \<noteq> pc_size this then Inl RuntimeError else Inr this) = Inr this1 \<and>
           wf this1 \<and> pc_size this1 = pc_size other \<and> pc_fields this1 = pc_fields this \<and>
           (if allow_resize then resize e (pc_size other) False this = Inr this1 else this1 = this)"
proof (cases allow_resize)
  case True
  have "0 \<le> pc_size other" using assms(2) by (simp add: wf_def)
  from resize_wf [OF assms(1) this, of e False] True show ?thesis by auto
next
  case False
  then show ?thesis using assms by simp
qed

lemma SetFrom_size_mismatch:
  "pc_size other \<noteq> pc_size this \<Longrightarrow> SetFrom e other fields_in False this = Inl (RuntimeError, this)"
  by (simp add: SetFrom_def)

lemma SetFrom_fail_state:
  assumes "wf this" "wf other" "SetFrom e other fields_in allow_resize this = Inl (err, this')"
  shows "if allow_resize then resize e (pc_size other) False this = Inr this' else this' = this"
proof (cases "allow_resize \<or> pc_size other = pc_size this")
  case True
  from SetFrom_first [OF assms(1,2) True, of e] obtain this1 where
    f: "(if allow_resize then resize e (pc_size other) False this
         else if pc_size other \<noteq> pc_size this then Inl RuntimeError else Inr this) = Inr this1"
    and s: "if allow_resize then resize e (pc_size other) False this = Inr this1 else this1 = this"
    by blast
  have "this' = this1"
    using assms(3) unfolding SetFrom_def Let_def f
    by (auto split: sum.splits)
  with s show ?thesis by simp
next
  case False
  then show ?thesis using assms(3) by (simp add: SetFrom_size_mismatch)
qed

lemma SetFrom_resolve_fails:
  assumes "wf this" "wf other" "allow_resize \<or> pc_size other = pc_size this"
    "ResolvePairFields this other fields_in = Inl err"
  shows "\<exists>this'. SetFrom e other fields_in allow_resize this = Inl (err, this')"
proof -
  from SetFrom_first [OF assms(1,2,3), of e] obtain this1 where
    f: "(if allow_resize then resize e (pc_size other) False this
         else if pc_size other \<noteq> pc_size this then Inl RuntimeError else Inr this) = Inr this1"
    and s: "pc_fields this1 = pc_fields this"
    by blast
  have "ResolvePairFields this1 other fields_in = Inl err"
    using assms(4) ResolvePairFields_fields [OF s] by simp
  then show ?thesis
    unfolding SetFrom_def Let_def f by simp
qed

lemma SetFrom_ok:
  assumes w1: "wf this" and w2: "wf other" and a: "allow_resize \<or> pc_size other = pc_size this"
    and r: "ResolvePairFields this other fields_in = Inr fr"
  shows "\<exists>this1. (if allow_resize then resize e (pc_size other) False this = Inr this1
                    else this1 = this) \<and>
           SetFrom e other fields_in allow_resize this =
             Inr (cloud (pc_size other) (pc_fields this)
               (chosen (contains fr kXYZs) (st_xyzs (pc_storage other)) (st_xyzs (pc_storage this1)))
               (chosen (contains fr kNormals) (st_normals (pc_storage other))
                  (st_normals (pc_storage this1)))
               (chosen (contains fr kRGBs) (st_rgbs (pc_storage other)) (st_rgbs (pc_storage this1)))
               (chosen (has_descriptor fr) (st_descriptors (pc_storage other))
                  (st_descriptors (pc_storage this1))))"
proof -
  from SetFrom_first [OF w1 w2 a, of e] obtain this1 where
    f: "(if allow_resize then resize e (pc_size other) False this
         else if pc_size other \<noteq> pc_size this then Inl RuntimeError else Inr this) = Inr this1"
    and s: "pc_fields this1 = pc_fields this" "wf this1" "pc_size this1 = pc_size other"
      "if allow_resize then resize e (pc_size other) False this = Inr this1 else this1 = this"
    by blast
  have r1: "ResolvePairFields this1 other fields_in = Inr fr"
    using r ResolvePairFields_fields [OF s(1)] by simp
  obtain n1 f1 x nm rr d where t: "this1 = cloud n1 f1 x nm rr d"
    using wf_is_cloud [OF s(2)] by blast
  obtain n2 f2 x2 nm2 r2 d2 where o: "other = cloud n2 f2 x2 nm2 r2 d2"
    using wf_is_cloud [OF w2] by blast
  have n: "n1 = n2" using s(3) by (simp add: t o)
  have c: "contains f1 fr" "contains f2 fr"
    using ResolvePairFields_contains [OF r1] by (simp_all add: t o)
  have wt: "wf (cloud n2 f1 x nm rr d)" using s(2) t n by simp
  have wo: "wf (cloud n2 f2 x2 nm2 r2 d2)" using w2 o by simp
  have main: "SetFrom e other fields_in allow_resize this =
     Inr (cloud n2 f1 (chosen (contains fr kXYZs) x2 x)
       (chosen (contains fr kNormals) nm2 nm) (chosen (contains fr kRGBs) r2 rr)
       (chosen (has_descriptor fr) d2 d))"
    unfolding SetFrom_def Let_def f
    by (simp only: sum.case r1) (simp only: t o n copy_chain [OF c wt wo] sum.case)
  have e1: "pc_fields this = f1" "pc_size other = n2"
    using s(1) by (simp_all add: t o)
  have e2: "st_xyzs (pc_storage this1) = x" "st_normals (pc_storage this1) = nm"
    "st_rgbs (pc_storage this1) = rr" "st_descriptors (pc_storage this1) = d"
    by (simp_all add: t)
  have e3: "st_xyzs (pc_storage other) = x2" "st_normals (pc_storage other) = nm2"
    "st_rgbs (pc_storage other) = r2" "st_descriptors (pc_storage other) = d2"
    by (simp_all add: o)
  show ?thesis
    using s(4) by (intro exI [of _ this1]) (simp add: main e1 e2 e3)
qed

lemma contains_XN [simp]:
  "contains (base {XYZs, Normals}) kXYZs" "contains (base {XYZs, Normals}) kNormals"
  "\<not> contains (base {XYZs, Normals}) kRGBs" "\<not> has_descriptor (base {XYZs, Normals})"
  "\<not> contains (base {XYZs, Normals}) kInherit" "base {XYZs, Normals} \<noteq> kNone"
  "base {XYZs, Normals} \<noteq> kXYZs" "kXYZs \<noteq> base {XYZs, Normals}" "kXYZs \<noteq> kInherit"
  by (auto simp: contains_def kXYZs_def kNormals_def kRGBs_def kInherit_def kNone_def base_def
        has_descriptor_def)

lemma wf_cloudC: "wf cloudC"
  by (simp add: cloudC_def wf_cloud cols_ok_def)

lemma resize_cloudA_1: "resize env0 1 False cloudA = Inr (cloud 1 kXYZs [(1, 1, 1)] [] [] [])"
proof -
  have "resize env0 1 False cloudA = Inr (cloud 1 kXYZs
      (kept True (new_xyzs env0 False) 1 [(1, 1, 1), (2, 2, 2), (3, 3, 3)])
      (kept False (new_normals env0 False) 1 [])
      (kept False (new_rgbs env0 False) 1 [])
      (kept False (new_descriptors env0 kXYZs False) 1 []))"
    unfolding cloudA_def by (subst resize_cloud) simp_all
  then show ?thesis by (simp add: kept_def resized_def)
qed

lemma move_assign_mismatch:
  "pc_fields (s this) \<noteq> pc_fields (s other) \<Longrightarrow> move_assign e other this s = Inl RuntimeError"
  by (simp add: move_assign_def RequireExactFields_def HasExactFields_def)

lemma resize_zero_cloud:
  assumes "0 \<le> n"
  shows "resize e 0 False \<lparr>pc_size = n, pc_fields = f, pc_storage = storage n' f x nm r d\<rparr> =
     Inr (cloud 0 f (kept (contains f kXYZs) (uninit_xyzs e) 0 x)
            (kept (contains f kNormals) (uninit_normals e) 0 nm)
            (kept (contains f kRGBs) (uninit_rgbs e) 0 r)
            (kept (has_descriptor f)
               (\<lambda>i. map (uninit_descriptors e i) [0 ..< dsize (descriptor_type f)]) 0 d))"
  using assms by (simp add: resize_def Storage_resize_storage cloud_def)

lemma kept_zero: "cols_ok p n x \<Longrightarrow> kept p g 0 x = []"
  by (auto simp: kept_def resized_def cols_ok_def)

lemma resize_zero_wf:
  assumes "wf c"
  shows "resize e 0 False c = Inr (cloud 0 (pc_fields c) [] [] [] [])"
proof -
  obtain n f x nm r d where t: "c = cloud n f x nm r d"
    using wf_is_cloud [OF assms] by blast
  have w: "cols_ok (contains f kXYZs) n x" "cols_ok (contains f kNormals) n nm"
      "cols_ok (contains f kRGBs) n r" "cols_ok (has_descriptor f) n d" "0 \<le> n"
    using assms unfolding t wf_cloud by simp_all
  have "resize e 0 False (cloud n f x nm r d) = Inr (cloud 0 f [] [] [] [])"
    unfolding cloud_def [of n]
    by (simp add: resize_zero_cloud [OF w(5)] kept_zero [OF w(1)] kept_zero [OF w(2)]
          kept_zero [OF w(3)] kept_zero [OF w(4)])
  then show ?thesis by (simp add: t)
qed

lemma move_assign_ok:
  assumes "wf (s this)" "wf (s other)" "pc_fields (s this) = pc_fields (s other)"
    "this \<noteq> other"
  shows "move_assign e other this s =
     Inr (s(this := s other, other := cloud 0 (pc_fields (s other)) [] [] [] []))"
proof -
  obtain n f x nm r d where t: "s this = cloud n f x nm r d"
    using wf_is_cloud [OF assms(1)] by blast
  obtain n2 f2 x2 nm2 r2 d2 where o: "s other = cloud n2 f2 x2 nm2 r2 d2"
    using wf_is_cloud [OF assms(2)] by blast
  have f: "f2 = f" using assms(3) by (simp add: t o)
  have w: "cols_ok (contains f kXYZs) n x" "cols_ok (contains f kNormals) n nm"
      "cols_ok (contains f kRGBs) n r" "cols_ok (has_descriptor f) n d" "0 \<le> n2"
    using assms(1,2) unfolding t o wf_cloud by simp_all
  have a: "(cloud n f x nm r d)\<lparr>pc_size := n2, pc_storage := storage n2 f x2 nm2 r2 d2\<rparr> =
      cloud n2 f x2 nm2 r2 d2"
    by (simp add: cloud_def)
  have b: "(cloud n2 f x2 nm2 r2 d2)\<lparr>pc_storage := storage n f x nm r d\<rparr> =
      \<lparr>pc_size = n2, pc_fields = f, pc_storage = storage n f x nm r d\<rparr>"
    by (simp add: cloud_def)
  have d: "other \<noteq> this" using assms(4) by simp
  show ?thesis
    using assms(4) d
    by (simp add: move_assign_def RequireExactFields_def HasExactFields_def Let_def t o f a b
          resize_zero_cloud [OF w(5)] kept_zero [OF w(1)] kept_zero [OF w(2)]
          kept_zero [OF w(3)] kept_zero [OF w(4)])
qed

lemma move_assign_self:
  assumes "wf (s this)"
  shows "move_assign e this this s = Inr (s(this := cloud 0 (pc_fields (s this)) [] [] [] []))"
proof -
  have a: "(s this)\<lparr>pc_size := pc_size (s this), pc_storage := pc_storage (s this)\<rparr> = s this"
    by simp
  have b: "st_size (pc_storage (s this)) = pc_size (s this)"
    using assms by (simp add: wf_def)
  show ?thesis
    by (simp add: move_assign_def RequireExactFields_def HasExactFields_def Let_def b
          resize_zero_wf [OF assms])
qed

lemma wf_empty: "f \<noteq> kNone \<Longrightarrow> \<not> contains f kInherit \<Longrightarrow> wf (cloud 0 f [] [] [] [])"
  by (simp add: wf_cloud cols_ok_def)

lemma move_assign_fields:
  assumes "move_assign e other this s = Inr s'"
  shows "pc_fields (s' p) = pc_fields (s p)"
  using assms unfolding move_assign_def Let_def
  by (auto split: if_splits dest!: and_then_InrD dest: resize_fields)

lemma PointCloud_new_fields:
  assumes "PointCloud_new e n f skip = Inr c"
  shows "pc_fields c = f"
  using assms unfolding PointCloud_new_def Let_def
  by (auto split: if_splits dest!: and_then_InrD SetDefault_fields)

lemma PointCloud_move_fields:
  assumes "PointCloud_move e other = Inr (this', other')"
  shows "pc_fields this' = pc_fields other \<and> pc_fields other' = pc_fields other"
  using assms unfolding PointCloud_move_def Let_def
  by (auto split: if_splits dest!: and_then_InrD PointCloud_new_fields)

lemma copy_assign_mismatch:
  assumes "wf this" "wf other" "pc_fields other \<noteq> pc_fields this"
  shows "\<exists>this'. copy_assign e other this = Inl (RuntimeError, this') \<and>
           pc_fields this' = pc_fields this"
proof -
  have r: "ResolvePairFields this other kInherit = Inl RuntimeError"
    using assms(3) by (auto simp: ResolvePairFields_eq)
  from SetFrom_resolve_fails [OF assms(1,2) _ r, of True e]
  obtain this' where t: "SetFrom e other kInherit True this = Inl (RuntimeError, this')" by auto
  then show ?thesis
    using SetFrom_fields(1) [OF t] by (simp add: copy_assign_def)
qed

lemma chosen_wf: "cols_ok p n a \<Longrightarrow> cols_ok p n b \<Longrightarrow> chosen p b a = b"
  by (auto simp: chosen_def cols_ok_def)

lemma SetFrom_inherit_same:
  assumes w1: "wf this" and w2: "wf other" and f: "pc_fields this = pc_fields other"
    and n: "pc_size this = pc_size other"
  shows "SetFrom e other kInherit True this = Inr other"
proof -
  have r: "ResolvePairFields this other kInherit = Inr (pc_fields other)"
    using f by (simp add: ResolvePairFields_eq)
  from SetFrom_ok [OF w1 w2 _ r, of True e] obtain this1 where
    t: "resize e (pc_size other) False this = Inr this1"
    and s: "SetFrom e other kInherit True this =
             Inr (cloud (pc_size other) (pc_fields this)
               (chosen (contains (pc_fields other) kXYZs) (st_xyzs (pc_storage other))
                  (st_xyzs (pc_storage this1)))
               (chosen (contains (pc_fields other) kNormals) (st_normals (pc_storage other))
                  (st_normals (pc_storage this1)))
               (chosen (contains (pc_fields other) kRGBs) (st_rgbs (pc_storage other))
                  (st_rgbs (pc_storage this1)))
               (chosen (has_descriptor (pc_fields other)) (st_descriptors (pc_storage other))
                  (st_descriptors (pc_storage this1))))"
    by auto
  have "this1 = this" using t resize_same [OF w1, of e False] n by simp
  then have c1: "cols_ok (contains (pc_fields other) kXYZs) (pc_size other) (st_xyzs (pc_storage this1))"
    "cols_ok (contains (pc_fields other) kNormals) (pc_size other) (st_normals (pc_storage this1))"
    "cols_ok (contains (pc_fields other) kRGBs) (pc_size other) (st_rgbs (pc_storage this1))"
    "cols_ok (has_descriptor (pc_fields other)) (pc_size other) (st_descriptors (pc_storage this1))"
    using w1 f n
    by (simp_all add: wf_def has_xyzs_def has_normals_def has_rgbs_def has_descriptors_def)
  have c2: "cols_ok (contains (pc_fields other) kXYZs) (pc_size other) (st_xyzs (pc_storage other))"
    "cols_ok (contains (pc_fields other) kNormals) (pc_size other) (st_normals (pc_storage other))"
    "cols_ok (contains (pc_fields other) kRGBs) (pc_size other) (st_rgbs (pc_storage other))"
    "cols_ok (has_descriptor (pc_fields other)) (pc_size other) (st_descriptors (pc_storage other))"
    using w2
    by (simp_all add: wf_def has_xyzs_def has_normals_def has_rgbs_def has_descriptors_def)
  show ?thesis
    unfolding s f chosen_wf [OF c1(1) c2(1)] chosen_wf [OF c1(2) c2(2)]
      chosen_wf [OF c1(3) c2(3)] chosen_wf [OF c1(4) c2(4)]
    using wf_is_cloud [OF w2] by simp
qed

lemma ResolveFields_eq:
  "wf other \<Longrightarrow>
   (ResolveFields other cf = pc_fields other) = (cf = kInherit \<or> cf = pc_fields other)"
  by (auto simp: ResolveFields_def wf_def contains_refl)

lemma PointCloud_copy_eq:
  assumes w: "wf other"
  shows "PointCloud_copy e other cf =
    (if cf = kInherit \<or> cf = pc_fields other then Inr other else Inl RuntimeError)"
proof (cases "ResolveFields other cf = kNone \<or> contains (ResolveFields other cf) kInherit")
  case True
  then have "ResolveFields other cf \<noteq> pc_fields other" using w by (auto simp: wf_def)
  then have "\<not> (cf = kInherit \<or> cf = pc_fields other)" using ResolveFields_eq [OF w] by simp
  moreover have "PointCloud_copy e other cf = Inl RuntimeError"
    using True by (auto simp: PointCloud_copy_def PointCloud_new_def)
  ultimately show ?thesis by simp
next
  case False
  have "0 \<le> pc_size other" using w by (simp add: wf_def)
  with False PointCloud_new_wf [of "ResolveFields other cf" "pc_size other" e False]
  obtain c where c: "PointCloud_new e (pc_size other) (ResolveFields other cf) False = Inr c"
    "wf c" "pc_size c = pc_size other" "pc_fields c = ResolveFields other cf"
    by auto
  show ?thesis
  proof (cases "cf = kInherit \<or> cf = pc_fields other")
    case True
    then have "pc_fields c = pc_fields other" using c(4) ResolveFields_eq [OF w] by simp
    from SetFrom_inherit_same [OF c(2) w this c(3), of e] True show ?thesis
      by (simp add: PointCloud_copy_def c(1))
  next
    case no: False
    then have "pc_fields other \<noteq> pc_fields c" using c(4) ResolveFields_eq [OF w, of cf] by auto
    then have "ResolvePairFields c other kInherit = Inl RuntimeError"
      by (auto simp: ResolvePairFields_eq)
    from SetFrom_resolve_fails [OF c(2) w _ this, of True e] no show ?thesis
      by (auto simp: PointCloud_copy_def c(1))
  qed
qed

section \<open>The loop of \<^verbatim>\<open>Crop\<close>\<close>

lemma contains_kNormals [simp]:
  "\<not> contains kNormals kXYZs" "contains kNormals kNormals" "\<not> contains kNormals kRGBs"
  "\<not> has_descriptor kNormals" "\<not> contains kNormals kInherit" "kNormals \<noteq> kNone"
  by (simp_all add: contains_def kXYZs_def kNormals_def kRGBs_def kInherit_def kNone_def base_def
        has_descriptor_def)

lemma col_int: "k < length m \<Longrightarrow> col m (int k) = Inr (m ! k)"
  by (simp add: col_def)

lemma assign_col_int: "i < length m \<Longrightarrow> assign_col (int i) v m = Inr (m[i := v])"
  by (simp add: assign_col_def)

lemma crop_step_xyzs:
  assumes "contains f kXYZs" "i < length cx"
  shows "mutable_xyzs (assign_col (int i) v) (cloud n f cx cn cr cd) =
         Inr (cloud n f (cx[i := v]) cn cr cd)"
  using assms by (simp add: mutable_xyzs_cloud assign_col_int)

lemma crop_step_normals:
  assumes "contains f kNormals \<Longrightarrow> k < length N \<and> i < length cn"
  shows "(if contains f kNormals
          then and_then (normals (cloud n f X N R D)) (\<lambda>NN.
               and_then (col NN (int k)) (\<lambda>v.
                 mutable_normals (assign_col (int i) v) (cloud n f cx cn cr cd)))
          else Inr (cloud n f cx cn cr cd)) =
         Inr (cloud n f cx (upd (contains f kNormals) i (N ! k) cn) cr cd)"
  using assms
  by (cases "contains f kNormals")
     (simp_all add: accessors_cloud mutable_normals_cloud assign_col_int col_int upd_def)

lemma crop_step_rgbs:
  assumes "contains f kRGBs \<Longrightarrow> k < length R \<and> i < length cr"
  shows "(if contains f kRGBs
          then and_then (rgbs (cloud n f X N R D)) (\<lambda>RR.
               and_then (col RR (int k)) (\<lambda>v.
                 mutable_rgbs (assign_col (int i) v) (cloud n f cx cn cr cd)))
          else Inr (cloud n f cx cn cr cd)) =
         Inr (cloud n f cx cn (upd (contains f kRGBs) i (R ! k) cr) cd)"
  using assms
  by (cases "contains f kRGBs")
     (simp_all add: accessors_cloud mutable_rgbs_cloud assign_col_int col_int upd_def)

lemma crop_step_descriptors:
  assumes "has_descriptor f \<Longrightarrow> k < length D \<and> i < length cd"
  shows "(if has_descriptor f
          then and_then (descriptors (cloud n f X N R D)) (\<lambda>DD.
               and_then (col DD (int k)) (\<lambda>v.
                 mutable_descriptors (assign_col (int i) v) (cloud n f cx cn cr cd)))
          else Inr (cloud n f cx cn cr cd)) =
         Inr (cloud n f cx cn cr (upd (has_descriptor f) i (D ! k) cd))"
  using assms
  by (cases "has_descriptor f")
     (simp_all add: accessors_cloud mutable_descriptors_cloud assign_col_int col_int upd_def)

lemma Crop_body_cloud:
  assumes x: "contains f kXYZs" "k < length X" "i < length cx"
    and nn: "contains f kNormals \<Longrightarrow> k < length N \<and> i < length cn"
    and rr: "contains f kRGBs \<Longrightarrow> k < length R \<and> i < length cr"
    and dd: "has_descriptor f \<Longrightarrow> k < length D \<and> i < length cd"
  shows "Crop_body lower_xyz upper_xyz (cloud n f X N R D) (int k) (int i, cloud n f cx cn cr cd) =
     Inr (if in_box lower_xyz upper_xyz (X ! k)
          then (int i + 1, cloud n f (cx[i := X ! k])
                  (upd (contains f kNormals) i (N ! k) cn)
                  (upd (contains f kRGBs) i (R ! k) cr)
                  (upd (has_descriptor f) i (D ! k) cd))
          else (int i, cloud n f cx cn cr cd))"
proof (cases "in_box lower_xyz upper_xyz (X ! k)")
  case True
  then have b: "le3 lower_xyz (X ! k) \<and> le3 (X ! k) upper_xyz" by (simp add: in_box_def)
  show ?thesis
    unfolding Crop_body_def
    by (simp only: prod.case accessors_cloud(1) x(1) if_True and_then_Inr col_int [OF x(2)] b simp_thms
          crop_step_xyzs [OF x(1) x(3)] has_cloud crop_step_normals [OF nn]
          crop_step_rgbs [OF rr] crop_step_descriptors [OF dd] True)
next
  case False
  then have b: "\<not> (le3 lower_xyz (X ! k) \<and> le3 (X ! k) upper_xyz)" by (simp add: in_box_def)
  show ?thesis
    unfolding Crop_body_def
    by (simp only: prod.case accessors_cloud(1) x(1) if_True and_then_Inr col_int [OF x(2)] b simp_thms
          if_False False)
qed

lemma sel_end: "length X \<le> k \<Longrightarrow> sel lower_xyz upper_xyz X k = []"
  by (simp add: sel_def)

lemma sel_step:
  "k < length X \<Longrightarrow> sel lower_xyz upper_xyz X k =
     (if in_box lower_xyz upper_xyz (X ! k) then k # sel lower_xyz upper_xyz X (Suc k)
      else sel lower_xyz upper_xyz X (Suc k))"
  by (simp add: sel_def upt_conv_Cons)

lemma length_sel: "length (sel lower_xyz upper_xyz X k) \<le> length X - k"
proof -
  have "length (sel lower_xyz upper_xyz X k) \<le> length [k ..< length X]"
    unfolding sel_def by (rule length_filter_le)
  then show ?thesis by simp
qed

lemma placed_Nil: "placed p i [] m = m"
  by (simp add: placed_def)

lemma placed_upd:
  assumes "p \<Longrightarrow> i < length m"
  shows "placed p (Suc i) vals (upd p i v m) = placed p i (v # vals) m"
proof (cases p)
  case True
  then have i: "i < length m" using assms by simp
  have "take (Suc i) (m[i := v]) = take i m @ [v]"
    using i by (simp add: take_Suc_conv_app_nth)
  moreover have "drop (Suc i + length vals) (m[i := v]) = drop (Suc i + length vals) m"
    by simp
  ultimately show ?thesis using True by (simp add: placed_def upd_def)
next
  case False
  then show ?thesis by (simp add: placed_def upd_def)
qed

lemma length_upd: "length (upd p i v m) = length m"
  by (simp add: upd_def)

lemma Crop_loop_cloud:
  assumes x: "contains f kXYZs" "length X = n"
    and nn: "contains f kNormals \<Longrightarrow> length N = n"
    and rr: "contains f kRGBs \<Longrightarrow> length R = n"
    and dd: "has_descriptor f \<Longrightarrow> length D = n"
  shows "length cx = n \<Longrightarrow> (contains f kNormals \<Longrightarrow> length cn = n) \<Longrightarrow>
     (contains f kRGBs \<Longrightarrow> length cr = n) \<Longrightarrow> (has_descriptor f \<Longrightarrow> length cd = n) \<Longrightarrow>
     i \<le> k \<Longrightarrow> k \<le> n \<Longrightarrow>
     Crop_loop lower_xyz upper_xyz (cloud (int n) f X N R D) (int k)
       (int i, cloud (int n) f cx cn cr cd) =
     Inr (int (i + length (sel lower_xyz upper_xyz X k)),
          cloud (int n) f
            (placed True i (map (\<lambda>j. X ! j) (sel lower_xyz upper_xyz X k)) cx)
            (placed (contains f kNormals) i (map (\<lambda>j. N ! j) (sel lower_xyz upper_xyz X k)) cn)
            (placed (contains f kRGBs) i (map (\<lambda>j. R ! j) (sel lower_xyz upper_xyz X k)) cr)
            (placed (has_descriptor f) i (map (\<lambda>j. D ! j) (sel lower_xyz upper_xyz X k)) cd))"
proof (induction "n - k" arbitrary: k i cx cn cr cd)
  case 0
  then have k: "k = n" by simp
  show ?case
    by (subst Crop_loop.simps) (simp add: k sel_end x(2) placed_Nil)
next
  case (Suc m)
  then have k: "k < n" by simp
  have i: "i < n" using Suc.prems(5) k by simp
  note body = Crop_body_cloud [of f k X i cx N cn R cr D cd lower_xyz upper_xyz "int n"]
  have b: "Crop_body lower_xyz upper_xyz (cloud (int n) f X N R D) (int k)
       (int i, cloud (int n) f cx cn cr cd) =
     Inr (if in_box lower_xyz upper_xyz (X ! k)
          then (int i + 1, cloud (int n) f (cx[i := X ! k])
                  (upd (contains f kNormals) i (N ! k) cn)
                  (upd (contains f kRGBs) i (R ! k) cr)
                  (upd (has_descriptor f) i (D ! k) cd))
          else (int i, cloud (int n) f cx cn cr cd))"
    using x nn rr dd Suc.prems k i by (intro body) simp_all
  have m: "m = n - Suc k" using Suc.hyps(2) by simp
  have s1: "int k + 1 = int (Suc k)" "int i + 1 = int (Suc i)" by simp_all
  show ?case
  proof (cases "in_box lower_xyz upper_xyz (X ! k)")
    case True
    have ih: "Crop_loop lower_xyz upper_xyz (cloud (int n) f X N R D) (int (Suc k))
       (int (Suc i), cloud (int n) f (cx[i := X ! k])
                  (upd (contains f kNormals) i (N ! k) cn)
                  (upd (contains f kRGBs) i (R ! k) cr)
                  (upd (has_descriptor f) i (D ! k) cd)) =
       Inr (int (Suc i + length (sel lower_xyz upper_xyz X (Suc k))),
          cloud (int n) f
            (placed True (Suc i) (map (\<lambda>j. X ! j) (sel lower_xyz upper_xyz X (Suc k)))
               (cx[i := X ! k]))
            (placed (contains f kNormals) (Suc i)
               (map (\<lambda>j. N ! j) (sel lower_xyz upper_xyz X (Suc k)))
               (upd (contains f kNormals) i (N ! k) cn))
            (placed (contains f kRGBs) (Suc i)
               (map (\<lambda>j. R ! j) (sel lower_xyz upper_xyz X (Suc k)))
               (upd (contains f kRGBs) i (R ! k) cr))
            (placed (has_descriptor f) (Suc i)
               (map (\<lambda>j. D ! j) (sel lower_xyz upper_xyz X (Suc k)))
               (upd (has_descriptor f) i (D ! k) cd)))"
      using Suc.prems k by (intro Suc.hyps(1) [OF m]) (simp_all add: length_upd)
    have u: "cx[i := X ! k] = upd True i (X ! k) cx" by (simp add: upd_def)
    have p: "placed True (Suc i) vals (cx[i := X ! k]) = placed True i (X ! k # vals) cx" for vals
      unfolding u using i Suc.prems(1) by (intro placed_upd) simp
    have pn: "placed (contains f kNormals) (Suc i) vals (upd (contains f kNormals) i v cn) =
        placed (contains f kNormals) i (v # vals) cn" for vals v
      using i Suc.prems(2) by (intro placed_upd) simp
    have pr: "placed (contains f kRGBs) (Suc i) vals (upd (contains f kRGBs) i v cr) =
        placed (contains f kRGBs) i (v # vals) cr" for vals v
      using i Suc.prems(3) by (intro placed_upd) simp
    have pd: "placed (has_descriptor f) (Suc i) vals (upd (has_descriptor f) i v cd) =
        placed (has_descriptor f) i (v # vals) cd" for vals v
      using i Suc.prems(4) by (intro placed_upd) simp
    show ?thesis
      using k True
      by (subst Crop_loop.simps) (simp add: b s1 ih p pn pr pd sel_step [of k X] x(2) del: of_nat_Suc)
  next
    case False
    have ih: "Crop_loop lower_xyz upper_xyz (cloud (int n) f X N R D) (int (Suc k))
       (int i, cloud (int n) f cx cn cr cd) =
       Inr (int (i + length (sel lower_xyz upper_xyz X (Suc k))),
          cloud (int n) f
            (placed True i (map (\<lambda>j. X ! j) (sel lower_xyz upper_xyz X (Suc k))) cx)
            (placed (contains f kNormals) i
               (map (\<lambda>j. N ! j) (sel lower_xyz upper_xyz X (Suc k))) cn)
            (placed (contains f kRGBs) i
               (map (\<lambda>j. R ! j) (sel lower_xyz upper_xyz X (Suc k))) cr)
            (placed (has_descriptor f) i
               (map (\<lambda>j. D ! j) (sel lower_xyz upper_xyz X (Suc k))) cd))"
      using Suc.prems k by (intro Suc.hyps(1) [OF m]) simp_all
    show ?thesis
      using k False
      by (subst Crop_loop.simps) (simp add: b s1 ih sel_step [of k X] x(2) del: of_nat_Suc)
  qed
qed

lemma sel_0: "sel lower_xyz upper_xyz X 0 = kept_indices lower_xyz upper_xyz X"
  by (simp add: sel_def kept_indices_def)

lemma length_kept_indices: "length (kept_indices lower_xyz upper_xyz X) \<le> length X"
  using length_sel [of lower_xyz upper_xyz X 0] by (simp add: sel_0)

lemma kept_indices_bound: "i \<in> set (kept_indices lower_xyz upper_xyz X) \<Longrightarrow> i < length X"
  by (simp add: kept_indices_def)

lemma pick_filter:
  "pick True (kept_indices lower_xyz upper_xyz X) X = filter (in_box lower_xyz upper_xyz) X"
proof -
  have "filter (in_box lower_xyz upper_xyz) (map (\<lambda>i. X ! i) [0 ..< length X]) =
      map (\<lambda>i. X ! i) (filter (in_box lower_xyz upper_xyz \<circ> (\<lambda>i. X ! i)) [0 ..< length X])"
    by (rule filter_map)
  then show ?thesis
    by (simp add: pick_def kept_indices_def map_nth comp_def)
qed

lemma kept_placed:
  assumes "p \<Longrightarrow> length vals \<le> length m" "\<not> p \<Longrightarrow> m = []"
  shows "kept p g (int (length vals)) (placed p 0 vals m) = (if p then vals else [])"
  using assms by (cases p) (simp_all add: kept_def placed_def resized_def)

lemma length_placed:
  "(p \<Longrightarrow> i + length vals \<le> length m) \<Longrightarrow> length (placed p i vals m) = length m"
  by (cases p) (simp_all add: placed_def)

lemma length_kept_Nil: "length (kept p g (int n) []) = (if p then n else 0)"
  by (simp add: kept_def)

lemma Crop_cloud:
  assumes w: "wf (cloud n f X N R D)" and b: "le3 lower_xyz upper_xyz" and x: "contains f kXYZs"
  shows "Crop e lower_xyz upper_xyz (cloud n f X N R D) =
     Inr (cloud (int (length (kept_indices lower_xyz upper_xyz X))) f
            (pick True (kept_indices lower_xyz upper_xyz X) X)
            (pick (contains f kNormals) (kept_indices lower_xyz upper_xyz X) N)
            (pick (contains f kRGBs) (kept_indices lower_xyz upper_xyz X) R)
            (pick (has_descriptor f) (kept_indices lower_xyz upper_xyz X) D))"
proof -
  define ks where "ks = kept_indices lower_xyz upper_xyz X"
  define m where "m = length X"
  have wf': "f \<noteq> kNone" "\<not> contains f kInherit" "0 \<le> n"
    "cols_ok (contains f kXYZs) n X" "cols_ok (contains f kNormals) n N"
    "cols_ok (contains f kRGBs) n R" "cols_ok (has_descriptor f) n D"
    using w unfolding wf_cloud by simp_all
  have n: "n = int m" using wf'(4) x by (simp add: cols_ok_def m_def)
  have len: "length X = m" "contains f kNormals \<Longrightarrow> length N = m"
    "contains f kRGBs \<Longrightarrow> length R = m" "has_descriptor f \<Longrightarrow> length D = m"
    using wf'(4-7) x by (simp_all add: cols_ok_def n)
  have new: "PointCloud_new e (int m) f True =
      Inr (cloud (int m) f (kept (contains f kXYZs) (new_xyzs e True) (int m) [])
             (kept (contains f kNormals) (new_normals e True) (int m) [])
             (kept (contains f kRGBs) (new_rgbs e True) (int m) [])
             (kept (has_descriptor f) (new_descriptors e f True) (int m) []))"
    by (rule PointCloud_new_ok [OF wf'(1,2)]) simp
  have loop: "Crop_loop lower_xyz upper_xyz (cloud (int m) f X N R D) (int 0)
       (int 0, cloud (int m) f (kept (contains f kXYZs) (new_xyzs e True) (int m) [])
             (kept (contains f kNormals) (new_normals e True) (int m) [])
             (kept (contains f kRGBs) (new_rgbs e True) (int m) [])
             (kept (has_descriptor f) (new_descriptors e f True) (int m) [])) =
     Inr (int (0 + length (sel lower_xyz upper_xyz X 0)),
          cloud (int m) f
            (placed True 0 (map (\<lambda>j. X ! j) (sel lower_xyz upper_xyz X 0))
               (kept (contains f kXYZs) (new_xyzs e True) (int m) []))
            (placed (contains f kNormals) 0 (map (\<lambda>j. N ! j) (sel lower_xyz upper_xyz X 0))
               (kept (contains f kNormals) (new_normals e True) (int m) []))
            (placed (contains f kRGBs) 0 (map (\<lambda>j. R ! j) (sel lower_xyz upper_xyz X 0))
               (kept (contains f kRGBs) (new_rgbs e True) (int m) []))
            (placed (has_descriptor f) 0 (map (\<lambda>j. D ! j) (sel lower_xyz upper_xyz X 0))
               (kept (has_descriptor f) (new_descriptors e f True) (int m) [])))"
    using x len by (intro Crop_loop_cloud) (simp_all add: length_kept_Nil)
  have kl: "length ks \<le> m" unfolding ks_def m_def by (rule length_kept_indices)
  have lp: "p \<Longrightarrow> length (placed p 0 (map h ks) (kept p g (int m) [])) = m" for p h g
    using kl by (subst length_placed) (simp_all add: length_kept_Nil)
  have rs: "resize e (int (length ks)) False
      (cloud (int m) f
            (placed True 0 (map (\<lambda>j. X ! j) ks)
               (kept (contains f kXYZs) (new_xyzs e True) (int m) []))
            (placed (contains f kNormals) 0 (map (\<lambda>j. N ! j) ks)
               (kept (contains f kNormals) (new_normals e True) (int m) []))
            (placed (contains f kRGBs) 0 (map (\<lambda>j. R ! j) ks)
               (kept (contains f kRGBs) (new_rgbs e True) (int m) []))
            (placed (has_descriptor f) 0 (map (\<lambda>j. D ! j) ks)
               (kept (has_descriptor f) (new_descriptors e f True) (int m) []))) =
      Inr (cloud (int (length ks)) f
        (kept (contains f kXYZs) (new_xyzs e False) (int (length ks))
           (placed True 0 (map (\<lambda>j. X ! j) ks)
               (kept (contains f kXYZs) (new_xyzs e True) (int m) [])))
        (kept (contains f kNormals) (new_normals e False) (int (length ks))
           (placed (contains f kNormals) 0 (map (\<lambda>j. N ! j) ks)
               (kept (contains f kNormals) (new_normals e True) (int m) [])))
        (kept (contains f kRGBs) (new_rgbs e False) (int (length ks))
           (placed (contains f kRGBs) 0 (map (\<lambda>j. R ! j) ks)
               (kept (contains f kRGBs) (new_rgbs e True) (int m) [])))
        (kept (has_descriptor f) (new_descriptors e f False) (int (length ks))
           (placed (has_descriptor f) 0 (map (\<lambda>j. D ! j) ks)
               (kept (has_descriptor f) (new_descriptors e f True) (int m) []))))"
    using x by (intro resize_cloud) (simp_all add: lp)
  have kp: "kept p g' (int (length ks)) (placed p 0 (map h ks) (kept p g (int m) [])) =
      (if p then map h ks else [])" for p h g g'
    using kept_placed [of p "map h ks" "kept p g (int m) []" g'] kl
    by (simp add: length_kept_Nil kept_def)
  have x': "contains f kXYZs = True" using x by simp
  show ?thesis
    unfolding Crop_def
    using b x loop
    by (simp add: n new sel_0 ks_def [symmetric] rs [unfolded x'] kp pick_def del: upt_0)
qed

lemma rows_pick:
  assumes "list_all (\<lambda>c. length c = k) D" "\<And>i. i \<in> set idx \<Longrightarrow> p \<Longrightarrow> i < length D"
  shows "list_all (\<lambda>c. length c = k) (pick p idx D)"
  using assms by (auto simp: pick_def list_all_iff)

lemma Crop_spec_cloud:
  "Crop_spec lower_xyz upper_xyz (cloud n f X N R D) =
     cloud (int (length (kept_indices lower_xyz upper_xyz X))) f
       (pick (contains f kXYZs) (kept_indices lower_xyz upper_xyz X) X)
       (pick (contains f kNormals) (kept_indices lower_xyz upper_xyz X) N)
       (pick (contains f kRGBs) (kept_indices lower_xyz upper_xyz X) R)
       (pick (has_descriptor f) (kept_indices lower_xyz upper_xyz X) D)"
  by (simp add: Crop_spec_def Let_def)

lemma wf_Crop_spec:
  assumes w: "wf (cloud n f X N R D)" and x: "contains f kXYZs"
  shows "wf (Crop_spec lower_xyz upper_xyz (cloud n f X N R D))"
proof -
  have wf': "f \<noteq> kNone" "\<not> contains f kInherit" "0 \<le> n"
    "cols_ok (contains f kXYZs) n X" "cols_ok (has_descriptor f) n D"
    "list_all (\<lambda>c. length c = dsize (descriptor_type f)) D"
    using w unfolding wf_cloud by simp_all
  have "has_descriptor f \<Longrightarrow> length D = length X"
    using wf'(4,5) x by (simp add: cols_ok_def)
  then have "list_all (\<lambda>c. length c = dsize (descriptor_type f))
      (pick (has_descriptor f) (kept_indices lower_xyz upper_xyz X) D)"
    using kept_indices_bound [of _ lower_xyz upper_xyz X]
    by (intro rows_pick [OF wf'(6)]) simp
  then show ?thesis
    unfolding Crop_spec_cloud wf_cloud using wf'(1,2)
    by (simp add: cols_ok_def pick_def)
qed

lemma wf_cloudD: "wf cloudD"
  by (simp add: cloudD_def wf_cloud cols_ok_def)

section \<open>The loops of \<^verbatim>\<open>VoxelizedDownSample\<close>\<close>

lemma for_each_inv:
  assumes "I s" "\<And>i s. i \<in> set xs \<Longrightarrow> I s \<Longrightarrow> \<exists>s'. body i s = Inr s' \<and> I s'"
  shows "\<exists>s'. for_each xs body s = Inr s' \<and> I s'"
  using assms
proof (induction xs arbitrary: s)
  case Nil
  then show ?case by simp
next
  case (Cons i xs)
  from Cons.prems(2) [of i s] Cons.prems(1) obtain s1 where s1: "body i s = Inr s1" "I s1"
    by auto
  from Cons.IH [OF s1(2)] Cons.prems(2) obtain s' where "for_each xs body s1 = Inr s'" "I s'"
    by auto
  then show ?case using s1 by simp
qed

lemma indices_range: "i \<in> set (indices n) \<Longrightarrow> 0 \<le> i \<and> i < n"
  by (auto simp: indices_def)

lemma xyz_cloud:
  assumes "contains f kXYZs" "0 \<le> i" "i < int (length X)"
  shows "xyz (cloud n f X N R D) i = Inr (X ! nat i)"
  using assms by (simp add: xyz_def accessors_cloud col_def)

lemma in_range_emplace:
  "in_range n m \<Longrightarrow> 0 \<le> i \<Longrightarrow> i < n \<Longrightarrow> in_range n (emplace_back_at key i m)"
  by (induction m) (auto simp: in_range_def)

lemma lower_loop_ok:
  assumes "contains f kXYZs" "int (length X) = n"
  shows "\<exists>lower_xyz. for_each (indices n) (lower_step ar (cloud n f X N R D)) l0 = Inr lower_xyz"
proof -
  have "\<exists>s'. for_each (indices n) (lower_step ar (cloud n f X N R D)) l0 = Inr s' \<and> True"
  proof (rule for_each_inv)
    fix i s assume "i \<in> set (indices n)"
    then have "0 \<le> i" "i < int (length X)" using assms(2) indices_range by auto
    then show "\<exists>s'. lower_step ar (cloud n f X N R D) i s = Inr s' \<and> True"
      by (simp add: lower_step_def xyz_cloud [OF assms(1)] del: split_paired_Ex)
  qed simp
  then show ?thesis by simp
qed

lemma voxel_loop_ok:
  assumes "contains f kXYZs" "int (length X) = n"
  shows "\<exists>voxel_map. for_each (indices n) (voxel_step ar voxel_size lower_xyz (cloud n f X N R D)) []
            = Inr voxel_map \<and> in_range n voxel_map"
proof (rule for_each_inv)
  show "in_range n []" by (simp add: in_range_def)
next
  fix i s assume i: "i \<in> set (indices n)" and s: "in_range n s"
  then have r: "0 \<le> i" "i < n" using indices_range by auto
  then have "i < int (length X)" using assms(2) by simp
  then show "\<exists>s'. voxel_step ar voxel_size lower_xyz (cloud n f X N R D) i s = Inr s' \<and> in_range n s'"
    using r s by (simp add: voxel_step_def xyz_cloud [OF assms(1)] in_range_emplace)
qed

lemma col_nat: "0 \<le> i \<Longrightarrow> i < int (length m) \<Longrightarrow> col m i = Inr (m ! nat i)"
  by (simp add: col_def)

lemma acc_step_normals:
  assumes "contains f kNormals \<Longrightarrow> 0 \<le> i \<and> i < int (length N)"
  shows "(if contains f kNormals
          then and_then (normals (cloud n f X N R D)) (\<lambda>NN.
               and_then (col NN i) (\<lambda>v. if finite3 ar v then Inr (g v) else Inr s))
          else Inr s) =
         Inr (if contains f kNormals \<and> finite3 ar (N ! nat i) then g (N ! nat i) else s)"
  using assms by (cases "contains f kNormals") (simp_all add: accessors_cloud col_nat)

lemma acc_step_rgbs:
  assumes "contains f kRGBs \<Longrightarrow> 0 \<le> i \<and> i < int (length R)"
  shows "(if contains f kRGBs
          then and_then (rgbs (cloud n f X N R D)) (\<lambda>RR.
               and_then (col RR i) (\<lambda>v. Inr (g v)))
          else Inr s) =
         Inr (if contains f kRGBs then g (R ! nat i) else s)"
  using assms by (cases "contains f kRGBs") (simp_all add: accessors_cloud col_nat)

lemma acc_step_descriptors:
  assumes "has_descriptor f \<Longrightarrow> 0 \<le> i \<and> i < int (length D)"
  shows "(if has_descriptor f
          then and_then (descriptors (cloud n f X N R D)) (\<lambda>DD.
               and_then (col DD i) (\<lambda>v. if list_all (isFinite ar) v then Inr (g v) else Inr s))
          else Inr s) =
         Inr (if has_descriptor f \<and> list_all (isFinite ar) (D ! nat i) then g (D ! nat i) else s)"
  using assms by (cases "has_descriptor f") (simp_all add: accessors_cloud col_nat)

lemma accumulate_step_cloud:
  assumes x: "contains f kXYZs" "0 \<le> i" "i < int (length X)"
    and nn: "contains f kNormals \<Longrightarrow> 0 \<le> i \<and> i < int (length N)"
    and rr: "contains f kRGBs \<Longrightarrow> 0 \<le> i \<and> i < int (length R)"
    and dd: "has_descriptor f \<Longrightarrow> 0 \<le> i \<and> i < int (length D)"
  shows "accumulate_step ar (cloud n f X N R D) i s = Inr (add_point ar (cloud n f X N R D) i s)"
  unfolding accumulate_step_def add_point_def add_normal_def add_rgb_def add_descriptor_def Let_def
  by (simp only: accessors_cloud(1) x(1) if_True and_then_Inr col_nat [OF x(2,3)] has_cloud
        acc_step_normals [OF nn] acc_step_rgbs [OF rr] acc_step_descriptors [OF dd]
        cloud_sel storage_sel)

lemma for_each_fold:
  assumes "\<And>i s. i \<in> set xs \<Longrightarrow> body i s = Inr (g i s)"
  shows "for_each xs body s = Inr (fold g xs s)"
  using assms by (induction xs arbitrary: s) simp_all

lemma accumulate_loop:
  assumes w: "wf (cloud n f X N R D)" and x: "contains f kXYZs"
    and b: "list_all (\<lambda>i. 0 \<le> i \<and> i < n) b"
  shows "for_each b (accumulate_step ar (cloud n f X N R D)) s =
         Inr (fold (add_point ar (cloud n f X N R D)) b s)"
proof (rule for_each_fold)
  fix i s assume "i \<in> set b"
  then have i: "0 \<le> i" "i < n" using b by (auto simp: list_all_iff)
  have wf': "cols_ok (contains f kXYZs) n X" "cols_ok (contains f kNormals) n N"
    "cols_ok (contains f kRGBs) n R" "cols_ok (has_descriptor f) n D"
    using w unfolding wf_cloud by simp_all
  show "accumulate_step ar (cloud n f X N R D) i s = Inr (add_point ar (cloud n f X N R D) i s)"
    using i wf' x by (intro accumulate_step_cloud) (simp_all add: cols_ok_def)
qed

lemma write_normals:
  assumes "contains f kNormals \<Longrightarrow> j < length cn"
  shows "(if contains f kNormals
          then mutable_normals (assign_col (int j) v) (cloud n f cx cn cr cd)
          else Inr (cloud n f cx cn cr cd)) =
         Inr (cloud n f cx (upd (contains f kNormals) j v cn) cr cd)"
  using assms
  by (cases "contains f kNormals") (simp_all add: mutable_normals_cloud assign_col_int upd_def)

lemma write_rgbs:
  assumes "contains f kRGBs \<Longrightarrow> j < length cr"
  shows "(if contains f kRGBs
          then mutable_rgbs (assign_col (int j) v) (cloud n f cx cn cr cd)
          else Inr (cloud n f cx cn cr cd)) =
         Inr (cloud n f cx cn (upd (contains f kRGBs) j v cr) cd)"
  using assms
  by (cases "contains f kRGBs") (simp_all add: mutable_rgbs_cloud assign_col_int upd_def)

lemma write_descriptors:
  assumes "has_descriptor f \<Longrightarrow> j < length cd"
  shows "(if has_descriptor f
          then mutable_descriptors (assign_col (int j) v) (cloud n f cx cn cr cd)
          else Inr (cloud n f cx cn cr cd)) =
         Inr (cloud n f cx cn cr (upd (has_descriptor f) j v cd))"
  using assms
  by (cases "has_descriptor f") (simp_all add: mutable_descriptors_cloud assign_col_int upd_def)

lemma sample_step_cloud:
  assumes w: "wf (cloud n f X N R D)" and x: "contains f kXYZs"
    and b: "list_all (\<lambda>i. 0 \<le> i \<and> i < n) b"
    and j: "j < length cx" "contains f kNormals \<Longrightarrow> j < length cn"
      "contains f kRGBs \<Longrightarrow> j < length cr" "has_descriptor f \<Longrightarrow> j < length cd"
  shows "sample_step ar (cloud n f X N R D) (key, b) (int j, cloud m f cx cn cr cd) =
     Inr (int j + 1,
          cloud m f (cx[j := out_xyz ar b (bucket_sums ar (cloud n f X N R D) b)])
            (upd (contains f kNormals) j (out_normal ar (bucket_sums ar (cloud n f X N R D) b)) cn)
            (upd (contains f kRGBs) j (out_rgb ar b (bucket_sums ar (cloud n f X N R D) b)) cr)
            (upd (has_descriptor f) j
               (out_descriptor ar (bucket_sums ar (cloud n f X N R D) b)) cd))"
proof -
  have a: "for_each b (accumulate_step ar (cloud n f X N R D)) (zero_sums ar (cloud n f X N R D)) =
      Inr (bucket_sums ar (cloud n f X N R D) b)"
    unfolding bucket_sums_def by (rule accumulate_loop [OF w x b])
  show ?thesis
    unfolding sample_step_def
    by (simp only: prod.case a [unfolded zero_sums_def has_cloud] and_then_Inr
          crop_step_xyzs [OF x j(1)] has_cloud write_normals [OF j(2)] write_rgbs [OF j(3)]
          write_descriptors [OF j(4)]
          out_xyz_def [symmetric] out_normal_def [symmetric] out_rgb_def [symmetric]
          out_descriptor_def [symmetric])
qed

lemma sample_loop_cloud:
  assumes w: "wf (cloud n f X N R D)" and x: "contains f kXYZs"
  shows "in_range n entries \<Longrightarrow> j + length entries \<le> length cx \<Longrightarrow>
     (contains f kNormals \<Longrightarrow> length cn = length cx) \<Longrightarrow>
     (contains f kRGBs \<Longrightarrow> length cr = length cx) \<Longrightarrow>
     (has_descriptor f \<Longrightarrow> length cd = length cx) \<Longrightarrow>
     for_each entries (sample_step ar (cloud n f X N R D)) (int j, cloud m f cx cn cr cd) =
     Inr (int (j + length entries),
          cloud m f
            (placed True j (map (voxel_xyz ar (cloud n f X N R D)) entries) cx)
            (placed (contains f kNormals) j
               (map (voxel_normal ar (cloud n f X N R D)) entries) cn)
            (placed (contains f kRGBs) j (map (voxel_rgb ar (cloud n f X N R D)) entries) cr)
            (placed (has_descriptor f) j
               (map (voxel_descriptor ar (cloud n f X N R D)) entries) cd))"
proof (induction entries arbitrary: j cx cn cr cd)
  case Nil
  then show ?case by (simp add: placed_Nil)
next
  case (Cons entry entries)
  obtain key b where e: "entry = (key, b)" by (cases entry)
  have b: "list_all (\<lambda>i. 0 \<le> i \<and> i < n) b" and r: "in_range n entries"
    using Cons.prems(1) by (simp_all add: in_range_def e)
  have j: "j < length cx" using Cons.prems(2) by simp
  have step: "sample_step ar (cloud n f X N R D) entry (int j, cloud m f cx cn cr cd) =
     Inr (int (Suc j),
          cloud m f (cx[j := voxel_xyz ar (cloud n f X N R D) entry])
            (upd (contains f kNormals) j (voxel_normal ar (cloud n f X N R D) entry) cn)
            (upd (contains f kRGBs) j (voxel_rgb ar (cloud n f X N R D) entry) cr)
            (upd (has_descriptor f) j (voxel_descriptor ar (cloud n f X N R D) entry) cd))"
    unfolding e voxel_xyz_def voxel_normal_def voxel_rgb_def voxel_descriptor_def snd_conv
    using sample_step_cloud [OF w x b, of j cx cn cr cd ar key m] j Cons.prems(3,4,5)
    by simp
  have ih: "for_each entries (sample_step ar (cloud n f X N R D))
       (int (Suc j), cloud m f (cx[j := voxel_xyz ar (cloud n f X N R D) entry])
            (upd (contains f kNormals) j (voxel_normal ar (cloud n f X N R D) entry) cn)
            (upd (contains f kRGBs) j (voxel_rgb ar (cloud n f X N R D) entry) cr)
            (upd (has_descriptor f) j (voxel_descriptor ar (cloud n f X N R D) entry) cd)) =
     Inr (int (Suc j + length entries),
          cloud m f
            (placed True (Suc j) (map (voxel_xyz ar (cloud n f X N R D)) entries)
               (cx[j := voxel_xyz ar (cloud n f X N R D) entry]))
            (placed (contains f kNormals) (Suc j)
               (map (voxel_normal ar (cloud n f X N R D)) entries)
               (upd (contains f kNormals) j (voxel_normal ar (cloud n f X N R D) entry) cn))
            (placed (contains f kRGBs) (Suc j) (map (voxel_rgb ar (cloud n f X N R D)) entries)
               (upd (contains f kRGBs) j (voxel_rgb ar (cloud n f X N R D) entry) cr))
            (placed (has_descriptor f) (Suc j)
               (map (voxel_descriptor ar (cloud n f X N R D)) entries)
               (upd (has_descriptor f) j (voxel_descriptor ar (cloud n f X N R D) entry) cd)))"
    using Cons.prems(2,3,4,5) by (intro Cons.IH [OF r]) (simp_all add: length_upd)
  have u: "cx[j := v] = upd True j v cx" for v by (simp add: upd_def)
  have p: "placed True (Suc j) vals (cx[j := v]) = placed True j (v # vals) cx" for vals v
    unfolding u using j by (intro placed_upd) simp
  have pn: "placed (contains f kNormals) (Suc j) vals (upd (contains f kNormals) j v cn) =
      placed (contains f kNormals) j (v # vals) cn" for vals v
    using j Cons.prems(3) by (intro placed_upd) simp
  have pr: "placed (contains f kRGBs) (Suc j) vals (upd (contains f kRGBs) j v cr) =
      placed (contains f kRGBs) j (v # vals) cr" for vals v
    using j Cons.prems(4) by (intro placed_upd) simp
  have pd: "placed (has_descriptor f) (Suc j) vals (upd (has_descriptor f) j v cd) =
      placed (has_descriptor f) j (v # vals) cd" for vals v
    using j Cons.prems(5) by (intro placed_upd) simp
  show ?case
    by (simp add: step ih p pn pr pd del: of_nat_Suc)
qed

lemma placed_full:
  assumes "p \<Longrightarrow> length vals = length m" "\<not> p \<Longrightarrow> m = []"
  shows "placed p 0 vals m = (if p then vals else [])"
  using assms by (cases p) (simp_all add: placed_def)

lemma in_range_subset: "in_range n m \<Longrightarrow> set m' \<subseteq> set m \<Longrightarrow> in_range n m'"
  by (auto simp: in_range_def list_all_iff)

lemma VoxelizedDownSample_cloud:
  assumes w: "wf (cloud n f X N R D)" and x: "contains f kXYZs" and v: "positive ar voxel_size"
    and o: "rearranges ar"
  shows "VoxelizedDownSample e ar voxel_size (cloud n f X N R D) =
     Inr (cloud (int (length (voxels ar voxel_size (cloud n f X N R D)))) f
            (map (voxel_xyz ar (cloud n f X N R D)) (voxels ar voxel_size (cloud n f X N R D)))
            (if contains f kNormals
             then map (voxel_normal ar (cloud n f X N R D))
                    (voxels ar voxel_size (cloud n f X N R D)) else [])
            (if contains f kRGBs
             then map (voxel_rgb ar (cloud n f X N R D))
                    (voxels ar voxel_size (cloud n f X N R D)) else [])
            (if has_descriptor f
             then map (voxel_descriptor ar (cloud n f X N R D))
                    (voxels ar voxel_size (cloud n f X N R D)) else [])) \<and>
     in_range n (voxels ar voxel_size (cloud n f X N R D))"
proof -
  let ?pc = "cloud n f X N R D"
  have wf': "f \<noteq> kNone" "\<not> contains f kInherit" "0 \<le> n" "cols_ok (contains f kXYZs) n X"
    using w unfolding wf_cloud by simp_all
  have len: "int (length X) = n" using wf'(4) x by (simp add: cols_ok_def)
  obtain lower_xyz where l: "for_each (indices n) (lower_step ar ?pc) (constant3 (infinity ar)) =
      Inr lower_xyz"
    using lower_loop_ok [OF x len, where ar = ar and N = N and R = R and D = D
        and ?l0.0 = "constant3 (infinity ar)"] by blast
  have lo: "lower_of ar ?pc = lower_xyz" by (simp add: lower_of_def l)
  obtain vm where vm: "for_each (indices n) (voxel_step ar voxel_size lower_xyz ?pc) [] = Inr vm"
      and r: "in_range n vm"
    using voxel_loop_ok [OF x len, where ar = ar and N = N and R = R and D = D
        and voxel_size = voxel_size and lower_xyz = lower_xyz] by blast
  have vmo: "voxel_map_of ar voxel_size ?pc = vm" by (simp add: voxel_map_of_def lo vm)
  define vox where "vox = hash_order ar vm"
  have vx: "voxels ar voxel_size ?pc = vox" by (simp add: voxels_def vmo vox_def)
  have lv: "length vox = length vm" and sv: "set vox = set vm"
    using o by (simp_all add: rearranges_def vox_def)
  have rv: "in_range n vox" using in_range_subset [OF r] sv by simp
  define k where "k = length vm"
  have new: "PointCloud_new e (int k) f False =
      Inr (cloud (int k) f (kept (contains f kXYZs) (new_xyzs e False) (int k) [])
             (kept (contains f kNormals) (new_normals e False) (int k) [])
             (kept (contains f kRGBs) (new_rgbs e False) (int k) [])
             (kept (has_descriptor f) (new_descriptors e f False) (int k) []))"
    by (rule PointCloud_new_ok [OF wf'(1,2)]) simp
  have loop: "for_each vox (sample_step ar ?pc)
       (int 0, cloud (int k) f (kept (contains f kXYZs) (new_xyzs e False) (int k) [])
             (kept (contains f kNormals) (new_normals e False) (int k) [])
             (kept (contains f kRGBs) (new_rgbs e False) (int k) [])
             (kept (has_descriptor f) (new_descriptors e f False) (int k) [])) =
     Inr (int (0 + length vox),
          cloud (int k) f
            (placed True 0 (map (voxel_xyz ar ?pc) vox)
               (kept (contains f kXYZs) (new_xyzs e False) (int k) []))
            (placed (contains f kNormals) 0 (map (voxel_normal ar ?pc) vox)
               (kept (contains f kNormals) (new_normals e False) (int k) []))
            (placed (contains f kRGBs) 0 (map (voxel_rgb ar ?pc) vox)
               (kept (contains f kRGBs) (new_rgbs e False) (int k) []))
            (placed (has_descriptor f) 0 (map (voxel_descriptor ar ?pc) vox)
               (kept (has_descriptor f) (new_descriptors e f False) (int k) [])))"
    using x lv
    by (intro sample_loop_cloud [OF w x rv]) (simp_all add: length_kept_Nil k_def)
  have pf: "placed p 0 (map h vox) (kept p g (int k) []) = (if p then map h vox else [])" for p h g
    using lv by (intro placed_full) (simp_all add: length_kept_Nil k_def kept_def)
  have x': "contains f kXYZs = True" using x by simp
  have loop': "for_each vox (sample_step ar ?pc)
       (0, cloud (int k) f (kept (contains f kXYZs) (new_xyzs e False) (int k) [])
             (kept (contains f kNormals) (new_normals e False) (int k) [])
             (kept (contains f kRGBs) (new_rgbs e False) (int k) [])
             (kept (has_descriptor f) (new_descriptors e f False) (int k) [])) =
     Inr (int (length vox),
          cloud (int k) f (map (voxel_xyz ar ?pc) vox)
            (if contains f kNormals then map (voxel_normal ar ?pc) vox else [])
            (if contains f kRGBs then map (voxel_rgb ar ?pc) vox else [])
            (if has_descriptor f then map (voxel_descriptor ar ?pc) vox else []))"
    using loop unfolding pf x' by simp
  have "VoxelizedDownSample e ar voxel_size ?pc =
     Inr (cloud (int (length vox)) f (map (voxel_xyz ar ?pc) vox)
            (if contains f kNormals then map (voxel_normal ar ?pc) vox else [])
            (if contains f kRGBs then map (voxel_rgb ar ?pc) vox else [])
            (if has_descriptor f then map (voxel_descriptor ar ?pc) vox else []))"
    unfolding VoxelizedDownSample_def
    by (simp only: has_cloud x' v cloud_sel not_True_eq_False if_False l and_then_Inr vm
          k_def [symmetric] new [unfolded x'] vox_def [symmetric] loop' [unfolded x'] prod.case
          lv [unfolded k_def [symmetric]])
  then show ?thesis using rv unfolding vx by simp
qed

lemma add_other [simp]:
  "sum_normal (add_descriptor ar p v s) = sum_normal s"
  "num_normals (add_descriptor ar p v s) = num_normals s"
  "sum_normal (add_rgb ar p c s) = sum_normal s"
  "num_normals (add_rgb ar p c s) = num_normals s"
  "sum_descriptor (add_rgb ar p c s) = sum_descriptor s"
  "num_descriptors (add_rgb ar p c s) = num_descriptors s"
  "sum_descriptor (add_normal ar p w s) = sum_descriptor s"
  "num_descriptors (add_normal ar p w s) = num_descriptors s"
  by (simp_all add: add_descriptor_def add_rgb_def add_normal_def)

lemma add_point_normal:
  assumes "\<not> finite3 ar (st_normals (pc_storage this) ! nat i)"
  shows "sum_normal (add_point ar this i s) = sum_normal s \<and>
         num_normals (add_point ar this i s) = num_normals s"
  using assms by (simp add: add_point_def) (simp add: add_normal_def)

lemma add_point_descriptor:
  assumes "\<not> list_all (isFinite ar) (st_descriptors (pc_storage this) ! nat i)"
  shows "sum_descriptor (add_point ar this i s) = sum_descriptor s \<and>
         num_descriptors (add_point ar this i s) = num_descriptors s"
  using assms by (simp add: add_point_def) (simp add: add_descriptor_def)

lemma fold_no_finite_normal:
  assumes "\<forall>i \<in> set b. \<not> finite3 ar (st_normals (pc_storage this) ! nat i)"
  shows "sum_normal (fold (add_point ar this) b s) = sum_normal s \<and>
         num_normals (fold (add_point ar this) b s) = num_normals s"
  using assms by (induction b arbitrary: s) (simp_all add: add_point_normal)

lemma fold_no_finite_descriptor:
  assumes "\<forall>i \<in> set b. \<not> list_all (isFinite ar) (st_descriptors (pc_storage this) ! nat i)"
  shows "sum_descriptor (fold (add_point ar this) b s) = sum_descriptor s \<and>
         num_descriptors (fold (add_point ar this) b s) = num_descriptors s"
  using assms by (induction b arbitrary: s) (simp_all add: add_point_descriptor)

lemma voxel_normal_zero_count:
  assumes "\<forall>i \<in> set (snd entry). \<not> finite3 ar (st_normals (pc_storage this) ! nat i)"
  shows "voxel_normal ar this entry = constant3 (cast_d_t ar (over ar (zero_d ar) 0))"
  using fold_no_finite_normal [OF assms, of "zero_sums ar this"]
  by (simp add: voxel_normal_def out_normal_def bucket_sums_def zero_sums_def constant3_def)

lemma voxel_descriptor_zero_count:
  assumes "\<forall>i \<in> set (snd entry). \<not> list_all (isFinite ar) (st_descriptors (pc_storage this) ! nat i)"
    "has_descriptors this"
  shows "voxel_descriptor ar this entry =
     replicate (descriptor_rows (pc_storage this)) (cast_d_t ar (over ar (zero_d ar) 0))"
  using fold_no_finite_descriptor [OF assms(1), of "zero_sums ar this"] assms(2)
  by (simp add: voxel_descriptor_def out_descriptor_def bucket_sums_def zero_sums_def)

lemma in_range_nth:
  assumes "in_range n m" "j < length m"
  shows "snd (m ! j) \<noteq> []" "\<And>i. i \<in> set (snd (m ! j)) \<Longrightarrow> 0 \<le> i \<and> i < n"
proof -
  have "m ! j \<in> set m" using assms(2) by simp
  then have a: "snd (m ! j) \<noteq> [] \<and> list_all (\<lambda>i. 0 \<le> i \<and> i < n) (snd (m ! j))"
    using assms(1) unfolding in_range_def list_all_iff by blast
  show "snd (m ! j) \<noteq> []" using a by simp
  show "\<And>i. i \<in> set (snd (m ! j)) \<Longrightarrow> 0 \<le> i \<and> i < n"
    using a unfolding list_all_iff by blast
qed

lemma VoxelizedDownSample_wf:
  assumes w: "wf this" and x: "has_xyzs this" and v: "positive ar voxel_size"
    and o: "rearranges ar"
  shows "VoxelizedDownSample e ar voxel_size this =
     Inr (cloud (int (length (voxels ar voxel_size this))) (pc_fields this)
            (map (voxel_xyz ar this) (voxels ar voxel_size this))
            (if has_normals this
             then map (voxel_normal ar this) (voxels ar voxel_size this) else [])
            (if has_rgbs this
             then map (voxel_rgb ar this) (voxels ar voxel_size this) else [])
            (if has_descriptors this
             then map (voxel_descriptor ar this) (voxels ar voxel_size this) else [])) \<and>
     in_range (pc_size this) (voxels ar voxel_size this)"
proof -
  obtain n f X N R D where c: "this = cloud n f X N R D"
    using wf_is_cloud [OF w] by blast
  have x': "contains f kXYZs" using x by (simp add: c)
  have w': "wf (cloud n f X N R D)" using w c by simp
  show ?thesis
    unfolding c using VoxelizedDownSample_cloud [OF w' x' v o, of e] by simp
qed

lemma wf_cloudV: "wf cloudV"
  by (simp add: cloudV_def wf_cloud cols_ok_def)

lemma voxels_cloudV:
  "voxels ar0 (Some 1) cloudV = [((5, 5, 5), [1]), ((0, 0, 0), [0])]"
proof -
  have "[0 ..< 2] = [0, Suc 0]" by (simp add: numeral_2_eq_2)
  then have i: "indices 2 = [0, 1]" by (simp add: indices_def)
  have x: "xyz cloudV 0 = Inr (Some 0, Some 0, Some 0)" "xyz cloudV 1 = Inr (Some 5, Some 5, Some 5)"
    by (simp_all add: cloudV_def xyz_def accessors_cloud col_def)
  have l: "lower_of ar0 cloudV = (Some 0, Some 0, Some 0)"
    by (simp add: lower_of_def cloudV_def [THEN arg_cong, of pc_size] i lower_step_def x)
       (simp add: ar0_def constant3_def)
  have m: "voxel_map_of ar0 (Some 1) cloudV = [((0, 0, 0), [0]), ((5, 5, 5), [1])]"
    by (simp add: voxel_map_of_def cloudV_def [THEN arg_cong, of pc_size] i voxel_step_def x l)
       (simp add: ar0_def)
  show ?thesis by (simp add: voxels_def m) (simp add: ar0_def)
qed

subsection \<open>The result of \<^verbatim>\<open>VoxelizedDownSample\<close> by buckets\<close>





lemma first_occurrences_set [simp]: "set (first_occurrences xs) = set xs"
  by (simp add: first_occurrences_def)

lemma first_occurrences_distinct [simp]: "distinct (first_occurrences xs)"
  by (simp add: first_occurrences_def)


lemma first_occurrences_Nil [simp]: "first_occurrences [] = []"
  by (simp add: first_occurrences_def)





















subsection \<open>\<^verbatim>\<open>VoxelizedDownSample\<close> against its description\<close>

lemma ieee_sel [simp]:
  "isFinite (ieee m) = is_finite" "infinity (ieee m) = PInf" "fmin (ieee m) = std_min"
  "voxel_of (ieee m) = (\<lambda>voxel_size x lower.
     cast_int (unrepresentable m)
       (fdiv (to_quotient m) (fsub (to_float m) x lower) (fround (to_scalar m) voxel_size)))"
  "positive (ieee m) = (\<lambda>voxel_size. fless (Fin 0) voxel_size)"
  "cast_t_d (ieee m) = (\<lambda>x. x)" "cast_c_d (ieee m) = of_color m"
  "cast_d_t (ieee m) = fround (to_float m)" "cast_d_c (ieee m) = to_color m"
  "zero_d (ieee m) = Fin 0" "plus_d (ieee m) = fadd (to_double m)"
  "over (ieee m) = (\<lambda>x n. fdiv (to_double m) x (Fin (of_int n)))"
  "hash_order (ieee m) = iteration m"
  by (simp_all add: ieee_def)














lemma map3_id [simp]: "map3 (\<lambda>x. x) = (\<lambda>p. p)"
  by (rule ext) auto






text \<open>
  Without rounding the quotient is the real one and the mean is the arithmetic mean.
\<close>

lemma quotient_spec_exact:
  assumes "to_float m = Fin" "to_scalar m = Fin" "to_quotient m = Fin" "v \<noteq> 0"
  shows "quotient_spec m (Fin v) (Fin a) (Fin lo) = Fin ((a - lo) / v)"
  using assms by (simp add: quotient_spec_def fsub_def)

lemma fold_fadd_exact:
  "fold (\<lambda>v s. zip3 (fadd Fin) s v) (map (\<lambda>(x, y, z). (Fin x, Fin y, Fin z)) vs)
     (Fin a, Fin b, Fin c) =
   (Fin (a + sum_list (map (\<lambda>(x, y, z). x) vs)), Fin (b + sum_list (map (\<lambda>(x, y, z). y) vs)),
    Fin (c + sum_list (map (\<lambda>(x, y, z). z) vs)))"
  by (induction vs arbitrary: a b c) (auto simp add: algebra_simps)

lemma mean3_spec_exact:
  assumes "vs \<noteq> []"
  shows "mean3_spec Fin (map (\<lambda>(x, y, z). (Fin x, Fin y, Fin z)) vs) =
     (Fin (sum_list (map (\<lambda>(x, y, z). x) vs) / real (length vs)),
      Fin (sum_list (map (\<lambda>(x, y, z). y) vs) / real (length vs)),
      Fin (sum_list (map (\<lambda>(x, y, z). z) vs) / real (length vs)))"
  using assms fold_fadd_exact [of vs 0 0 0] by (simp add: mean3_spec_def sum3_spec_def)



lemma exact_sel [simp]:
  "to_float exact = Fin" "to_double exact = Fin" "to_scalar exact = Fin"
  "to_quotient exact = Fin" "unrepresentable exact = (\<lambda>q. - (2 ^ 31))" "iteration exact = rev" "of_color exact = (\<lambda>c. Fin (real c))"
  "to_color exact = (\<lambda>d. case d of Fin x \<Rightarrow> nat \<lfloor>x\<rfloor> | _ \<Rightarrow> 0)"
  by (simp_all add: exact_def)









lemma contains_XNR [simp]:
  "contains (base {XYZs, Normals, RGBs}) kXYZs" "contains (base {XYZs, Normals, RGBs}) kNormals"
  "contains (base {XYZs, Normals, RGBs}) kRGBs" "\<not> has_descriptor (base {XYZs, Normals, RGBs})"
  "\<not> contains (base {XYZs, Normals, RGBs}) kInherit" "base {XYZs, Normals, RGBs} \<noteq> kNone"
  by (auto simp: contains_def kXYZs_def kNormals_def kRGBs_def kInherit_def kNone_def base_def
        has_descriptor_def)







section \<open>The claims\<close>

subsection \<open>C8: when construction fails\<close>

text \<open>
  Claim C8. Construction fails, producing no object, exactly when the requested field
  set is the None sentinel, or is or contains the Inherit sentinel, or the requested
  point count is negative; for every other count and field set it succeeds, and the
  size of the new cloud is the count (its field set is the requested one and the class
  invariant holds). The two sentinels are refused by the constructor's own tests; a
  negative count is refused by Eigen when the storage is resized.
\<close>

theorem construct_fails_exactly:
  "if flds = kNone \<or> contains flds kInherit \<or> new_size < 0
   then \<exists>err. PointCloud_new e new_size flds skip_initialize = Inl err
   else \<exists>c. PointCloud_new e new_size flds skip_initialize = Inr c \<and> pc_size c = new_size \<and>
          pc_fields c = flds \<and> wf c"
proof (cases "flds = kNone \<or> contains flds kInherit")
  case True
  then show ?thesis by (auto simp: PointCloud_new_def)
next
  case False
  then have f: "flds \<noteq> kNone" "\<not> contains flds kInherit" by simp_all
  show ?thesis
  proof (cases "new_size < 0")
    case True
    then show ?thesis by (simp add: PointCloud_new_neg [OF f True])
  next
    case nn: False
    then have "0 \<le> new_size" by simp
    from PointCloud_new_wf [OF f this] show ?thesis using f nn by auto
  qed
qed

theorem construct_fails_exactly_witness:
  "(\<exists>c. PointCloud_new env0 2 kXYZs False = Inr c \<and> pc_size c = 2 \<and> pc_fields c = kXYZs \<and> wf c) \<and>
   (\<exists>err. PointCloud_new env0 (- 1) kXYZs False = Inl err) \<and>
   (\<exists>err. PointCloud_new env0 2 kNone False = Inl err) \<and>
   (\<exists>err. PointCloud_new env0 2 kInherit False = Inl err)"
  using construct_fails_exactly [of kXYZs 2 env0 False]
    construct_fails_exactly [of kXYZs "- 1" env0 False]
    construct_fails_exactly [of kNone 2 env0 False]
    construct_fails_exactly [of kInherit 2 env0 False]
  by (simp add: kXYZs_real contains_refl)

subsection \<open>C7: default values\<close>

text \<open>
  Claim C7. Constructing a cloud without \<^verbatim>\<open>skip_initialize\<close>, and growing one with
  \<^verbatim>\<open>resize\<close> or \<^verbatim>\<open>Expand\<close> without it, fills every new column of every present field
  with the default: the zero vector for positions, normals and descriptors, the default
  colour for colours; the retained columns are unchanged, also when the cloud shrinks.
  \<^verbatim>\<open>Expand\<close> grows the cloud by \<open>add_size\<close> whenever the new size is an \<^verbatim>\<open>int\<close>; whatever
  it returns is the receiver grown to the returned size; when \<^verbatim>\<open>size() + add_size\<close>
  overflows, nothing is grown: the wrapped sum is negative and \<^verbatim>\<open>DRAKE_DEMAND\<close> aborts.
  The code writes \<^verbatim>\<open>kDefaultValue\<close> and \<^verbatim>\<open>kDefaultColor\<close>, whose values the missing
  header declares; that \<^verbatim>\<open>kDefaultValue\<close> is zero, as the spec documents, is the
  hypothesis of the theorem.
\<close>

theorem defaults_fill_new_columns:
  fixes e :: "('t::zero, 'c) env"
  assumes "kDefaultValue e = 0"
  shows
    "(flds \<noteq> kNone \<and> \<not> contains flds kInherit \<and> 0 \<le> count \<longrightarrow>
        (\<exists>c. PointCloud_new e count flds False = Inr c \<and> pc_size c = count \<and>
              pc_fields c = flds \<and> all_default 0 (kDefaultColor e) c)) \<and>
     (wf c \<and> 0 \<le> new_size \<longrightarrow>
        (\<exists>c'. resize e new_size False c = Inr c' \<and> grown_by 0 (kDefaultColor e) new_size c c')) \<and>
     (wf c \<and> 0 \<le> add_size \<and> pc_size c + add_size \<le> INT_MAX \<longrightarrow>
        (\<exists>c'. Expand e add_size False c = Inr c' \<and>
               grown_by 0 (kDefaultColor e) (pc_size c + add_size) c c')) \<and>
     (wf c \<longrightarrow>
        (\<forall>c'. Expand e add_size False c = Inr c' \<longrightarrow>
               grown_by 0 (kDefaultColor e) (pc_size c') c c')) \<and>
     (0 \<le> add_size \<and> INT_MAX < pc_size c + add_size \<and> pc_size c + add_size \<le> 2 * INT_MAX \<longrightarrow>
        Expand e add_size False c = Inl DemandFailed)"
proof (intro conjI impI allI)
  assume "flds \<noteq> kNone \<and> \<not> contains flds kInherit \<and> 0 \<le> count"
  then show "\<exists>c. PointCloud_new e count flds False = Inr c \<and> pc_size c = count \<and>
              pc_fields c = flds \<and> all_default 0 (kDefaultColor e) c"
    using PointCloud_new_default [of flds count e] assms by auto
next
  assume "wf c \<and> 0 \<le> new_size"
  then show "\<exists>c'. resize e new_size False c = Inr c' \<and> grown_by 0 (kDefaultColor e) new_size c c'"
    using resize_grown [of c new_size e] assms by simp
next
  assume a: "wf c \<and> 0 \<le> add_size \<and> pc_size c + add_size \<le> INT_MAX"
  then have "0 \<le> pc_size c + add_size" "0 \<le> pc_size c" by (simp_all add: wf_def)
  then show "\<exists>c'. Expand e add_size False c = Inr c' \<and>
               grown_by 0 (kDefaultColor e) (pc_size c + add_size) c c'"
    using resize_grown [of c "pc_size c + add_size" e] a assms by (simp add: Expand_resize)
next
  fix c' assume w: "wf c" and r: "Expand e add_size False c = Inr c'"
  show "grown_by 0 (kDefaultColor e) (pc_size c') c c'"
    using Expand_grown [OF w assms r] .
next
  assume "0 \<le> add_size \<and> INT_MAX < pc_size c + add_size \<and> pc_size c + add_size \<le> 2 * INT_MAX"
  then show "Expand e add_size False c = Inl DemandFailed"
    by (simp add: Expand_overflow)
qed

theorem defaults_fill_new_columns_witness:
  "kDefaultValue env0 = 0 \<and> wf cloudA \<and>
   (\<exists>c. PointCloud_new env0 2 kXYZs False = Inr c \<and>
        st_xyzs (pc_storage c) = [(0, 0, 0), (0, 0, 0)]) \<and>
   (\<exists>c. resize env0 5 False cloudA = Inr c \<and>
        st_xyzs (pc_storage c) = [(1, 1, 1), (2, 2, 2), (3, 3, 3), (0, 0, 0), (0, 0, 0)]) \<and>
   (\<exists>c. resize env0 2 False cloudA = Inr c \<and>
        st_xyzs (pc_storage c) = [(1, 1, 1), (2, 2, 2)]) \<and>
   (\<exists>c. Expand env0 1 False cloudA = Inr c \<and>
        st_xyzs (pc_storage c) = [(1, 1, 1), (2, 2, 2), (3, 3, 3), (0, 0, 0)]) \<and>
   Expand env0 INT_MAX False cloudA = Inl DemandFailed"
proof -
  have k: "kDefaultValue env0 = 0" by (simp add: env0_def)
  note t = defaults_fill_new_columns [OF k, of kXYZs 2 cloudA _ 1]
  have x: "st_xyzs (pc_storage cloudA) = [(1, 1, 1), (2, 2, 2), (3, 3, 3)]" "has_xyzs cloudA"
    "pc_size cloudA = 3"
    by (simp_all add: cloudA_def)
  have i: "pc_size cloudA + 1 \<le> INT_MAX" by (simp add: x INT_MAX_def)
  have a: "\<exists>c. PointCloud_new env0 2 kXYZs False = Inr c \<and>
        st_xyzs (pc_storage c) = [(0, 0, 0), (0, 0, 0)]"
    using t [of 5] by (auto simp: all_default_def has_xyzs_def constant3_def numeral_eq_Suc)
  have b: "\<exists>c. resize env0 5 False cloudA = Inr c \<and>
        st_xyzs (pc_storage c) = [(1, 1, 1), (2, 2, 2), (3, 3, 3), (0, 0, 0), (0, 0, 0)]"
    using t [of 5] wf_cloudA
    by (auto simp: grown_by_def grown_with_def x constant3_def numeral_eq_Suc)
  have c: "\<exists>c. resize env0 2 False cloudA = Inr c \<and>
        st_xyzs (pc_storage c) = [(1, 1, 1), (2, 2, 2)]"
    using t [of 2] wf_cloudA
    by (auto simp: grown_by_def grown_with_def x constant3_def numeral_eq_Suc)
  have d: "\<exists>c. Expand env0 1 False cloudA = Inr c \<and>
        st_xyzs (pc_storage c) = [(1, 1, 1), (2, 2, 2), (3, 3, 3), (0, 0, 0)]"
    using t [of 5] wf_cloudA i
    by (auto simp: grown_by_def grown_with_def x constant3_def numeral_eq_Suc)
  have o: "Expand env0 INT_MAX False cloudA = Inl DemandFailed"
    using defaults_fill_new_columns [OF k, of kXYZs 2 cloudA 5 INT_MAX]
    by (simp add: x INT_MAX_def)
  show ?thesis using k wf_cloudA a b c d o by blast
qed

subsection \<open>C3: the receiver after a failed SetFrom\<close>

text \<open>
  Claim C3 says that every \<^verbatim>\<open>SetFrom\<close> that throws leaves the receiver's size and data
  as they were, also with \<^verbatim>\<open>allow_resize = true\<close>. The code resizes the receiver before
  it compares the field sets: a receiver of three points, asked to take a one-point
  cloud of another field set, has one point left when the mismatch is thrown.
\<close>

theorem SetFrom_failure_resizes_counterexample:
  "SetFrom env0 cloudC kInherit True cloudA = Inl (RuntimeError, cloud 1 kXYZs [(1, 1, 1)] [] [] []) \<and>
   pc_size cloudA = 3 \<and> pc_size (cloud 1 kXYZs [(1, 1, 1)] [] [] [] :: (int, nat) PointCloud) = 1"
proof -
  have r: "ResolvePairFields cloudA cloudC kInherit = Inl RuntimeError"
    by (simp add: ResolvePairFields_eq cloudA_def cloudC_def)
  from SetFrom_resolve_fails [OF wf_cloudA wf_cloudC _ r, of True env0]
  obtain this' where t: "SetFrom env0 cloudC kInherit True cloudA = Inl (RuntimeError, this')"
    by auto
  from SetFrom_fail_state [OF wf_cloudA wf_cloudC t]
  have "resize env0 (pc_size cloudC) False cloudA = Inr this'" by simp
  then have "this' = cloud 1 kXYZs [(1, 1, 1)] [] [] []"
    by (simp add: cloudC_def resize_cloudA_1)
  with t show ?thesis by (simp add: cloudA_def)
qed

text \<open>
  Claim C3, amended. For well-formed clouds: \<^verbatim>\<open>SetFrom\<close> with \<^verbatim>\<open>allow_resize = false\<close>
  between clouds of different sizes throws and leaves the receiver unchanged; and
  whenever \<^verbatim>\<open>SetFrom\<close> fails, the receiver is unchanged if \<^verbatim>\<open>allow_resize\<close> is false or
  the two sizes are equal, and otherwise it is the receiver resized to the other
  cloud's size (same field set, the size of the other cloud).
\<close>

theorem SetFrom_failure_state:
  assumes "wf this" "wf other"
  shows "(\<not> allow_resize \<and> pc_size other \<noteq> pc_size this \<longrightarrow>
            SetFrom e other fields_in allow_resize this = Inl (RuntimeError, this)) \<and>
         (\<forall>err this'. SetFrom e other fields_in allow_resize this = Inl (err, this') \<longrightarrow>
            (if allow_resize \<and> pc_size other \<noteq> pc_size this
             then resize e (pc_size other) False this = Inr this' \<and>
                  pc_size this' = pc_size other \<and> pc_fields this' = pc_fields this
             else this' = this))"
proof (intro conjI allI impI)
  assume "\<not> allow_resize \<and> pc_size other \<noteq> pc_size this"
  then show "SetFrom e other fields_in allow_resize this = Inl (RuntimeError, this)"
    by (simp add: SetFrom_size_mismatch)
next
  fix err this'
  assume f: "SetFrom e other fields_in allow_resize this = Inl (err, this')"
  note s = SetFrom_fail_state [OF assms f]
  show "if allow_resize \<and> pc_size other \<noteq> pc_size this
        then resize e (pc_size other) False this = Inr this' \<and>
             pc_size this' = pc_size other \<and> pc_fields this' = pc_fields this
        else this' = this"
  proof (cases allow_resize)
    case True
    then have r: "resize e (pc_size other) False this = Inr this'" using s by simp
    have "0 \<le> pc_size other" using assms(2) by (simp add: wf_def)
    from resize_wf [OF assms(1) this, of e False] r
    have "pc_size this' = pc_size other \<and> pc_fields this' = pc_fields this" by auto
    moreover have "pc_size other = pc_size this \<Longrightarrow> this' = this"
      using r resize_same [OF assms(1), of e False] by simp
    ultimately show ?thesis using r True by auto
  next
    case False
    then show ?thesis using s by simp
  qed
qed

theorem SetFrom_failure_state_witness:
  "wf cloudA \<and> wf cloudC \<and>
   SetFrom env0 cloudC kInherit False cloudA = Inl (RuntimeError, cloudA) \<and>
   SetFrom env0 cloudC kInherit True cloudA = Inl (RuntimeError, cloud 1 kXYZs [(1, 1, 1)] [] [] [])"
proof -
  have r: "ResolvePairFields cloudA cloudC kInherit = Inl RuntimeError"
    by (simp add: ResolvePairFields_eq cloudA_def cloudC_def)
  have s: "pc_size cloudC \<noteq> pc_size cloudA" "pc_size cloudC = 1"
    by (simp_all add: cloudA_def cloudC_def)
  from SetFrom_resolve_fails [OF wf_cloudA wf_cloudC _ r, of True env0]
  obtain this' where t: "SetFrom env0 cloudC kInherit True cloudA = Inl (RuntimeError, this')"
    by auto
  have a: "SetFrom env0 cloudC kInherit False cloudA = Inl (RuntimeError, cloudA)"
    using SetFrom_failure_state [OF wf_cloudA wf_cloudC, of False env0 kInherit] s by simp
  have "resize env0 (pc_size cloudC) False cloudA = Inr this'"
    using SetFrom_failure_state [OF wf_cloudA wf_cloudC, of True env0 kInherit] s t by simp
  then have "this' = cloud 1 kXYZs [(1, 1, 1)] [] [] []"
    by (simp add: s resize_cloudA_1)
  with t a show ?thesis by (simp add: wf_cloudA wf_cloudC)
qed

subsection \<open>C6: move assignment\<close>

text \<open>
  Claim C6, as the spec words it, for every pair of clouds: after a move assignment
  between clouds of exactly equal field sets the receiver is the source as it was. It
  fails when a cloud is move-assigned to itself (\<^verbatim>\<open>A = std::move(A)\<close>): the field sets
  are equal, swapping the storage with itself changes nothing, and
  \<^verbatim>\<open>other.resize(0, false)\<close> empties the only object there is. The cloud of three points
  is left with none.
\<close>

theorem move_assign_self_empties_counterexample:
  "wf cloudA \<and> pc_size cloudA = 3 \<and>
   (\<exists>s'. move_assign env0 0 0 (\<lambda>p. cloudA) = Inr s' \<and> s' 0 \<noteq> cloudA \<and> pc_size (s' 0) = 0 \<and>
      st_xyzs (pc_storage (s' 0)) = [])"
proof -
  have w: "wf ((\<lambda>p. cloudA) (0::nat))" by (simp add: wf_cloudA)
  have n: "pc_size cloudA = 3" by (simp add: cloudA_def)
  have "cloud 0 (pc_fields cloudA) [] [] [] [] \<noteq> cloudA"
    using n by (metis cloud_sel(1) zero_neq_numeral)
  then show ?thesis
    using move_assign_self [OF w, of env0] wf_cloudA n by simp
qed

text \<open>
  Claim C6, amended. Move assignment between clouds whose field sets are not exactly
  equal fails with the field-set mismatch error (a \<^verbatim>\<open>std::runtime_error\<close>, before
  anything is changed). Between two different well-formed clouds of exactly equal field
  sets it succeeds: the receiver takes the source's storage and size (it is the source
  as it was), the source is left a well-formed cloud of size zero with its original
  field set, every buffer empty, and no other object changes. A well-formed cloud
  move-assigned to itself is left a cloud of size zero with its field set, every buffer
  empty.
\<close>

theorem move_assign_exact_fields:
  "(pc_fields (s this) \<noteq> pc_fields (s other) \<longrightarrow>
      move_assign e other this s = Inl RuntimeError) \<and>
   (wf (s this) \<and> wf (s other) \<and> pc_fields (s this) = pc_fields (s other) \<and> this \<noteq> other \<longrightarrow>
      (\<exists>other'. move_assign e other this s = Inr (s(this := s other, other := other')) \<and>
         wf other' \<and> pc_size other' = 0 \<and> pc_fields other' = pc_fields (s other) \<and>
         other' = cloud 0 (pc_fields (s other)) [] [] [] [])) \<and>
   (wf (s this) \<longrightarrow>
      (\<exists>this'. move_assign e this this s = Inr (s(this := this')) \<and>
         wf this' \<and> pc_size this' = 0 \<and> pc_fields this' = pc_fields (s this) \<and>
         this' = cloud 0 (pc_fields (s this)) [] [] [] []))"
proof (intro conjI impI)
  assume "pc_fields (s this) \<noteq> pc_fields (s other)"
  then show "move_assign e other this s = Inl RuntimeError" by (rule move_assign_mismatch)
next
  assume a: "wf (s this) \<and> wf (s other) \<and> pc_fields (s this) = pc_fields (s other) \<and>
    this \<noteq> other"
  then have "wf (cloud 0 (pc_fields (s other)) [] [] [] [] :: ('a, 'b) PointCloud)"
    by (intro wf_empty) (simp_all add: wf_def)
  then show "\<exists>other'. move_assign e other this s = Inr (s(this := s other, other := other')) \<and>
         wf other' \<and> pc_size other' = 0 \<and> pc_fields other' = pc_fields (s other) \<and>
         other' = cloud 0 (pc_fields (s other)) [] [] [] []"
    using a by (simp add: move_assign_ok)
next
  assume a: "wf (s this)"
  then have "wf (cloud 0 (pc_fields (s this)) [] [] [] [] :: ('a, 'b) PointCloud)"
    by (intro wf_empty) (simp_all add: wf_def)
  then show "\<exists>this'. move_assign e this this s = Inr (s(this := this')) \<and>
         wf this' \<and> pc_size this' = 0 \<and> pc_fields this' = pc_fields (s this) \<and>
         this' = cloud 0 (pc_fields (s this)) [] [] [] []"
    using a by (simp add: move_assign_self)
qed

theorem move_assign_exact_fields_witness:
  "wf cloudA \<and> wf cloudB \<and> wf cloudC \<and> pc_fields cloudA = pc_fields cloudB \<and>
   pc_fields cloudA \<noteq> pc_fields cloudC \<and>
   move_assign env0 1 0 (\<lambda>p. if p = 0 then cloudA else cloudB) =
     Inr ((\<lambda>p. if p = 0 then cloudA else cloudB)(0 := cloudB, 1 := cloud 0 kXYZs [] [] [] [])) \<and>
   move_assign env0 1 0 (\<lambda>p. if p = 0 then cloudA else cloudC) = Inl RuntimeError \<and>
   move_assign env0 0 0 (\<lambda>p. if p = 0 then cloudA else cloudB) =
     Inr ((\<lambda>p. if p = 0 then cloudA else cloudB)(0 := cloud 0 kXYZs [] [] [] []))"
proof -
  have f: "pc_fields cloudA = pc_fields cloudB" "pc_fields cloudA \<noteq> pc_fields cloudC"
    "pc_fields cloudB = kXYZs" "pc_fields cloudA = kXYZs"
    by (simp_all add: cloudA_def cloudB_def cloudC_def)
  let ?s = "\<lambda>p::nat. if p = 0 then cloudA else cloudB"
  let ?t = "\<lambda>p::nat. if p = 0 then cloudA else cloudC"
  have a: "move_assign env0 1 0 ?s = Inr (?s(0 := cloudB, 1 := cloud 0 kXYZs [] [] [] []))"
    using move_assign_exact_fields [of ?s 0 1 env0] f(1,3) wf_cloudA wf_cloudB by auto
  have b: "move_assign env0 1 0 ?t = Inl RuntimeError"
    using move_assign_exact_fields [of ?t 0 1 env0] f(2) by simp
  have c: "move_assign env0 0 0 ?s = Inr (?s(0 := cloud 0 kXYZs [] [] [] []))"
    using move_assign_exact_fields [of ?s 0 1 env0] f(4) wf_cloudA by auto
  show ?thesis
    using a b c f(1,2) wf_cloudA wf_cloudB wf_cloudC by blast
qed

subsection \<open>C9: the field set of a cloud never changes\<close>

text \<open>
  Claim C9. No operation changes the field set of a constructed cloud: whatever
  \<^verbatim>\<open>SetDefault\<close>, \<^verbatim>\<open>resize\<close>, \<^verbatim>\<open>Expand\<close>, \<^verbatim>\<open>SetFrom\<close>, copy assignment, move assignment
  and the move constructor leave behind, returning or failing, has the field set it
  had; and copy assignment between well-formed clouds of different field sets throws
  the field-set mismatch error (a \<^verbatim>\<open>std::runtime_error\<close>) and leaves the receiver's
  field set as it was. Move assignment works on the store: every object of the store
  keeps its field set, also when the receiver is the source.
\<close>

theorem field_set_preserved:
  "(\<forall>c'. SetDefault e start num c = Inr c' \<longrightarrow> pc_fields c' = pc_fields c) \<and>
   (\<forall>c'. resize e n skip c = Inr c' \<longrightarrow> pc_fields c' = pc_fields c) \<and>
   (\<forall>c'. Expand e n skip c = Inr c' \<longrightarrow> pc_fields c' = pc_fields c) \<and>
   (\<forall>c'. SetFrom e other fields_in allow_resize c = Inr c' \<longrightarrow> pc_fields c' = pc_fields c) \<and>
   (\<forall>err c'. SetFrom e other fields_in allow_resize c = Inl (err, c') \<longrightarrow>
      pc_fields c' = pc_fields c) \<and>
   (\<forall>c'. copy_assign e other c = Inr c' \<longrightarrow> pc_fields c' = pc_fields c) \<and>
   (\<forall>err c'. copy_assign e other c = Inl (err, c') \<longrightarrow> pc_fields c' = pc_fields c) \<and>
   (\<forall>s' p. move_assign e src dst s = Inr s' \<longrightarrow> pc_fields (s' p) = pc_fields (s p)) \<and>
   (\<forall>c' other'. PointCloud_move e other = Inr (c', other') \<longrightarrow>
      pc_fields c' = pc_fields other \<and> pc_fields other' = pc_fields other) \<and>
   (wf c \<and> wf other \<and> pc_fields other \<noteq> pc_fields c \<longrightarrow>
      (\<exists>c'. copy_assign e other c = Inl (RuntimeError, c') \<and> pc_fields c' = pc_fields c))"
proof (intro conjI allI impI)
  fix c' assume "SetDefault e start num c = Inr c'"
  then show "pc_fields c' = pc_fields c" by (rule SetDefault_fields)
next
  fix c' assume "resize e n skip c = Inr c'"
  then show "pc_fields c' = pc_fields c" by (rule resize_fields)
next
  fix c' assume "Expand e n skip c = Inr c'"
  then show "pc_fields c' = pc_fields c" by (rule Expand_fields)
next
  fix c' assume "SetFrom e other fields_in allow_resize c = Inr c'"
  then show "pc_fields c' = pc_fields c" by (rule SetFrom_fields(2))
next
  fix err c' assume "SetFrom e other fields_in allow_resize c = Inl (err, c')"
  then show "pc_fields c' = pc_fields c" by (rule SetFrom_fields(1))
next
  fix c' assume "copy_assign e other c = Inr c'"
  then show "pc_fields c' = pc_fields c" unfolding copy_assign_def by (rule SetFrom_fields(2))
next
  fix err c' assume "copy_assign e other c = Inl (err, c')"
  then show "pc_fields c' = pc_fields c" unfolding copy_assign_def by (rule SetFrom_fields(1))
next
  fix s' p assume "move_assign e src dst s = Inr s'"
  then show "pc_fields (s' p) = pc_fields (s p)" by (rule move_assign_fields)
next
  fix c' other' assume "PointCloud_move e other = Inr (c', other')"
  then show "pc_fields c' = pc_fields other" "pc_fields other' = pc_fields other"
    using PointCloud_move_fields by blast+
next
  assume "wf c \<and> wf other \<and> pc_fields other \<noteq> pc_fields c"
  then show "\<exists>c'. copy_assign e other c = Inl (RuntimeError, c') \<and> pc_fields c' = pc_fields c"
    using copy_assign_mismatch by blast
qed

theorem field_set_preserved_witness:
  "wf cloudA \<and> wf cloudC \<and> pc_fields cloudC \<noteq> pc_fields cloudA \<and>
   (\<exists>c'. copy_assign env0 cloudC cloudA = Inl (RuntimeError, c') \<and> pc_fields c' = pc_fields cloudA)"
proof -
  have f: "pc_fields cloudC \<noteq> pc_fields cloudA"
    by (simp add: cloudA_def cloudC_def)
  show ?thesis
    using field_set_preserved [of env0 0 0 cloudA 0 False cloudC kInherit True] f wf_cloudA wf_cloudC
    by blast
qed

subsection \<open>C2: the copy constructor\<close>

text \<open>
  Claim C2 says that the copy constructor succeeds for every requested field set that
  is a subset of the other cloud's. The constructor builds a cloud of the requested
  fields and then calls \<^verbatim>\<open>SetFrom(other)\<close>, which, with its default \<^verbatim>\<open>kInherit\<close>,
  demands exactly equal field sets: copying the positions of a cloud that has positions
  and normals throws, while \<^verbatim>\<open>SetFrom\<close> called with the requested fields copies them.
\<close>

theorem copy_construct_subset_throws:
  "contains (pc_fields cloudC) kXYZs \<and>
   PointCloud_copy env0 cloudC kXYZs = Inl RuntimeError \<and>
   PointCloud_copy env0 cloudC kInherit = Inr cloudC \<and>
   (\<exists>c. PointCloud_new env0 (pc_size cloudC) kXYZs False = Inr c \<and>
        SetFrom env0 cloudC kXYZs True c = Inr (cloud 1 kXYZs [(4, 4, 4)] [] [] []))"
proof -
  have a: "contains (pc_fields cloudC) kXYZs" by (simp add: cloudC_def)
  have b: "PointCloud_copy env0 cloudC kXYZs = Inl RuntimeError"
    "PointCloud_copy env0 cloudC kInherit = Inr cloudC"
    by (simp_all add: PointCloud_copy_eq [OF wf_cloudC]) (simp add: cloudC_def)
  obtain c where c: "PointCloud_new env0 (pc_size cloudC) kXYZs False = Inr c" "wf c"
    "pc_size c = pc_size cloudC" "pc_fields c = kXYZs"
    using PointCloud_new_wf [of kXYZs "pc_size cloudC" env0 False] by (auto simp: cloudC_def)
  have r: "ResolvePairFields c cloudC kXYZs = Inr kXYZs"
    by (simp add: ResolvePairFields_eq c(4) cloudC_def contains_refl)
  have same: "resize env0 (pc_size cloudC) False c = Inr c"
    using resize_same [OF c(2), of env0 False] c(3) by simp
  have empty: "st_normals (pc_storage c) = []" "st_rgbs (pc_storage c) = []"
    "st_descriptors (pc_storage c) = []"
    using c(2,4)
    by (simp_all add: wf_def cols_ok_def has_normals_def has_rgbs_def has_descriptors_def)
  have other: "st_xyzs (pc_storage cloudC) = [(4, 4, 4)]" "pc_size cloudC = 1"
    by (simp_all add: cloudC_def)
  from SetFrom_ok [OF c(2) wf_cloudC _ r, of True env0]
  have "SetFrom env0 cloudC kXYZs True c = Inr (cloud 1 kXYZs [(4, 4, 4)] [] [] [])"
    unfolding same by (simp add: chosen_def empty other c(4) contains_refl)
  with a b c(1) show ?thesis by blast
qed

subsection \<open>C1: Concatenate\<close>

text \<open>
  Claim C1 says that \<^verbatim>\<open>Concatenate\<close> lays the inputs' columns out one after the other,
  in particular for two clouds of three and two points with the field set
  \<open>{Positions}\<close>. The loop copies the positions under the test
  \<^verbatim>\<open>new_cloud.has_normals()\<close>: for clouds of positions only nothing is copied, and the
  result has the right size but holds the uninitialised columns of the new cloud (here
  the columns \<open>(7, 7, 7)\<close> of the environment), not the positions \<open>(1, 1, 1)\<close> ...
  \<open>(5, 5, 5)\<close> of the inputs; for a cloud of normals only, the write to the absent
  positions aborts.
\<close>

theorem Concatenate_positions_not_copied:
  "Concatenate env0 [cloudA, cloudB] =
     Inr (cloud 5 kXYZs [(7, 7, 7), (7, 7, 7), (7, 7, 7), (7, 7, 7), (7, 7, 7)] [] [] []) \<and>
   st_xyzs (pc_storage cloudA) = [(1, 1, 1), (2, 2, 2), (3, 3, 3)] \<and>
   st_xyzs (pc_storage cloudB) = [(4, 4, 4), (5, 5, 5)] \<and>
   Concatenate env0 [cloudN] = Inl DemandFailed"
proof -
  have n: "PointCloud_new env0 5 kXYZs True =
      Inr (cloud 5 kXYZs [(7, 7, 7), (7, 7, 7), (7, 7, 7), (7, 7, 7), (7, 7, 7)] [] [] [])"
    by (subst PointCloud_new_ok)
       (simp_all add: kept_def resized_def new_xyzs_def env0_def map_const_upt numeral_eq_Suc)
  have i: "int32 1 = 1" "int32 3 = 3" "int32 5 = 5" by (simp_all add: int32_def)
  have a: "Concatenate env0 [cloudA, cloudB] =
     Inr (cloud 5 kXYZs [(7, 7, 7), (7, 7, 7), (7, 7, 7), (7, 7, 7), (7, 7, 7)] [] [] [])"
    by (simp add: Concatenate_def cloudA_def cloudB_def i n)
  have m: "PointCloud_new env0 1 kNormals True = Inr (cloud 1 kNormals [] [(8, 8, 8)] [] [])"
    by (subst PointCloud_new_ok)
       (simp_all add: kept_def resized_def new_normals_def env0_def map_const_upt)
  have b: "Concatenate env0 [cloudN] = Inl DemandFailed"
    by (simp add: Concatenate_def cloudN_def i m mutable_xyzs_cloud accessors_cloud)
  show ?thesis using a b by (simp add: cloudA_def cloudB_def)
qed

subsection \<open>C5: Crop\<close>

text \<open>
  Claim C5. For a well-formed cloud: \<^verbatim>\<open>Crop(lower, upper)\<close> fails when \<open>lower \<le> upper\<close>
  does not hold on every component (the \<^verbatim>\<open>DRAKE_DEMAND\<close>) and, for such a box, when the
  cloud has no positions (the \<^verbatim>\<open>std::runtime_error\<close>); otherwise it returns the cloud
  \<open>Crop_spec\<close>: same field set, the points whose position lies in the closed box, in their
  original order, and for every other present field the columns of the same points.
  The positions of the result are the positions of the input filtered by the box.
\<close>

theorem Crop_closed_box:
  assumes "wf this"
  shows "(\<not> le3 lower_xyz upper_xyz \<longrightarrow> Crop e lower_xyz upper_xyz this = Inl DemandFailed) \<and>
     (le3 lower_xyz upper_xyz \<and> \<not> has_xyzs this \<longrightarrow>
        Crop e lower_xyz upper_xyz this = Inl RuntimeError) \<and>
     (le3 lower_xyz upper_xyz \<and> has_xyzs this \<longrightarrow>
        Crop e lower_xyz upper_xyz this = Inr (Crop_spec lower_xyz upper_xyz this) \<and>
        wf (Crop_spec lower_xyz upper_xyz this) \<and>
        pc_fields (Crop_spec lower_xyz upper_xyz this) = pc_fields this \<and>
        st_xyzs (pc_storage (Crop_spec lower_xyz upper_xyz this)) =
          filter (in_box lower_xyz upper_xyz) (st_xyzs (pc_storage this)))"
proof (intro conjI impI)
  assume "\<not> le3 lower_xyz upper_xyz"
  then show "Crop e lower_xyz upper_xyz this = Inl DemandFailed" by (simp add: Crop_def)
next
  assume "le3 lower_xyz upper_xyz \<and> \<not> has_xyzs this"
  then show "Crop e lower_xyz upper_xyz this = Inl RuntimeError" by (simp add: Crop_def)
next
  assume a: "le3 lower_xyz upper_xyz \<and> has_xyzs this"
  obtain n f X N R D where c: "this = cloud n f X N R D"
    using wf_is_cloud [OF assms] by blast
  have x: "contains f kXYZs" using a by (simp add: c)
  have w: "wf (cloud n f X N R D)" using assms c by simp
  have b: "le3 lower_xyz upper_xyz" using a by simp
  show "Crop e lower_xyz upper_xyz this = Inr (Crop_spec lower_xyz upper_xyz this)"
    unfolding c Crop_spec_cloud Crop_cloud [OF w b x] using x by simp
  show "wf (Crop_spec lower_xyz upper_xyz this)"
    unfolding c by (rule wf_Crop_spec [OF w x])
  show "pc_fields (Crop_spec lower_xyz upper_xyz this) = pc_fields this"
    unfolding c Crop_spec_cloud by simp
  show "st_xyzs (pc_storage (Crop_spec lower_xyz upper_xyz this)) =
          filter (in_box lower_xyz upper_xyz) (st_xyzs (pc_storage this))"
    unfolding c Crop_spec_cloud using x by (simp add: pick_filter)
qed

theorem Crop_closed_box_witness:
  "wf cloudD \<and> le3 (0, 0, 0) (2, 2, 2 :: int) \<and> has_xyzs cloudD \<and>
   Crop env0 (0, 0, 0) (2, 2, 2) cloudD =
     Inr (cloud 3 (base {XYZs, Normals}) [(1, 1, 1), (0, 0, 0), (2, 2, 2)]
            [(1, 0, 0), (0, 0, 1), (1, 1, 0)] [] []) \<and>
   Crop env0 (1, 0, 0) (0, 2, 2) cloudD = Inl DemandFailed \<and>
   Crop env0 (0, 0, 0) (2, 2, 2) cloudN = Inl RuntimeError"
proof -
  have k: "kept_indices (0, 0, 0) (2, 2, 2) [(1, 1, 1), (4, 4, 4), (0, 0, 0), (2, 2, 2 :: int)] =
      [0, 2, 3]"
    by (simp add: kept_indices_def in_box_def upt_rec [of 0] upt_rec [of 1] upt_rec [of 2]
          upt_rec [of 3] upt_rec [of 4])
  have s: "Crop_spec (0, 0, 0) (2, 2, 2) cloudD =
      cloud 3 (base {XYZs, Normals}) [(1, 1, 1), (0, 0, 0), (2, 2, 2)]
            [(1, 0, 0), (0, 0, 1), (1, 1, 0)] [] []"
    unfolding cloudD_def Crop_spec_cloud k by (simp add: pick_def)
  have h: "has_xyzs cloudD" "\<not> has_xyzs cloudN" by (simp_all add: cloudD_def cloudN_def)
  have wn: "wf cloudN" by (simp add: cloudN_def wf_cloud cols_ok_def)
  have a: "Crop env0 (0, 0, 0) (2, 2, 2) cloudD =
     Inr (cloud 3 (base {XYZs, Normals}) [(1, 1, 1), (0, 0, 0), (2, 2, 2)]
            [(1, 0, 0), (0, 0, 1), (1, 1, 0)] [] [])"
    using Crop_closed_box [OF wf_cloudD, of "(0, 0, 0)" "(2, 2, 2)" env0] h by (simp add: s)
  have b: "Crop env0 (1, 0, 0) (0, 2, 2) cloudD = Inl DemandFailed"
    using Crop_closed_box [OF wf_cloudD, of "(1, 0, 0)" "(0, 2, 2)" env0] by simp
  have c: "Crop env0 (0, 0, 0) (2, 2, 2) cloudN = Inl RuntimeError"
    using Crop_closed_box [OF wn, of "(0, 0, 0)" "(2, 2, 2)" env0] h by simp
  show ?thesis using a b c h wf_cloudD by simp
qed

subsection \<open>C10: the average over no finite normal\<close>

text \<open>
  Claim C10. In \<^verbatim>\<open>VoxelizedDownSample\<close>, when normals (or a descriptor) are present and
  an occupied voxel holds no point with a fully finite normal (descriptor), the average
  of that voxel divides the zero accumulator by the count zero, unguarded: no error is
  raised, and the output normal (descriptor) of the voxel is that quotient, cast to the
  element type, in every component. The floating-point operations are parameters of
  the model; that the quotient of zero by the count zero, cast to the element type, is
  not finite (IEEE: 0.0 / 0 is NaN, and stays NaN as a \<^verbatim>\<open>float\<close>) is a hypothesis, and
  with it the output normal (descriptor) is not finite. The voxels are the entries of
  the voxel map the code builds, in the order in which it iterates.
\<close>

theorem zero_count_average_unguarded:
  assumes "wf this" "has_xyzs this" "positive ar voxel_size" "rearranges ar"
    and "\<not> isFinite ar (cast_d_t ar (over ar (zero_d ar) 0))"
  shows "\<exists>out. VoxelizedDownSample e ar voxel_size this = Inr out \<and>
     pc_size out = int (length (voxels ar voxel_size this)) \<and>
     in_range (pc_size this) (voxels ar voxel_size this) \<and>
     (\<forall>j < length (voxels ar voxel_size this).
        (has_normals this \<and>
         (\<forall>i \<in> set (snd (voxels ar voxel_size this ! j)).
            \<not> finite3 ar (st_normals (pc_storage this) ! nat i)) \<longrightarrow>
           st_normals (pc_storage out) ! j = constant3 (cast_d_t ar (over ar (zero_d ar) 0)) \<and>
           \<not> finite3 ar (st_normals (pc_storage out) ! j)) \<and>
        (has_descriptors this \<and>
         (\<forall>i \<in> set (snd (voxels ar voxel_size this ! j)).
            \<not> list_all (isFinite ar) (st_descriptors (pc_storage this) ! nat i)) \<longrightarrow>
           st_descriptors (pc_storage out) ! j =
             replicate (descriptor_rows (pc_storage this))
               (cast_d_t ar (over ar (zero_d ar) 0)) \<and>
           \<not> list_all (isFinite ar) (st_descriptors (pc_storage out) ! j)))"
proof -
  let ?vox = "voxels ar voxel_size this"
  let ?q = "cast_d_t ar (over ar (zero_d ar) 0)"
  define out where "out = cloud (int (length ?vox)) (pc_fields this)
            (map (voxel_xyz ar this) ?vox)
            (if has_normals this then map (voxel_normal ar this) ?vox else [])
            (if has_rgbs this then map (voxel_rgb ar this) ?vox else [])
            (if has_descriptors this then map (voxel_descriptor ar this) ?vox else [])"
  have r: "VoxelizedDownSample e ar voxel_size this = Inr out" and ir: "in_range (pc_size this) ?vox"
    using VoxelizedDownSample_wf [OF assms(1-4), of e] by (simp_all add: out_def)
  have nq: "\<not> finite3 ar (constant3 ?q)" using assms(5) by (simp add: constant3_def)
  have nrm: "st_normals (pc_storage out) ! j = constant3 ?q \<and>
        \<not> finite3 ar (st_normals (pc_storage out) ! j)"
    if j: "j < length ?vox" and h: "has_normals this"
      and nf: "\<forall>i \<in> set (snd (?vox ! j)). \<not> finite3 ar (st_normals (pc_storage this) ! nat i)"
    for j
    using j h nq voxel_normal_zero_count [OF nf] by (simp add: out_def)
  have dsc: "st_descriptors (pc_storage out) ! j =
          replicate (descriptor_rows (pc_storage this)) ?q \<and>
        \<not> list_all (isFinite ar) (st_descriptors (pc_storage out) ! j)"
    if j: "j < length ?vox" and h: "has_descriptors this"
      and nf: "\<forall>i \<in> set (snd (?vox ! j)).
          \<not> list_all (isFinite ar) (st_descriptors (pc_storage this) ! nat i)"
    for j
  proof -
    from in_range_nth [OF ir j] obtain i where i: "i \<in> set (snd (?vox ! j))" "0 \<le> i"
      "i < pc_size this"
      by (cases "snd (?vox ! j)") auto
    have d: "cols_ok True (pc_size this) (st_descriptors (pc_storage this))"
      "list_all (\<lambda>d. length d = descriptor_rows (pc_storage this)) (st_descriptors (pc_storage this))"
      using assms(1) h by (simp_all add: wf_def)
    have "nat i < length (st_descriptors (pc_storage this))"
      using i(2,3) d(1) by (simp add: cols_ok_def)
    then have "length (st_descriptors (pc_storage this) ! nat i) = descriptor_rows (pc_storage this)"
      using d(2) by (simp add: list_all_length)
    moreover have "st_descriptors (pc_storage this) ! nat i \<noteq> []"
      using nf i(1) by auto
    ultimately have rows: "0 < descriptor_rows (pc_storage this)" by (cases "descriptor_rows (pc_storage this)") auto
    show ?thesis
      using j h rows assms(5) voxel_descriptor_zero_count [OF nf h]
      by (simp add: out_def list_all_iff)
  qed
  have sz: "pc_size out = int (length ?vox)" by (simp add: out_def)
  show ?thesis
    using r ir sz nrm dsc by (intro exI [of _ out]) blast
qed

theorem zero_count_average_unguarded_witness:
  "wf cloudV \<and> has_xyzs cloudV \<and> has_normals cloudV \<and> positive ar0 (Some 1) \<and> rearranges ar0 \<and>
   \<not> isFinite ar0 (cast_d_t ar0 (over ar0 (zero_d ar0) 0)) \<and>
   voxels ar0 (Some 1) cloudV ! 1 = ((0, 0, 0), [0]) \<and>
   \<not> finite3 ar0 (st_normals (pc_storage cloudV) ! 0) \<and>
   (\<exists>out. VoxelizedDownSample env1 ar0 (Some 1) cloudV = Inr out \<and> pc_size out = 2 \<and>
      st_normals (pc_storage out) ! 1 = (None, None, None))"
proof -
  have h: "has_xyzs cloudV" "has_normals cloudV" by (simp_all add: cloudV_def)
  have p: "positive ar0 (Some 1)" by (simp add: ar0_def)
  have o: "rearranges ar0" by (simp add: rearranges_def ar0_def)
  have q: "cast_d_t ar0 (over ar0 (zero_d ar0) 0) = None" by (simp add: ar0_def)
  have nq: "\<not> isFinite ar0 (cast_d_t ar0 (over ar0 (zero_d ar0) 0))" by (simp add: ar0_def)
  have n0: "\<not> finite3 ar0 (st_normals (pc_storage cloudV) ! 0)"
    by (simp add: cloudV_def ar0_def)
  from zero_count_average_unguarded [OF wf_cloudV h(1) p o nq, of env1]
  obtain out where out: "VoxelizedDownSample env1 ar0 (Some 1) cloudV = Inr out"
    "pc_size out = int (length (voxels ar0 (Some 1) cloudV))"
    "\<forall>j < length (voxels ar0 (Some 1) cloudV).
        (has_normals cloudV \<and>
         (\<forall>i \<in> set (snd (voxels ar0 (Some 1) cloudV ! j)).
            \<not> finite3 ar0 (st_normals (pc_storage cloudV) ! nat i)) \<longrightarrow>
           st_normals (pc_storage out) ! j =
             constant3 (cast_d_t ar0 (over ar0 (zero_d ar0) 0)) \<and>
           \<not> finite3 ar0 (st_normals (pc_storage out) ! j))"
    by blast
  have "st_normals (pc_storage out) ! 1 = (None, None, None)"
    using out(3) [rule_format, of 1] h(2) n0 by (simp add: voxels_cloudV q constant3_def)
  then show ?thesis
    using h p o nq n0 out(1,2) wf_cloudV by (simp add: voxels_cloudV)
qed

subsection \<open>C4: what \<^verbatim>\<open>VoxelizedDownSample\<close> returns\<close>




end
